(* ===== verification/Prelude.thy ===== *)
theory Prelude
  imports Main "HOL-Library.Word" "HOL-Library.Code_Target_Nat"
begin

text \<open>
  Shared base of the development: error values, the result type of a fallible pure
  function, the state-passing action type of a function with effects, the loops the
  code writes over slices, and the collections of rules the component proofs use.

  Go reports failures as values of type \<open>error\<close>.  An error built by \<open>fmt.Errorf\<close> is kept
  as its format string and its formatted arguments, so two different error sites of the
  source are two different values here; \<open>%w\<close> wraps the inner error.
\<close>

section \<open>Errors and results\<close>

datatype err =
    Errf string "string list"
  | Wrapf string "string list" err
  | Joined "err list"
  | Outside string

type_synonym 'a res = "err + 'a"

named_theorems res_simps "defining equations of result and action combinators"
named_theorems io_laws "run equations of actions"
named_theorems spec_rules "compositional rules for action specifications"
named_theorems emit_rules "compositional rules for what an action may emit"

definition is_ok :: "'a res \<Rightarrow> bool" where
  "is_ok r = (case r of Inl _ \<Rightarrow> False | Inr _ \<Rightarrow> True)"

lemma is_ok_simps [simp]: "is_ok (Inr x)" "\<not> is_ok (Inl e)"
  by (simp_all add: is_ok_def)

lemma is_ok_iff: "is_ok r \<longleftrightarrow> (\<exists>x. r = Inr x)"
  by (cases r) simp_all

definition res_bind :: "'a res \<Rightarrow> ('a \<Rightarrow> 'b res) \<Rightarrow> 'b res" where
  "res_bind r f = (case r of Inl e \<Rightarrow> Inl e | Inr x \<Rightarrow> f x)"

definition res_wrap :: "(err \<Rightarrow> err) \<Rightarrow> 'a res \<Rightarrow> 'a res" where
  "res_wrap g r = (case r of Inl e \<Rightarrow> Inl (g e) | Inr x \<Rightarrow> Inr x)"

lemma res_bind_simps [simp]:
  "res_bind (Inr x) f = f x" "res_bind (Inl e) f = Inl e"
  by (simp_all add: res_bind_def)

lemma res_wrap_simps [simp]:
  "res_wrap g (Inr x) = Inr x" "res_wrap g (Inl e) = Inl (g e)"
  by (simp_all add: res_wrap_def)

lemma res_bind_Inr_iff: "res_bind r f = Inr y \<longleftrightarrow> (\<exists>x. r = Inr x \<and> f x = Inr y)"
  by (cases r) simp_all

lemma res_wrap_Inr_iff [simp]: "res_wrap g r = Inr y \<longleftrightarrow> r = Inr y"
  by (cases r) simp_all

lemma is_ok_bind: "is_ok (res_bind r f) \<longleftrightarrow> (\<exists>x. r = Inr x \<and> is_ok (f x))"
  by (cases r) simp_all

lemma is_ok_bind_unit [simp]:
  "is_ok (res_bind (r :: unit res) f) \<longleftrightarrow> is_ok r \<and> is_ok (f ())"
  by (cases r) simp_all

lemma is_ok_wrap [simp]: "is_ok (res_wrap g r) = is_ok r"
  by (cases r) simp_all

text \<open>
  \<open>res_iter f xs\<close> is \<open>for _, x := range xs { if err := f(x); err != nil { return err } }\<close>.
\<close>

primrec res_iter :: "('a \<Rightarrow> unit res) \<Rightarrow> 'a list \<Rightarrow> unit res" where
  "res_iter f [] = Inr ()"
| "res_iter f (x # xs) = res_bind (f x) (\<lambda>_. res_iter f xs)"

lemma res_iter_ok: "is_ok (res_iter f xs) \<longleftrightarrow> (\<forall>x \<in> set xs. is_ok (f x))"
proof (induction xs)
  case Nil
  then show ?case by simp
next
  case (Cons a xs)
  then show ?case by (cases "f a") simp_all
qed

lemma res_iter_Inr: "res_iter f xs = Inr () \<longleftrightarrow> (\<forall>x \<in> set xs. is_ok (f x))"
  using res_iter_ok [of f xs] by (simp add: is_ok_iff)

lemma res_iter_append: "res_iter f (xs @ ys) = res_bind (res_iter f xs) (\<lambda>_. res_iter f ys)"
proof (induction xs)
  case Nil
  then show ?case by simp
next
  case (Cons a xs)
  then show ?case by (cases "f a") simp_all
qed

lemma res_iter_errorD:
  "res_iter f xs = Inl e \<Longrightarrow>
     \<exists>ys x zs. xs = ys @ x # zs \<and> (\<forall>y \<in> set ys. is_ok (f y)) \<and> f x = Inl e"
proof (induction xs)
  case Nil
  then show ?case by simp
next
  case (Cons a xs)
  show ?case
  proof (cases "f a")
    case (Inl e')
    with Cons.prems have "a # xs = [] @ a # xs \<and> (\<forall>y \<in> set []. is_ok (f y)) \<and> f a = Inl e"
      by simp
    then show ?thesis by blast
  next
    case (Inr u)
    with Cons obtain ys x zs where "xs = ys @ x # zs" "\<forall>y \<in> set ys. is_ok (f y)" "f x = Inl e"
      by auto
    with Inr have "a # xs = (a # ys) @ x # zs \<and> (\<forall>y \<in> set (a # ys). is_ok (f y)) \<and> f x = Inl e"
      by simp
    then show ?thesis by blast
  qed
qed

text \<open>The loop reports the error of the first element that has one.\<close>

lemma res_iter_first_error:
  "res_iter f xs = Inl e \<longleftrightarrow>
     (\<exists>ys x zs. xs = ys @ x # zs \<and> (\<forall>y \<in> set ys. is_ok (f y)) \<and> f x = Inl e)"
proof
  assume "res_iter f xs = Inl e"
  then show "\<exists>ys x zs. xs = ys @ x # zs \<and> (\<forall>y \<in> set ys. is_ok (f y)) \<and> f x = Inl e"
    by (rule res_iter_errorD)
next
  assume "\<exists>ys x zs. xs = ys @ x # zs \<and> (\<forall>y \<in> set ys. is_ok (f y)) \<and> f x = Inl e"
  then show "res_iter f xs = Inl e"
    by (auto simp: res_iter_append res_iter_Inr [THEN iffD2])
qed

text \<open>A check over an indexed loop whose verdict does not depend on the index.\<close>

lemma res_iter_enumerate_ok:
  assumes "\<And>i x. is_ok (f i x) = P x"
  shows "is_ok (res_iter (\<lambda>(i, x). f i x) (enumerate n xs)) \<longleftrightarrow> (\<forall>x \<in> set xs. P x)"
proof -
  have "snd ` set (enumerate n xs) = set xs"
    by (metis list.set_map map_snd_enumerate)
  then have "(\<forall>y \<in> set (enumerate n xs). P (snd y)) \<longleftrightarrow> (\<forall>x \<in> set xs. P x)"
    by (metis (no_types, opaque_lifting) imageE imageI)
  then show ?thesis
    by (simp add: res_iter_ok assms split_beta)
qed

primrec res_map :: "('a \<Rightarrow> 'b res) \<Rightarrow> 'a list \<Rightarrow> 'b list res" where
  "res_map f [] = Inr []"
| "res_map f (x # xs) = res_bind (f x) (\<lambda>y. res_bind (res_map f xs) (\<lambda>ys. Inr (y # ys)))"

lemma res_map_Inr: "res_map f xs = Inr ys \<longleftrightarrow> map f xs = map Inr ys"
  by (induction xs arbitrary: ys) (auto simp: res_bind_Inr_iff map_eq_Cons_conv Cons_eq_map_conv)

section \<open>Actions\<close>

text \<open>
  A function with effects takes the state and returns its result (an error or a value)
  with the state it leaves behind, whether it failed or not.
\<close>

type_synonym ('s, 'a) io = "'s \<Rightarrow> 'a res \<times> 's"

definition io_ok :: "'a \<Rightarrow> ('s, 'a) io" where
  "io_ok x = (\<lambda>s. (Inr x, s))"

definition io_fail :: "err \<Rightarrow> ('s, 'a) io" where
  "io_fail e = (\<lambda>s. (Inl e, s))"

definition io_lift :: "'a res \<Rightarrow> ('s, 'a) io" where
  "io_lift r = (\<lambda>s. (r, s))"

definition io_bind :: "('s, 'a) io \<Rightarrow> ('a \<Rightarrow> ('s, 'b) io) \<Rightarrow> ('s, 'b) io" where
  "io_bind m f = (\<lambda>s. case m s of (Inl e, t) \<Rightarrow> (Inl e, t) | (Inr x, t) \<Rightarrow> f x t)"

definition io_then :: "('s, 'a) io \<Rightarrow> ('s, 'b) io \<Rightarrow> ('s, 'b) io" where
  "io_then m n = io_bind m (\<lambda>_. n)"

definition io_wrap :: "(err \<Rightarrow> err) \<Rightarrow> ('s, 'a) io \<Rightarrow> ('s, 'a) io" where
  "io_wrap g m = (\<lambda>s. case m s of (r, t) \<Rightarrow> (res_wrap g r, t))"

text \<open>\<open>io_try m\<close> never fails: the error is the value, as in \<open>if _, err := m(); err == nil\<close>.\<close>

definition io_try :: "('s, 'a) io \<Rightarrow> ('s, 'a res) io" where
  "io_try m = (\<lambda>s. case m s of (r, t) \<Rightarrow> (Inr r, t))"

text \<open>\<open>io_finally m d\<close> is \<open>defer d()\<close> around \<open>m\<close>: \<open>d\<close> runs on every return path, its own
  outcome is dropped.\<close>

definition io_finally :: "('s, 'a) io \<Rightarrow> ('s, 'b) io \<Rightarrow> ('s, 'a) io" where
  "io_finally m d = (\<lambda>s. case m s of (r, t) \<Rightarrow> (r, snd (d t)))"

primrec io_iter :: "('a \<Rightarrow> ('s, unit) io) \<Rightarrow> 'a list \<Rightarrow> ('s, unit) io" where
  "io_iter f [] = io_ok ()"
| "io_iter f (x # xs) = io_then (f x) (io_iter f xs)"

lemma run_simps [simp, io_laws]:
  "io_ok x s = (Inr x, s)"
  "io_fail e s = (Inl e, s)"
  "io_lift r s = (r, s)"
  by (simp_all add: io_ok_def io_fail_def io_lift_def)

lemma run_bind [io_laws]:
  "io_bind m f s = (case m s of (Inl e, t) \<Rightarrow> (Inl e, t) | (Inr x, t) \<Rightarrow> f x t)"
  by (simp add: io_bind_def)

lemma run_then [io_laws]:
  "io_then m n s = (case m s of (Inl e, t) \<Rightarrow> (Inl e, t) | (Inr x, t) \<Rightarrow> n t)"
  by (simp add: io_then_def io_bind_def)

lemma run_wrap [io_laws]: "io_wrap g m s = (case m s of (r, t) \<Rightarrow> (res_wrap g r, t))"
  by (simp add: io_wrap_def)

lemma run_try [io_laws]: "io_try m s = (case m s of (r, t) \<Rightarrow> (Inr r, t))"
  by (simp add: io_try_def)

lemma run_finally [io_laws]: "io_finally m d s = (case m s of (r, t) \<Rightarrow> (r, snd (d t)))"
  by (simp add: io_finally_def)

lemma bind_success:
  "io_bind m f s = (Inr y, t) \<longleftrightarrow> (\<exists>x u. m s = (Inr x, u) \<and> f x u = (Inr y, t))"
  by (auto simp: run_bind split: prod.splits sum.splits)

lemma then_success:
  "io_then m n s = (Inr y, t) \<longleftrightarrow> (\<exists>x u. m s = (Inr x, u) \<and> n u = (Inr y, t))"
  by (simp add: io_then_def bind_success)

lemma wrap_success: "io_wrap g m s = (Inr y, t) \<longleftrightarrow> m s = (Inr y, t)"
  by (auto simp: run_wrap split: prod.splits)

lemma try_success:
  "io_try m s = (Inr r, t) \<longleftrightarrow> m s = (r, t)"
  by (auto simp: run_try split: prod.splits)

lemma iter_Nil_success [simp]: "io_iter f [] s = (Inr y, t) \<longleftrightarrow> t = s"
  by auto

lemma iter_append: "io_iter f (xs @ ys) = io_then (io_iter f xs) (io_iter f ys)"
  by (induction xs) (auto simp: fun_eq_iff io_laws split: prod.splits sum.splits)

lemmas success_simps = bind_success then_success wrap_success try_success

section \<open>Specifications of actions\<close>

text \<open>
  \<open>io_spec P m Q E\<close>: from a state with \<open>P\<close>, the action ends with \<open>Q\<close> of its value and the
  state it leaves when it succeeds and with \<open>E\<close> of that state when it fails.
\<close>

definition io_spec ::
    "('s \<Rightarrow> bool) \<Rightarrow> ('s, 'a) io \<Rightarrow> ('a \<Rightarrow> 's \<Rightarrow> bool) \<Rightarrow> ('s \<Rightarrow> bool) \<Rightarrow> bool" where
  "io_spec P m Q E \<longleftrightarrow>
     (\<forall>s r t. P s \<longrightarrow> m s = (r, t) \<longrightarrow> (case r of Inl _ \<Rightarrow> E t | Inr x \<Rightarrow> Q x t))"

lemma io_specI:
  assumes "\<And>s e t. P s \<Longrightarrow> m s = (Inl e, t) \<Longrightarrow> E t"
    and "\<And>s x t. P s \<Longrightarrow> m s = (Inr x, t) \<Longrightarrow> Q x t"
  shows "io_spec P m Q E"
  using assms by (auto simp: io_spec_def split: sum.splits)

lemma io_spec_okD: "io_spec P m Q E \<Longrightarrow> P s \<Longrightarrow> m s = (Inr x, t) \<Longrightarrow> Q x t"
  by (auto simp: io_spec_def)

lemma io_spec_errD: "io_spec P m Q E \<Longrightarrow> P s \<Longrightarrow> m s = (Inl e, t) \<Longrightarrow> E t"
  by (auto simp: io_spec_def)

lemma io_spec_weaken:
  assumes "io_spec P' m Q' E'"
    and "\<And>s. P s \<Longrightarrow> P' s" and "\<And>x s. Q' x s \<Longrightarrow> Q x s" and "\<And>s. E' s \<Longrightarrow> E s"
  shows "io_spec P m Q E"
  using assms by (blast intro: io_specI dest: io_spec_okD io_spec_errD)

lemma spec_ok [spec_rules]: "(\<And>s. P s \<Longrightarrow> Q x s) \<Longrightarrow> io_spec P (io_ok x) Q E"
  by (simp add: io_spec_def)

lemma spec_fail [spec_rules]: "(\<And>s. P s \<Longrightarrow> E s) \<Longrightarrow> io_spec P (io_fail e) Q E"
  by (simp add: io_spec_def)

lemma spec_lift:
  assumes "\<And>s e. P s \<Longrightarrow> r = Inl e \<Longrightarrow> E s" and "\<And>s x. P s \<Longrightarrow> r = Inr x \<Longrightarrow> Q x s"
  shows "io_spec P (io_lift r) Q E"
  using assms by (cases r) (auto simp: io_spec_def)

lemma spec_bind [spec_rules]:
  assumes "io_spec P m R E" and "\<And>x. io_spec (R x) (f x) Q E"
  shows "io_spec P (io_bind m f) Q E"
proof (rule io_specI)
  fix s e t assume "P s" "io_bind m f s = (Inl e, t)"
  then show "E t"
    using assms by (auto simp: run_bind split: prod.splits sum.splits
        dest: io_spec_okD io_spec_errD)
next
  fix s y t assume "P s" "io_bind m f s = (Inr y, t)"
  then show "Q y t"
    using assms by (auto simp: bind_success dest: io_spec_okD)
qed

lemma spec_then [spec_rules]:
  assumes "io_spec P m (\<lambda>_. R) E" and "io_spec R n Q E"
  shows "io_spec P (io_then m n) Q E"
  using assms by (auto simp: io_then_def intro: spec_bind)

lemma spec_wrap [spec_rules]: "io_spec P m Q E \<Longrightarrow> io_spec P (io_wrap g m) Q E"
  by (rule io_specI)
     (auto simp: run_wrap res_wrap_def split: prod.splits sum.splits dest: io_spec_okD io_spec_errD)

lemma spec_finally:
  assumes "io_spec P m Q' E'"
    and "\<And>x s. Q' x s \<Longrightarrow> Q x (snd (d s))" and "\<And>s. E' s \<Longrightarrow> E (snd (d s))"
  shows "io_spec P (io_finally m d) Q E"
  using assms by (intro io_specI)
    (auto simp: run_finally split: prod.splits dest: io_spec_okD io_spec_errD)

lemma spec_if [spec_rules]:
  assumes "b \<Longrightarrow> io_spec P m Q E" and "\<not> b \<Longrightarrow> io_spec P n Q E"
  shows "io_spec P (if b then m else n) Q E"
  using assms by simp

lemma spec_iter:
  assumes "\<And>x. x \<in> set xs \<Longrightarrow> io_spec I (f x) (\<lambda>_. I) E"
  shows "io_spec I (io_iter f xs) (\<lambda>_. I) E"
  using assms by (induction xs) (auto intro: spec_ok spec_then)

end
