(* ===== verification/GoStrings.thy ===== *)
theory GoStrings
  imports Prelude
begin

text \<open>
  The parts of Go's \<open>strings\<close>, \<open>strconv\<close> and \<open>path/filepath\<close> the program uses.  A Go string
  is a sequence of bytes, and so is a HOL \<open>string\<close> (a list of 8-bit characters).
  \<open>TrimSpace\<close> and \<open>Fields\<close> cut at every Unicode space, whose multi-byte encodings are
  written out; \<open>ToLower\<close> is modelled on ASCII letters (other bytes are left alone).
\<close>

section \<open>Prefixes, suffixes, splitting\<close>

fun HasPrefix :: "string \<Rightarrow> string \<Rightarrow> bool" where
  "HasPrefix s [] = True"
| "HasPrefix [] (p # ps) = False"
| "HasPrefix (c # s) (p # ps) = (c = p \<and> HasPrefix s ps)"

definition HasSuffix :: "string \<Rightarrow> string \<Rightarrow> bool" where
  "HasSuffix s p = HasPrefix (rev s) (rev p)"

definition TrimPrefix :: "string \<Rightarrow> string \<Rightarrow> string" where
  "TrimPrefix s p = (if HasPrefix s p then drop (length p) s else s)"

definition CutPrefix :: "string \<Rightarrow> string \<Rightarrow> string \<times> bool" where
  "CutPrefix s p = (if HasPrefix s p then (drop (length p) s, True) else (s, False))"

definition TrimSuffix :: "string \<Rightarrow> string \<Rightarrow> string" where
  "TrimSuffix s p = (if HasSuffix s p then take (length s - length p) s else s)"

text \<open>\<open>strings.TrimRight(s, cutset)\<close> for a one-character cutset.\<close>

definition TrimRightChar :: "string \<Rightarrow> char \<Rightarrow> string" where
  "TrimRightChar s c = rev (dropWhile (\<lambda>d. d = c) (rev s))"

text \<open>\<open>strings.Cut\<close> and \<open>strings.Split\<close> for a one-character separator.\<close>

fun Cut :: "string \<Rightarrow> char \<Rightarrow> string \<times> string \<times> bool" where
  "Cut [] c = ([], [], False)"
| "Cut (x # s) c =
     (if x = c then ([], s, True)
      else (case Cut s c of (a, b, found) \<Rightarrow> (x # a, b, found)))"

fun Split :: "string \<Rightarrow> char \<Rightarrow> string list" where
  "Split [] c = [[]]"
| "Split (x # s) c =
     (if x = c then [] # Split s c
      else (case Split s c of [] \<Rightarrow> [[x]] | w # ws \<Rightarrow> (x # w) # ws))"

fun Join :: "string list \<Rightarrow> string \<Rightarrow> string" where
  "Join [] sep = []"
| "Join [w] sep = w"
| "Join (w # v # ws) sep = w @ sep @ Join (v # ws) sep"

text \<open>\<open>strings.LastIndex\<close> of a one-character substring, \<open>-1\<close> when absent.\<close>

fun LastIndex :: "string \<Rightarrow> char \<Rightarrow> int" where
  "LastIndex [] c = -1"
| "LastIndex (x # s) c =
     (let r = LastIndex s c in if 0 \<le> r then r + 1 else if x = c then 0 else -1)"

lemma HasPrefix_iff: "HasPrefix s p \<longleftrightarrow> (\<exists>t. s = p @ t)"
  by (induction s p rule: HasPrefix.induct) auto

lemma HasPrefix_append [simp]: "HasPrefix (p @ s) p"
  by (simp add: HasPrefix_iff)

lemma Split_nonempty [simp]: "Split s c \<noteq> []"
  by (induction s) (auto split: list.splits)

lemma Join_Split: "Join (Split s c) [c] = s"
proof (induction s)
  case Nil
  then show ?case by simp
next
  case (Cons x s)
  obtain w ws where "Split s c = w # ws" by (cases "Split s c") auto
  with Cons show ?case by (cases ws) auto
qed

lemma Split_no_sep: "w \<in> set (Split s c) \<Longrightarrow> c \<notin> set w"
  by (induction s arbitrary: w) (auto split: list.splits if_splits)

lemma Split_no_sep_single: "c \<notin> set s \<Longrightarrow> Split s c = [s]"
  by (induction s) auto

lemma Split_sep: "c \<notin> set w \<Longrightarrow> Split (w @ c # s) c = w # Split s c"
  by (induction w) auto

lemma Split_Join:
  "ws \<noteq> [] \<Longrightarrow> (\<forall>w \<in> set ws. c \<notin> set w) \<Longrightarrow> Split (Join ws [c]) c = ws"
  by (induction ws "[c]" rule: Join.induct) (auto simp: Split_no_sep_single Split_sep)

lemma Cut_found: "Cut s c = (a, b, True) \<Longrightarrow> s = a @ c # b \<and> c \<notin> set a"
  by (induction s arbitrary: a) (auto split: if_splits prod.splits)

lemma Cut_not_found: "Cut s c = (a, b, False) \<Longrightarrow> a = s \<and> b = [] \<and> c \<notin> set s"
  by (induction s arbitrary: a) (auto split: if_splits prod.splits)

lemma Cut_append: "c \<notin> set a \<Longrightarrow> Cut (a @ c # b) c = (a, b, True)"
  by (induction a) auto

lemma Cut_absent: "c \<notin> set a \<Longrightarrow> Cut a c = (a, [], False)"
  by (induction a) auto

lemma LastIndex_bounds: "-1 \<le> LastIndex s c \<and> LastIndex s c < int (length s)"
  by (induction s) (auto simp: Let_def)

lemma LastIndex_absent: "LastIndex s c = -1 \<longleftrightarrow> c \<notin> set s"
proof (induction s)
  case Nil
  then show ?case by simp
next
  case (Cons x s)
  then show ?case using LastIndex_bounds [of s c] by (auto simp: Let_def)
qed

lemma LastIndex_append:
  "c \<notin> set b \<Longrightarrow> LastIndex (a @ c # b) c = int (length a)"
proof (induction a)
  case Nil
  then have "LastIndex b c = -1" by (simp add: LastIndex_absent)
  then show ?case by (simp add: Let_def)
next
  case (Cons x a)
  then show ?case by (simp add: Let_def)
qed

section \<open>White space\<close>

abbreviation code :: "char \<Rightarrow> nat" where
  "code c \<equiv> of_char c"

definition ascii_space :: "char \<Rightarrow> bool" where
  "ascii_space c \<longleftrightarrow> code c = 32 \<or> (9 \<le> code c \<and> code c \<le> 13)"

text \<open>U+0085 and U+00A0; U+1680, U+2000 to U+200A, U+2028, U+2029, U+202F, U+205F, U+3000.\<close>

definition space2 :: "char \<Rightarrow> char \<Rightarrow> bool" where
  "space2 a b \<longleftrightarrow> code a = 194 \<and> (code b = 133 \<or> code b = 160)"

definition space3 :: "char \<Rightarrow> char \<Rightarrow> char \<Rightarrow> bool" where
  "space3 a b c \<longleftrightarrow>
     (code a = 225 \<and> code b = 154 \<and> code c = 128) \<or>
     (code a = 226 \<and> code b = 128 \<and>
        (128 \<le> code c \<and> code c \<le> 138 \<or> code c = 168 \<or> code c = 169 \<or> code c = 175)) \<or>
     (code a = 226 \<and> code b = 129 \<and> code c = 159) \<or>
     (code a = 227 \<and> code b = 128 \<and> code c = 128)"

text \<open>The length of the space at the start of a string, \<open>0\<close> if there is none.\<close>

fun lead_space :: "string \<Rightarrow> nat" where
  "lead_space [] = 0"
| "lead_space [a] = (if ascii_space a then 1 else 0)"
| "lead_space [a, b] = (if ascii_space a then 1 else if space2 a b then 2 else 0)"
| "lead_space (a # b # c # s) =
     (if ascii_space a then 1 else if space2 a b then 2 else if space3 a b c then 3 else 0)"

text \<open>The length of the space at the end of a string, which is given reversed.\<close>

fun trail_space :: "string \<Rightarrow> nat" where
  "trail_space [] = 0"
| "trail_space [a] = (if ascii_space a then 1 else 0)"
| "trail_space [a, b] = (if ascii_space a then 1 else if space2 b a then 2 else 0)"
| "trail_space (a # b # c # s) =
     (if ascii_space a then 1 else if space2 b a then 2 else if space3 c b a then 3 else 0)"

function trim_left :: "string \<Rightarrow> string" where
  "trim_left s = (if lead_space s = 0 then s else trim_left (drop (lead_space s) s))"
  by pat_completeness auto
termination
proof (relation "measure length")
  fix s :: string assume "lead_space s \<noteq> 0"
  then show "(drop (lead_space s) s, s) \<in> measure length" by (cases s) auto
qed simp

function trim_right_rev :: "string \<Rightarrow> string" where
  "trim_right_rev s = (if trail_space s = 0 then s else trim_right_rev (drop (trail_space s) s))"
  by pat_completeness auto
termination
proof (relation "measure length")
  fix s :: string assume "trail_space s \<noteq> 0"
  then show "(drop (trail_space s) s, s) \<in> measure length" by (cases s) auto
qed simp

declare trim_left.simps [simp del] trim_right_rev.simps [simp del]

definition TrimSpace :: "string \<Rightarrow> string" where
  "TrimSpace s = rev (trim_right_rev (rev (trim_left s)))"

text \<open>\<open>strings.Fields\<close>: the maximal runs of non-space; \<open>w\<close> is the current run, reversed.\<close>

function fields_from :: "string \<Rightarrow> string \<Rightarrow> string list" where
  "fields_from s w =
     (let flush = (if w = [] then [] else [rev w]) in
      if lead_space s \<noteq> 0 then flush @ fields_from (drop (lead_space s) s) []
      else (case s of [] \<Rightarrow> flush | c # t \<Rightarrow> fields_from t (c # w)))"
  by pat_completeness auto
termination
proof (relation "measure (\<lambda>(s, w). length s)")
  fix s w :: string assume "lead_space s \<noteq> 0"
  then show "((drop (lead_space s) s, []), s, w) \<in> measure (\<lambda>(s, w). length s)" by (cases s) auto
qed auto

declare fields_from.simps [simp del]

definition Fields :: "string \<Rightarrow> string list" where
  "Fields s = fields_from s []"

definition lower_char :: "char \<Rightarrow> char" where
  "lower_char c = (if 65 \<le> (of_char c :: nat) \<and> (of_char c :: nat) \<le> 90
     then char_of ((of_char c :: nat) + 32) else c)"

definition ToLower :: "string \<Rightarrow> string" where
  "ToLower s = map lower_char s"

text \<open>\<open>strings.EqualFold(s, t)\<close> where \<open>t\<close> is an ASCII string without \<open>k\<close> and \<open>s\<close>.\<close>

definition EqualFold :: "string \<Rightarrow> string \<Rightarrow> bool" where
  "EqualFold s t = (ToLower s = ToLower t)"


subsection \<open>Trimming\<close>

lemma lead_space_prefix: "lead_space (a @ b) = 0 \<Longrightarrow> lead_space a = 0"
  by (cases a rule: lead_space.cases) (auto split: if_splits list.splits elim: lead_space.elims)

lemma trim_left_no_space: "lead_space s = 0 \<Longrightarrow> trim_left s = s"
  by (simp add: trim_left.simps)

lemma trim_left_lead [simp]: "lead_space (trim_left s) = 0"
proof (induction s rule: trim_left.induct)
  case (1 s)
  then show ?case by (cases "lead_space s = 0") (simp_all add: trim_left.simps [of s])
qed

lemma trim_right_no_space: "trail_space s = 0 \<Longrightarrow> trim_right_rev s = s"
  by (simp add: trim_right_rev.simps)

lemma trim_right_trail [simp]: "trail_space (trim_right_rev s) = 0"
proof (induction s rule: trim_right_rev.induct)
  case (1 s)
  then show ?case by (cases "trail_space s = 0") (simp_all add: trim_right_rev.simps [of s])
qed

lemma trim_right_suffix: "\<exists>u. s = u @ trim_right_rev s"
proof (induction s rule: trim_right_rev.induct)
  case (1 s)
  show ?case
  proof (cases "trail_space s = 0")
    case True
    then show ?thesis by (simp add: trim_right_no_space)
  next
    case False
    with "1" obtain u where "drop (trail_space s) s = u @ trim_right_rev (drop (trail_space s) s)"
      by blast
    with False have "s = (take (trail_space s) s @ u) @ trim_right_rev s"
      by (metis append.assoc append_take_drop_id trim_right_rev.simps)
    then show ?thesis by blast
  qed
qed

lemma TrimSpace_lead [simp]: "lead_space (TrimSpace s) = 0"
proof -
  obtain u where "rev (trim_left s) = u @ trim_right_rev (rev (trim_left s))"
    using trim_right_suffix by blast
  then have "trim_left s = TrimSpace s @ rev u"
    unfolding TrimSpace_def by (metis rev_append rev_rev_ident)
  then show ?thesis by (metis trim_left_lead lead_space_prefix)
qed

lemma TrimSpace_trail [simp]: "trail_space (rev (TrimSpace s)) = 0"
  by (simp add: TrimSpace_def)

lemma TrimSpace_no_space: "lead_space s = 0 \<Longrightarrow> trail_space (rev s) = 0 \<Longrightarrow> TrimSpace s = s"
  by (simp add: TrimSpace_def trim_left_no_space trim_right_no_space)

lemma TrimSpace_idem [simp]: "TrimSpace (TrimSpace s) = TrimSpace s"
  by (simp add: TrimSpace_no_space)

lemma TrimSpace_Nil [simp]: "TrimSpace [] = []"
  by (simp add: TrimSpace_no_space)

text \<open>Text of ASCII characters that are not white space is left alone.\<close>

definition plain_char :: "char \<Rightarrow> bool" where
  "plain_char c \<longleftrightarrow> code c < 128 \<and> \<not> ascii_space c"

lemma plain_not_space:
  "plain_char a \<Longrightarrow> \<not> space2 a b" "plain_char a \<Longrightarrow> \<not> space3 a b c"
  "plain_char b \<Longrightarrow> \<not> space2 a b" "plain_char c \<Longrightarrow> \<not> space3 a b c"
  by (auto simp: plain_char_def space2_def space3_def)

lemma lead_space_plain: "plain_char a \<Longrightarrow> lead_space (a # s) = 0"
  by (cases "a # s" rule: lead_space.cases) (auto simp: plain_not_space, auto simp: plain_char_def)

lemma trail_space_plain: "plain_char a \<Longrightarrow> trail_space (a # s) = 0"
  by (cases "a # s" rule: trail_space.cases) (auto simp: plain_not_space, auto simp: plain_char_def)

lemma TrimSpace_plain:
  assumes "list_all plain_char s"
  shows "TrimSpace s = s"
proof (rule TrimSpace_no_space)
  show "lead_space s = 0" using assms by (cases s) (auto simp: lead_space_plain)
  have "list_all plain_char (rev s)" using assms by simp
  then show "trail_space (rev s) = 0" by (cases "rev s") (auto simp: trail_space_plain)
qed

subsection \<open>Lower case\<close>

lemma of_lower_char:
  "(of_char (lower_char c) :: nat) =
     (if 65 \<le> (of_char c :: nat) \<and> (of_char c :: nat) \<le> 90 then of_char c + 32 else of_char c)"
  by (simp add: lower_char_def)

lemma lower_spaces [simp]:
  "ascii_space (lower_char a) = ascii_space a"
  "space2 (lower_char a) (lower_char b) = space2 a b"
  "space3 (lower_char a) (lower_char b) (lower_char c) = space3 a b c"
  by (auto simp: ascii_space_def space2_def space3_def of_lower_char)

lemma lead_space_lower [simp]: "lead_space (map lower_char s) = lead_space s"
  by (cases s rule: lead_space.cases) simp_all

lemma trail_space_lower [simp]: "trail_space (map lower_char s) = trail_space s"
  by (cases s rule: trail_space.cases) simp_all

lemma trim_left_lower: "trim_left (map lower_char s) = map lower_char (trim_left s)"
proof (induction s rule: trim_left.induct)
  case (1 s)
  then show ?case
    by (cases "lead_space s = 0")
       (simp_all add: trim_left.simps [of s] trim_left.simps [of "map lower_char s"] drop_map)
qed

lemma trim_right_lower: "trim_right_rev (map lower_char s) = map lower_char (trim_right_rev s)"
proof (induction s rule: trim_right_rev.induct)
  case (1 s)
  then show ?case
    by (cases "trail_space s = 0")
       (simp_all add: trim_right_rev.simps [of s] trim_right_rev.simps [of "map lower_char s"] drop_map)
qed

lemma TrimSpace_ToLower: "TrimSpace (ToLower s) = ToLower (TrimSpace s)"
  by (simp add: TrimSpace_def ToLower_def trim_left_lower trim_right_lower rev_map)

lemma lower_char_idem [simp]: "lower_char (lower_char c) = lower_char c"
  by (simp add: of_char_eq_iff [where 'a = nat, symmetric] of_lower_char)

lemma ToLower_idem [simp]: "ToLower (ToLower s) = ToLower s"
  by (simp add: ToLower_def)

lemma ToLower_Nil [simp]: "ToLower [] = []" "ToLower s = [] \<longleftrightarrow> s = []"
  by (simp_all add: ToLower_def)

section \<open>Numbers\<close>

definition is_digit :: "char \<Rightarrow> bool" where
  "is_digit c \<longleftrightarrow> 48 \<le> (of_char c :: nat) \<and> (of_char c :: nat) \<le> 57"

definition digit_of :: "char \<Rightarrow> nat option" where
  "digit_of c =
     (let n = (of_char c :: nat) in
      if 48 \<le> n \<and> n \<le> 57 then Some (n - 48)
      else if 97 \<le> n \<and> n \<le> 122 then Some (n - 87)
      else if 65 \<le> n \<and> n \<le> 90 then Some (n - 55)
      else None)"

definition digit_char :: "nat \<Rightarrow> char" where
  "digit_char d = char_of (if d < 10 then 48 + d else 87 + d)"

datatype num_error = ErrSyntax | ErrRange

text \<open>The digit loop of \<open>strconv.ParseUint\<close>; \<open>maxv\<close> is the largest value of the bit size.\<close>

fun parse_digits :: "nat \<Rightarrow> nat \<Rightarrow> nat \<Rightarrow> string \<Rightarrow> num_error + nat" where
  "parse_digits base maxv n [] = Inr n"
| "parse_digits base maxv n (c # s) =
     (case digit_of c of
        None \<Rightarrow> Inl ErrSyntax
      | Some d \<Rightarrow>
          if base \<le> d then Inl ErrSyntax
          else if maxv < n * base + d then Inl ErrRange
          else parse_digits base maxv (n * base + d) s)"

definition ParseUint :: "string \<Rightarrow> nat \<Rightarrow> nat \<Rightarrow> num_error + nat" where
  "ParseUint s base bits =
     (if s = [] then Inl ErrSyntax else parse_digits base (2 ^ bits - 1) 0 s)"

text \<open>\<open>strconv.Atoi\<close> on a 64-bit platform: an optional sign, then decimal digits.\<close>

definition Atoi :: "string \<Rightarrow> num_error + int" where
  "Atoi s =
     (let neg = (case s of c # _ \<Rightarrow> c = CHR ''-'' | [] \<Rightarrow> False);
          body = (case s of c # t \<Rightarrow> if c = CHR ''-'' \<or> c = CHR ''+'' then t else s | [] \<Rightarrow> [])
      in case ParseUint body 10 64 of
           Inl e \<Rightarrow> Inl e
         | Inr n \<Rightarrow>
             if \<not> neg \<and> 2 ^ 63 \<le> n then Inl ErrRange
             else if neg \<and> 2 ^ 63 < n then Inl ErrRange
             else Inr (if neg then - int n else int n))"

text \<open>\<open>strconv.Itoa\<close>, \<open>%d\<close> and \<open>%x\<close>.\<close>

fun nat_string :: "nat \<Rightarrow> nat \<Rightarrow> string" where
  "nat_string base n =
     (if n < base \<or> base < 2 then [digit_char n]
      else nat_string base (n div base) @ [digit_char (n mod base)])"

declare nat_string.simps [simp del]

definition Itoa :: "int \<Rightarrow> string" where
  "Itoa i = (if i < 0 then CHR ''-'' # nat_string 10 (nat (- i)) else nat_string 10 (nat i))"

lemma of_digit_char:
  "d < 36 \<Longrightarrow> (of_char (digit_char d) :: nat) = (if d < 10 then 48 + d else 87 + d)"
  by (simp add: digit_char_def)

lemma digit_of_digit_char [simp]: "d < 36 \<Longrightarrow> digit_of (digit_char d) = Some d"
  by (simp add: digit_of_def of_digit_char)

lemma parse_digits_append:
  "parse_digits b maxv n (s @ t) =
     (case parse_digits b maxv n s of Inl e \<Rightarrow> Inl e | Inr m \<Rightarrow> parse_digits b maxv m t)"
  by (induction s arbitrary: n) (auto split: option.splits)

lemma parse_digits_bound: "parse_digits b maxv n s = Inr m \<Longrightarrow> n \<le> maxv \<Longrightarrow> m \<le> maxv"
  by (induction s arbitrary: n) (auto split: option.splits if_splits)

lemma parse_nat_string:
  "2 \<le> b \<Longrightarrow> b \<le> 36 \<Longrightarrow> n \<le> maxv \<Longrightarrow> parse_digits b maxv 0 (nat_string b n) = Inr n"
proof (induction b n rule: nat_string.induct)
  case (1 b n)
  show ?case
  proof (cases "n < b")
    case True
    with "1.prems" show ?thesis by (simp add: nat_string.simps [of b n])
  next
    case False
    have "n div b \<le> maxv" using "1.prems"(3) div_le_dividend le_trans by blast
    with "1" False have ih: "parse_digits b maxv 0 (nat_string b (n div b)) = Inr (n div b)"
      by simp
    have "n mod b < b" using "1.prems"(1) by simp
    then have "digit_of (digit_char (n mod b)) = Some (n mod b)" "\<not> b \<le> n mod b"
      using "1.prems"(2) by simp_all
    moreover have "n div b * b + n mod b = n" by simp
    ultimately show ?thesis
      using False "1.prems" ih by (simp add: nat_string.simps [of b n] parse_digits_append)
  qed
qed

lemma nat_string_nonempty [simp]: "nat_string b n \<noteq> []"
  by (subst nat_string.simps) simp

lemma nat_string_digits: "2 \<le> b \<Longrightarrow> b \<le> 36 \<Longrightarrow> c \<in> set (nat_string b n) \<Longrightarrow> \<exists>d < b. c = digit_char d"
proof (induction b n rule: nat_string.induct)
  case (1 b n)
  show ?case
  proof (cases "n < b")
    case True
    with "1.prems" show ?thesis by (auto simp: nat_string.simps [of b n])
  next
    case False
    with "1.prems" have "c \<in> set (nat_string b (n div b)) \<or> c = digit_char (n mod b)"
      by (auto simp: nat_string.simps [of b n])
    moreover have "n mod b < b" using "1.prems"(1) by simp
    moreover have "\<not> (n < b \<or> b < 2)" using False "1.prems"(1) by simp
    ultimately show ?thesis using "1.IH" "1.prems"(1,2) by blast
  qed
qed

lemma digit_char_is_digit: "d < 10 \<Longrightarrow> is_digit (digit_char d)"
  by (simp add: is_digit_def of_digit_char)

lemma decimal_digits: "c \<in> set (nat_string 10 n) \<Longrightarrow> is_digit c"
  using nat_string_digits [of 10 c n] digit_char_is_digit by auto

lemma plain_digit_char: "d < 36 \<Longrightarrow> plain_char (digit_char d)"
  by (auto simp: plain_char_def ascii_space_def of_digit_char)

lemma nat_string_plain: "2 \<le> b \<Longrightarrow> b \<le> 36 \<Longrightarrow> list_all plain_char (nat_string b n)"
  unfolding list_all_iff
proof
  fix c assume "2 \<le> b" "b \<le> 36" "c \<in> set (nat_string b n)"
  then obtain d where "d < b" "c = digit_char d" using nat_string_digits [of b c n] by blast
  then show "plain_char c" using \<open>b \<le> 36\<close> by (simp add: plain_digit_char)
qed

lemma nat_string_hd_digit: "is_digit (hd (nat_string 10 n))"
  by (rule decimal_digits [of _ n]) (rule hd_in_set, simp)

lemma not_digit [simp]:
  "\<not> is_digit CHR ''-''" "\<not> is_digit CHR ''+''" "\<not> is_digit CHR ''.''" "\<not> is_digit CHR ''/''"
  "\<not> is_digit CHR '':''"
  by (simp_all add: is_digit_def)

lemma ParseUint_nat_string: "n < 2 ^ w \<Longrightarrow> ParseUint (nat_string 10 n) 10 w = Inr n"
  by (simp add: ParseUint_def parse_nat_string)

lemma ParseUint_bound: "ParseUint s b w = Inr n \<Longrightarrow> n < 2 ^ w"
proof -
  assume "ParseUint s b w = Inr n"
  then have "n \<le> 2 ^ w - 1"
    by (auto simp: ParseUint_def split: if_splits dest: parse_digits_bound)
  moreover have "(0 :: nat) < 2 ^ w" by simp
  ultimately show ?thesis by linarith
qed

lemma Atoi_Itoa:
  assumes "- (2 ^ 63) \<le> i" and "i < 2 ^ 63"
  shows "Atoi (Itoa i) = Inr i"
proof (cases "i < 0")
  case True
  then have "nat (- i) < 2 ^ 64" using assms(1) by simp
  then have "ParseUint (nat_string 10 (nat (- i))) 10 64 = Inr (nat (- i))"
    by (rule ParseUint_nat_string)
  with True assms show ?thesis by (simp add: Itoa_def Atoi_def)
next
  case False
  define s where "s = nat_string 10 (nat i)"
  have "nat i < 2 ^ 64" using assms(2) by simp
  then have p: "ParseUint s 10 64 = Inr (nat i)"
    unfolding s_def by (rule ParseUint_nat_string)
  obtain c t where s: "s = c # t" by (cases s) (simp_all add: s_def)
  have "is_digit c" using nat_string_hd_digit [of "nat i"] s by (simp add: s_def [symmetric])
  then have "c \<noteq> CHR ''-''" "c \<noteq> CHR ''+''" using not_digit by blast+
  with False p s assms show ?thesis by (simp add: Itoa_def Atoi_def s_def [symmetric])
qed

lemma Atoi_range: "Atoi s = Inr i \<Longrightarrow> - (2 ^ 63) \<le> i \<and> i < 2 ^ 63"
  by (auto simp: Atoi_def Let_def split: sum.splits if_splits)

section \<open>Paths\<close>

text \<open>\<open>filepath.Clean\<close> and \<open>filepath.Dir\<close> on Unix; \<open>st\<close> is the stack of kept elements.\<close>

fun clean_elems :: "bool \<Rightarrow> string list \<Rightarrow> string list \<Rightarrow> string list" where
  "clean_elems rooted [] st = rev st"
| "clean_elems rooted (e # es) st =
     (if e = [] \<or> e = ''.'' then clean_elems rooted es st
      else if e = ''..'' then
        (case st of
           [] \<Rightarrow> clean_elems rooted es (if rooted then [] else [e])
         | t # ts \<Rightarrow> if t = ''..'' then clean_elems rooted es (e # st)
                     else clean_elems rooted es ts)
      else clean_elems rooted es (e # st))"

definition Clean :: "string \<Rightarrow> string" where
  "Clean path =
     (let rooted = HasPrefix path ''/''; out = Join (clean_elems rooted (Split path CHR ''/'') []) ''/''
      in if rooted then CHR ''/'' # out else if out = [] then ''.'' else out)"

definition Dir :: "string \<Rightarrow> string" where
  "Dir path = Clean (take (nat (LastIndex path CHR ''/'' + 1)) path)"

text \<open>How \<open>os.CreateTemp\<close> joins the directory and the temporary name.\<close>

definition join_path :: "string \<Rightarrow> string \<Rightarrow> string" where
  "join_path dir name = (if HasSuffix dir ''/'' then dir @ name else dir @ ''/'' @ name)"

lemma Clean_nonempty [simp]: "Clean path \<noteq> []"
  by (auto simp: Clean_def Let_def)

lemma Dir_nonempty [simp]: "Dir path \<noteq> []"
  by (simp add: Dir_def)

end
