(* ===== verification/Netip.thy ===== *)
theory Netip
  imports GoStrings
begin

text \<open>
  The parts of Go's \<open>net/netip\<close> and \<open>net\<close> the program uses: textual addresses and CIDR
  prefixes (\<open>netip.ParseAddr\<close>, \<open>ParsePrefix\<close>, \<open>Addr.String\<close>, \<open>Prefix.Masked\<close>), and the
  byte-slice addresses of package \<open>net\<close> (\<open>IP.To4\<close>, \<open>IP.String\<close>, \<open>ParseCIDR\<close>,
  \<open>IPNet.Contains\<close>).  An address is its bytes, most significant first.  Where Go returns
  an error whose text the program throws away, the model returns \<open>None\<close>.
\<close>

section \<open>Addresses\<close>

datatype Addr = Addr4 "nat list" | Addr6 "nat list" string

fun wf_addr :: "Addr \<Rightarrow> bool" where
  "wf_addr (Addr4 bs) \<longleftrightarrow> length bs = 4 \<and> (\<forall>b \<in> set bs. b < 256)"
| "wf_addr (Addr6 bs z) \<longleftrightarrow> length bs = 16 \<and> (\<forall>b \<in> set bs. b < 256)"

fun Is4 :: "Addr \<Rightarrow> bool" where
  "Is4 (Addr4 _) = True" | "Is4 (Addr6 _ _) = False"

fun Is6 :: "Addr \<Rightarrow> bool" where
  "Is6 (Addr4 _) = False" | "Is6 (Addr6 _ _) = True"

fun AsSlice :: "Addr \<Rightarrow> nat list" where
  "AsSlice (Addr4 bs) = bs" | "AsSlice (Addr6 bs _) = bs"

fun Zone :: "Addr \<Rightarrow> string" where
  "Zone (Addr4 _) = []" | "Zone (Addr6 _ z) = z"

definition To4 :: "nat list \<Rightarrow> nat list option" where
  "To4 bs =
     (if length bs = 4 then Some bs
      else if length bs = 16 \<and> take 12 bs = [0,0,0,0,0,0,0,0,0,0,255,255] then Some (drop 12 bs)
      else None)"

section \<open>Parsing\<close>

text \<open>
  \<open>parseIPv4Fields\<close>: the rest of the input, whether the previous position is a dot or the
  start, the value and the digits of the current octet, and the octets done.
\<close>

fun ipv4_fields :: "string \<Rightarrow> bool \<Rightarrow> nat \<Rightarrow> nat \<Rightarrow> nat list \<Rightarrow> nat list option" where
  "ipv4_fields [] sep v dl fs = (if length fs < 3 then None else Some (fs @ [v]))"
| "ipv4_fields (c # s) sep v dl fs =
     (if is_digit c then
        (if dl = 1 \<and> v = 0 then None
         else if 255 < v * 10 + (code c - 48) then None
         else ipv4_fields s False (v * 10 + (code c - 48)) (dl + 1) fs)
      else if c = CHR ''.'' then
        (if sep \<or> s = [] then None
         else if length fs = 3 then None
         else ipv4_fields s True 0 0 (fs @ [v]))
      else None)"

definition parseIPv4 :: "string \<Rightarrow> Addr option" where
  "parseIPv4 s = map_option Addr4 (ipv4_fields s True 0 0 [])"

text \<open>The hexadecimal group at the start of the input: its digits, its value and the rest.\<close>

fun hex_run :: "nat \<Rightarrow> nat \<Rightarrow> string \<Rightarrow> (nat \<times> nat \<times> string) option" where
  "hex_run off acc [] = Some (off, acc, [])"
| "hex_run off acc (c # s) =
     (case digit_of c of
        None \<Rightarrow> Some (off, acc, c # s)
      | Some d \<Rightarrow>
          if 16 \<le> d then Some (off, acc, c # s)
          else if 3 < off then None
          else if 65535 < acc * 16 + d then None
          else hex_run (off + 1) (acc * 16 + d) s)"

text \<open>
  The loop of \<open>parseIPv6\<close>, with the number of groups it may still read, the bytes read so
  far and the position of the ellipsis.
\<close>

fun ipv6_groups ::
    "nat \<Rightarrow> string \<Rightarrow> nat list \<Rightarrow> nat option \<Rightarrow> (nat list \<times> nat option \<times> string) option" where
  "ipv6_groups 0 s ip el = Some (ip, el, s)"
| "ipv6_groups (Suc k) s ip el =
     (case hex_run 0 0 s of
        None \<Rightarrow> None
      | Some (off, acc, rest) \<Rightarrow>
          if off = 0 then None
          else if HasPrefix rest ''.'' then
            (if el = None \<and> length ip \<noteq> 12 then None
             else if 16 < length ip + 4 then None
             else case ipv4_fields s True 0 0 [] of
                    None \<Rightarrow> None
                  | Some f \<Rightarrow> Some (ip @ f, el, []))
          else
            (let ip' = ip @ [acc div 256, acc mod 256] in
             case rest of
               [] \<Rightarrow> Some (ip', el, [])
             | c # t \<Rightarrow>
                 if c \<noteq> CHR '':'' then None
                 else (case t of
                         [] \<Rightarrow> None
                       | d # u \<Rightarrow>
                           if d = CHR '':'' then
                             (if el \<noteq> None then None
                              else if u = [] then Some (ip', Some (length ip'), [])
                              else ipv6_groups k u ip' (Some (length ip')))
                           else ipv6_groups k t ip' el)))"

definition parseIPv6 :: "string \<Rightarrow> Addr option" where
  "parseIPv6 s =
     (case Cut s CHR ''%'' of (body, zone, has_zone) \<Rightarrow>
        if has_zone \<and> zone = [] then None
        else
          (let lead = HasPrefix body ''::'';
               rest = (if lead then drop 2 body else body);
               el = (if lead then Some 0 else None)
           in if lead \<and> rest = [] then Some (Addr6 (replicate 16 0) zone)
              else case ipv6_groups 8 rest [] el of
                     None \<Rightarrow> None
                   | Some (ip, el', left) \<Rightarrow>
                       if left \<noteq> [] then None
                       else if length ip < 16 then
                         (case el' of
                            None \<Rightarrow> None
                          | Some e \<Rightarrow>
                              Some (Addr6 (take e ip @ replicate (16 - length ip) 0 @ drop e ip) zone))
                       else if el' \<noteq> None then None
                       else Some (Addr6 ip zone)))"

text \<open>\<open>netip.ParseAddr\<close> looks for the first dot, colon or percent sign.\<close>

fun addr_kind :: "string \<Rightarrow> char option" where
  "addr_kind [] = None"
| "addr_kind (c # s) =
     (if c = CHR ''.'' \<or> c = CHR '':'' \<or> c = CHR ''%'' then Some c else addr_kind s)"

definition ParseAddr :: "string \<Rightarrow> Addr option" where
  "ParseAddr s =
     (case addr_kind s of
        None \<Rightarrow> None
      | Some c \<Rightarrow>
          if c = CHR ''.'' then parseIPv4 s
          else if c = CHR '':'' then parseIPv6 s
          else None)"

definition ParsePrefix :: "string \<Rightarrow> (Addr \<times> nat) option" where
  "ParsePrefix s =
     (let i = LastIndex s CHR ''/'' in
      if i < 0 then None
      else case ParseAddr (take (nat i) s) of
             None \<Rightarrow> None
           | Some ip \<Rightarrow>
               if Zone ip \<noteq> [] then None
               else
                 (let bits_str = drop (nat i + 1) s in
                  if 1 < length bits_str \<and> \<not> (is_digit (hd bits_str) \<and> hd bits_str \<noteq> CHR ''0'')
                  then None
                  else case Atoi bits_str of
                         Inl _ \<Rightarrow> None
                       | Inr bits \<Rightarrow>
                           if bits < 0 \<or> (if Is6 ip then 128 else 32) < bits then None
                           else Some (ip, nat bits)))"

section \<open>Printing and masking\<close>

definition string4 :: "nat list \<Rightarrow> string" where
  "string4 bs = Join (map (nat_string 10) bs) ''.''"

fun hextets :: "nat list \<Rightarrow> nat list" where
  "hextets (a # b # bs) = (a * 256 + b) # hextets bs"
| "hextets _ = []"

text \<open>The first longest run of at least two zero groups, as \<open>[start, end)\<close>.\<close>

definition zero_run :: "nat list \<Rightarrow> nat \<times> nat" where
  "zero_run hs =
     fold (\<lambda>i (s, e). let l = length (takeWhile (\<lambda>h. h = 0) (drop i hs)) in
             if 2 \<le> l \<and> e - s < l then (i, i + l) else (s, e))
       [0..<length hs] (255, 255)"

definition string6 :: "nat list \<Rightarrow> string" where
  "string6 bs =
     (let hs = hextets bs; (s, e) = zero_run hs; show_run = (\<lambda>xs. Join (map (nat_string 16) xs) '':'')
      in if s = 255 then show_run hs
         else show_run (take s hs) @ ''::'' @ show_run (drop e hs))"

fun AddrString :: "Addr \<Rightarrow> string" where
  "AddrString (Addr4 bs) = string4 bs"
| "AddrString (Addr6 bs z) =
     (case To4 bs of
        Some b4 \<Rightarrow> ''::ffff:'' @ string4 b4
      | None \<Rightarrow> string6 bs) @ (if z = [] then [] else CHR ''%'' # z)"

text \<open>\<open>net.IP.String\<close>: an IPv4-mapped address is shown in dotted form.\<close>

definition IPString :: "nat list \<Rightarrow> string" where
  "IPString bs =
     (if bs = [] then ''<nil>''
      else if length bs \<noteq> 4 \<and> length bs \<noteq> 16 then
        CHR ''?'' # concat (map (\<lambda>b. [digit_char (b div 16), digit_char (b mod 16)]) bs)
      else case To4 bs of Some b4 \<Rightarrow> string4 b4 | None \<Rightarrow> string6 bs)"

fun mask_bytes :: "nat \<Rightarrow> nat list \<Rightarrow> nat list" where
  "mask_bytes n [] = []"
| "mask_bytes n (b # bs) =
     (if 8 \<le> n then b # mask_bytes (n - 8) bs
      else (b - b mod 2 ^ (8 - n)) # mask_bytes 0 bs)"

fun Masked :: "Addr \<times> nat \<Rightarrow> Addr \<times> nat" where
  "Masked (Addr4 bs, n) = (Addr4 (mask_bytes n bs), n)"
| "Masked (Addr6 bs z, n) = (Addr6 (mask_bytes n bs) [], n)"

definition PrefixString :: "Addr \<times> nat \<Rightarrow> string" where
  "PrefixString p = AddrString (fst p) @ ''/'' @ nat_string 10 (snd p)"

section \<open>Package net\<close>

text \<open>\<open>net.IPNet\<close>: the network bytes, the leading ones of the mask and the bytes of the mask.\<close>

record IPNet =
  net_ip :: "nat list"
  net_ones :: nat
  net_mask_len :: nat

fun dtoi_digits :: "nat \<Rightarrow> string \<Rightarrow> nat option" where
  "dtoi_digits n [] = Some n"
| "dtoi_digits n (c # s) =
     (if is_digit c then
        (if 0xFFFFFF \<le> n * 10 + (code c - 48) then None
         else dtoi_digits (n * 10 + (code c - 48)) s)
      else None)"

definition ParseCIDR :: "string \<Rightarrow> IPNet option" where
  "ParseCIDR s =
     (case Cut s CHR ''/'' of (addr, size_str, found) \<Rightarrow>
        if \<not> found then None
        else case ParseAddr addr of
               None \<Rightarrow> None
             | Some ip \<Rightarrow>
                 if Zone ip \<noteq> [] \<or> size_str = [] then None
                 else case dtoi_digits 0 size_str of
                        None \<Rightarrow> None
                      | Some n \<Rightarrow>
                          if 8 * length (AsSlice ip) < n then None
                          else Some \<lparr>net_ip = mask_bytes n (AsSlice ip), net_ones = n,
                                     net_mask_len = length (AsSlice ip)\<rparr>)"

definition IPNetContains :: "IPNet \<Rightarrow> nat list \<Rightarrow> bool" where
  "IPNetContains nw ip =
     (let nn = (case To4 (net_ip nw) of Some x \<Rightarrow> x | None \<Rightarrow> net_ip nw);
          ones = (if net_mask_len nw = 16 \<and> length nn = 4 then net_ones nw - 96 else net_ones nw);
          x = (case To4 ip of Some y \<Rightarrow> y | None \<Rightarrow> ip)
      in length x = length nn \<and> mask_bytes ones x = mask_bytes ones nn)"

section \<open>Well-formed results\<close>

lemma ipv4_fields_wf:
  "ipv4_fields s sep v dl fs = Some r \<Longrightarrow> v < 256 \<Longrightarrow> length fs \<le> 3 \<Longrightarrow>
   (\<forall>b \<in> set fs. b < 256) \<Longrightarrow> length r = 4 \<and> (\<forall>b \<in> set r. b < 256)"
proof (induction s sep v dl fs rule: ipv4_fields.induct)
  case (1 sep v dl fs)
  then show ?case by (auto split: if_splits)
next
  case (2 c s sep v dl fs)
  show ?case
  proof (cases "is_digit c")
    case True
    with 2 show ?thesis by (auto split: if_splits)
  next
    case False
    with 2 show ?thesis by (auto split: if_splits)
  qed
qed

lemma ipv4_fields_start:
  assumes "ipv4_fields s True 0 0 [] = Some r"
  shows "length r = 4" and "b \<in> set r \<Longrightarrow> b < 256"
  using ipv4_fields_wf [OF assms] by simp_all

lemma hex_run_bound: "hex_run off acc s = Some (o', a, r) \<Longrightarrow> acc < 65536 \<Longrightarrow> a < 65536"
  by (induction off acc s rule: hex_run.induct) (auto split: option.splits if_splits)

lemma ipv6_groups_wf:
  "ipv6_groups k s ip el = Some (r, el', left) \<Longrightarrow> length ip + 2 * k = 16 \<Longrightarrow>
   (\<forall>b \<in> set ip. b < 256) \<Longrightarrow> (\<forall>e. el = Some e \<longrightarrow> e \<le> length ip) \<Longrightarrow>
   length r \<le> 16 \<and> (\<forall>b \<in> set r. b < 256) \<and> (\<forall>e. el' = Some e \<longrightarrow> e \<le> length r)"
proof (induction k s ip el rule: ipv6_groups.induct)
  case (1 s ip el)
  then show ?case by auto
next
  case (2 k s ip el)
  from "2.prems"(1) obtain off acc rest where h: "hex_run 0 0 s = Some (off, acc, rest)" "off \<noteq> 0"
    by (auto split: option.splits if_splits)
  then have acc: "acc div 256 < 256" "acc mod 256 < 256"
    using hex_run_bound [OF h(1)] by auto
  show ?case
  proof (cases "HasPrefix rest ''.''")
    case True
    with "2.prems" h show ?thesis
      by (auto split: option.splits if_splits dest: ipv4_fields_start)
  next
    case False
    let ?ip' = "ip @ [acc div 256, acc mod 256]"
    have nn: "\<not> CHR '':'' \<noteq> CHR '':''" by simp
    have ip': "\<forall>b \<in> set ?ip'. b < 256" "length ?ip' + 2 * k = 16"
      using "2.prems" acc by auto
    show ?thesis
    proof (cases "rest = [] \<or> rest = ''::''")
      case True
      then have "r = ?ip' \<and> (el' = el \<or> el' = Some (length ?ip'))"
        using "2.prems"(1) h by (elim disjE) (simp_all add: Let_def split: if_splits)
      then have r: "r = ?ip'" and el': "el' = el \<or> el' = Some (length ?ip')" by blast+
      have "e \<le> length ?ip'" if "el' = Some e" for e
        using el' that "2.prems"(4) by (metis le_add1 length_append option.inject order.refl order.trans)
      moreover have "length ?ip' \<le> 16" using ip'(2) by linarith
      ultimately show ?thesis unfolding r using ip'(1) by blast
    next
      case notend: False
      then obtain c t where ct: "rest = c # t" by (cases rest) auto
      have "c = CHR '':'' \<and> t \<noteq> []"
        using "2.prems"(1) h False ct by (cases t) (simp_all add: Let_def split: if_splits)
      then obtain d u where rest: "rest = CHR '':'' # d # u" using ct by (cases t) auto
      show ?thesis
      proof (cases "d = CHR '':''")
        case True
        have u: "u \<noteq> []" using notend rest True by simp
        have step: "el = None" "ipv6_groups k u ?ip' (Some (length ?ip')) = Some (r, el', left)"
          using "2.prems"(1) h rest True u by (simp_all add: Let_def split: if_splits)
        have nel: "\<not> el \<noteq> None" using step(1) by simp
        have e: "\<forall>e. Some (length ?ip') = Some e \<longrightarrow> e \<le> length ?ip'" by simp
        show ?thesis
          by (rule "2.IH"(1) [OF h(1) refl refl h(2) False refl rest nn refl True nel u
                step(2) ip'(2) ip'(1) e])
      next
        case dd: False
        have step: "ipv6_groups k (d # u) ?ip' el = Some (r, el', left)"
          using "2.prems"(1) h rest dd by (simp add: Let_def split: if_splits)
        have e: "\<forall>e. el = Some e \<longrightarrow> e \<le> length ?ip'"
          using "2.prems"(4) by fastforce
        show ?thesis
          by (rule "2.IH"(2) [OF h(1) refl refl h(2) False refl rest nn refl dd step
                ip'(2) ip'(1) e])
      qed
    qed
  qed
qed

lemma parseIPv4_wf: "parseIPv4 s = Some a \<Longrightarrow> wf_addr a"
  by (auto simp: parseIPv4_def dest: ipv4_fields_start)

lemma parseIPv6_wf:
  assumes "parseIPv6 s = Some a"
  shows "wf_addr a"
proof -
  obtain body zone hz where cut: "Cut s CHR ''%'' = (body, zone, hz)" by (cases "Cut s CHR ''%''")
  define rest where "rest = (if HasPrefix body ''::'' then drop 2 body else body)"
  define el where "el = (if HasPrefix body ''::'' then Some (0 :: nat) else None)"
  show ?thesis
  proof (cases "HasPrefix body ''::'' \<and> rest = []")
    case True
    with assms cut show ?thesis by (auto simp: parseIPv6_def rest_def split: if_splits)
  next
    case False
    with assms cut obtain ip el' left where g: "ipv6_groups 8 rest [] el = Some (ip, el', left)"
      by (auto simp: parseIPv6_def rest_def el_def Let_def split: if_splits option.splits)
    have w: "length ip \<le> 16 \<and> (\<forall>b \<in> set ip. b < 256) \<and> (\<forall>e. el' = Some e \<longrightarrow> e \<le> length ip)"
      by (rule ipv6_groups_wf [OF g]) (auto simp: el_def)
    from False assms cut g have
      "a = Addr6 ip zone \<and> 16 \<le> length ip \<or>
       (\<exists>e. el' = Some e \<and> length ip < 16 \<and>
            a = Addr6 (take e ip @ replicate (16 - length ip) 0 @ drop e ip) zone)"
      by (auto simp: parseIPv6_def rest_def el_def Let_def split: if_splits option.splits)
    with w show ?thesis using set_take_subset [of _ ip] set_drop_subset [of _ ip]
      by (auto simp: subset_iff)
  qed
qed

lemma ParseAddr_wf: "ParseAddr s = Some a \<Longrightarrow> wf_addr a"
  by (auto simp: ParseAddr_def split: option.splits if_splits dest: parseIPv4_wf parseIPv6_wf)

lemma wf_AsSlice: "wf_addr a \<Longrightarrow> length (AsSlice a) = (if Is6 a then 16 else 4)"
  by (cases a) simp_all

lemma ParsePrefix_wf:
  assumes "ParsePrefix s = Some (a, n)"
  shows "wf_addr a" and "n \<le> (if Is6 a then 128 else 32)" and "Zone a = []"
  using assms by (auto simp: ParsePrefix_def Let_def split: option.splits if_splits sum.splits
      dest: ParseAddr_wf)

lemma Is6_not_Is4: "Is6 a = (\<not> Is4 a)"
  by (cases a) simp_all

section \<open>Round trip of dotted addresses\<close>

lemma nat_string_small: "n < 10 \<Longrightarrow> nat_string 10 n = [digit_char n]"
  by (simp add: nat_string.simps)

lemma nat_string_step: "10 \<le> n \<Longrightarrow> nat_string 10 n = nat_string 10 (n div 10) @ [digit_char (n mod 10)]"
  by (simp add: nat_string.simps [of 10 n])

lemma ipv4_fields_digit:
  "d < 10 \<Longrightarrow> ipv4_fields (digit_char d # s) sep v dl fs =
     (if dl = 1 \<and> v = 0 then None
      else if 255 < v * 10 + d then None else ipv4_fields s False (v * 10 + d) (dl + 1) fs)"
  by (simp add: digit_char_is_digit of_digit_char)

lemma ipv4_fields_number:
  assumes "n < 256"
  shows "\<exists>dl. ipv4_fields (nat_string 10 n @ s) sep 0 0 fs = ipv4_fields s False n dl fs"
proof -
  consider "n < 10" | "10 \<le> n" "n < 100" | "100 \<le> n" by linarith
  then show ?thesis
  proof cases
    case 1
    then show ?thesis by (auto simp: nat_string_small ipv4_fields_digit simp del: ipv4_fields.simps)
  next
    case 2
    then have d: "n div 10 < 10" "n div 10 \<noteq> 0" "n mod 10 < 10" "n div 10 * 10 + n mod 10 = n" by auto
    with 2 assms show ?thesis
      by (auto simp: nat_string_step nat_string_small ipv4_fields_digit simp del: ipv4_fields.simps)
  next
    case 3
    then have d: "n div 10 div 10 < 10" "n div 10 div 10 \<noteq> 0" "n div 10 mod 10 < 10" "n mod 10 < 10"
      "n div 10 div 10 * 10 + n div 10 mod 10 = n div 10" "n div 10 * 10 + n mod 10 = n"
      "n div 10 \<le> 255" "10 \<le> n div 10" "10 \<le> n"
      using assms by auto
    have "nat_string 10 n =
        [digit_char (n div 10 div 10), digit_char (n div 10 mod 10), digit_char (n mod 10)]"
      using d by (simp add: nat_string_step [of n] nat_string_step [of "n div 10"] nat_string_small)
    moreover have "\<not> 255 < n div 10 div 10" "0 < n div 10 div 10" using d(1,2) by linarith+
    ultimately show ?thesis using d assms
      by (auto simp add: ipv4_fields_digit simp del: ipv4_fields.simps)
  qed
qed

lemma ipv4_fields_dotted:
  assumes "a < 256" "b < 256" "c < 256" "d < 256"
  shows "ipv4_fields (string4 [a, b, c, d]) True 0 0 [] = Some [a, b, c, d]"
proof -
  have dot: "ipv4_fields (CHR ''.'' # s) False v dl fs =
      (if s = [] then None else if length fs = 3 then None else ipv4_fields s True 0 0 (fs @ [v]))"
    for s v dl fs by simp
  note num = ipv4_fields_number
  obtain d1 where 1: "ipv4_fields (string4 [a, b, c, d]) True 0 0 [] =
      ipv4_fields (CHR ''.'' # string4 [b, c, d]) False a d1 []"
    using num [OF assms(1), of "CHR ''.'' # string4 [b, c, d]"] by (auto simp: string4_def)
  obtain d2 where 2: "ipv4_fields (string4 [b, c, d]) True 0 0 [a] =
      ipv4_fields (CHR ''.'' # string4 [c, d]) False b d2 [a]"
    using num [OF assms(2), of "CHR ''.'' # string4 [c, d]"] by (auto simp: string4_def)
  obtain d3 where 3: "ipv4_fields (string4 [c, d]) True 0 0 [a, b] =
      ipv4_fields (CHR ''.'' # string4 [d]) False c d3 [a, b]"
    using num [OF assms(3), of "CHR ''.'' # string4 [d]"] by (auto simp: string4_def)
  obtain d4 where 4: "ipv4_fields (string4 [d]) True 0 0 [a, b, c] =
      ipv4_fields [] False d d4 [a, b, c]"
    using num [OF assms(4), of "[]"] by (auto simp: string4_def)
  have ne: "string4 [b, c, d] \<noteq> []" "string4 [c, d] \<noteq> []" "string4 [d] \<noteq> []"
    by (simp_all add: string4_def)
  show ?thesis
    by (simp only: 1 dot ne if_False append.simps 2 3 4) simp
qed

lemma addr_kind_digits: "(\<forall>c \<in> set w. is_digit c) \<Longrightarrow> addr_kind (w @ CHR ''.'' # s) = Some CHR ''.''"
proof (induction w)
  case Nil
  then show ?case by simp
next
  case (Cons c w)
  then have "is_digit c" by simp
  then have "c \<noteq> CHR ''.''" "c \<noteq> CHR '':''" "c \<noteq> CHR ''%''" by (auto simp: is_digit_def)
  with Cons show ?case by simp
qed

lemma ParseAddr_string4:
  assumes "wf_addr (Addr4 bs)"
  shows "ParseAddr (string4 bs) = Some (Addr4 bs)"
proof -
  from assms obtain a b c d where bs: "bs = [a, b, c, d]"
    by (auto simp: length_Suc_conv eval_nat_numeral)
  have "string4 bs = nat_string 10 a @ CHR ''.'' # string4 [b, c, d]"
    by (simp add: bs string4_def)
  then have "addr_kind (string4 bs) = Some CHR ''.''"
    using decimal_digits addr_kind_digits by metis
  moreover have "ipv4_fields (string4 bs) True 0 0 [] = Some bs"
    using assms bs by (simp add: ipv4_fields_dotted)
  ultimately show ?thesis by (simp add: ParseAddr_def parseIPv4_def)
qed

section \<open>Masks\<close>

lemma length_mask_bytes [simp]: "length (mask_bytes n bs) = length bs"
  by (induction n bs rule: mask_bytes.induct) auto

lemma mask_bytes_idem [simp]: "mask_bytes n (mask_bytes n bs) = mask_bytes n bs"
proof (induction n bs rule: mask_bytes.induct)
  case (1 n)
  then show ?case by simp
next
  case (2 n b bs)
  show ?case
  proof (cases "8 \<le> n")
    case True
    with 2 show ?thesis by simp
  next
    case False
    have "(b - b mod 2 ^ (8 - n)) mod 2 ^ (8 - n) = 0"
      by (simp add: minus_mod_eq_mult_div)
    with 2 False show ?thesis by simp
  qed
qed

lemma mask_bytes_bound: "(\<forall>b \<in> set bs. b < 256) \<Longrightarrow> \<forall>b \<in> set (mask_bytes n bs). b < 256"
  by (induction n bs rule: mask_bytes.induct) (auto intro: le_less_trans [OF diff_le_self])

lemma Masked_wf: "wf_addr a \<Longrightarrow> wf_addr (fst (Masked (a, n)))"
  by (cases a) (auto simp: mask_bytes_bound)

lemma Masked_idem: "Masked (Masked p) = Masked p"
  by (cases p; cases "fst p") auto

lemma Masked_family [simp]:
  "Is4 (fst (Masked p)) = Is4 (fst p)" "Is6 (fst (Masked p)) = Is6 (fst p)" "snd (Masked p) = snd p"
  by (cases p; cases "fst p"; simp)+

end
