(* ===== verification/Config.thy ===== *)
theory Config
  imports Netip
begin

text \<open>
  The configuration data of \<open>config.go\<close> and the validation of every part of it but the
  interfaces and routes (theory \<open>Network\<close>): host name, folders, files, firewall ports and
  containers.  A Go string map is an association list with distinct keys; a Go pointer is an
  option; an \<open>int\<close> is a 64-bit signed value, held as an \<open>int\<close>.  The user and group
  databases that \<open>os/user\<close> reads are a parameter.
\<close>

section \<open>Data\<close>

record OstreeConfig =
  os_UploadPath :: string
  os_ApplyCommand :: "string list"

record FolderConfig =
  fo_Path :: string
  fo_Chmod :: string
  fo_User :: string

record FileConfig =
  fi_Path :: string
  fi_Chmod :: string
  fi_User :: string
  fi_Content :: string
  fi_Encoding :: string

record VLANConfig =
  vl_BaseInterface :: string
  vl_ID :: int

record BondConfig =
  bo_Mode :: string
  bo_Ports :: "string list"
  bo_Miimon :: "int option"
  bo_Primary :: string

record InterfaceConfig =
  if_Name :: string
  if_Type :: string
  if_IPAddress :: string
  if_Subnet :: string
  if_Gateway :: string
  if_DNS :: "string list"
  if_MTU :: "int option"
  if_IPv4Method :: string
  if_IPv6Method :: string
  if_IPv6AddrGenMode :: string
  if_TxQueueLen :: "int option"
  if_VLAN :: "VLANConfig option"
  if_Bond :: "BondConfig option"

record RouteConfig =
  ro_Name :: string
  ro_Destination :: string
  ro_NextHopInterface :: string
  ro_NextHopAddress :: string
  ro_TableID :: "int option"
  ro_Metric :: "int option"

record FirewallPortConfig =
  fw_Zone :: string
  fw_Port :: string
  fw_Protocol :: string
  fw_Source :: string

record PortConfig =
  po_HostIP :: string
  po_HostPort :: int
  po_ContainerPort :: int
  po_Protocol :: string

record VolumeConfig =
  vo_HostPath :: string
  vo_ContainerPath :: string
  vo_ReadOnly :: bool
  vo_SELinux :: string

record ContainerConfig =
  co_Name :: string
  co_Image :: string
  co_User :: string
  co_Env :: "(string \<times> string) list"
  co_Ports :: "PortConfig list"
  co_Volumes :: "VolumeConfig list"
  co_Interfaces :: "InterfaceConfig list"
  co_Command :: "string list"
  co_Restart :: string
  co_NetworkMode :: string
  co_ReadOnly :: bool
  co_CapAdd :: "string list"
  co_CapDrop :: "string list"

record Config =
  cf_PodmanMode :: string
  cf_Hostname :: string
  cf_Folders :: "FolderConfig list"
  cf_Files :: "FileConfig list"
  cf_Interfaces :: "InterfaceConfig list"
  cf_Routes :: "RouteConfig list"
  cf_FirewallPorts :: "FirewallPortConfig list"
  cf_Containers :: "ContainerConfig list"
  cf_Ostree :: "OstreeConfig option"

text \<open>\<open>os/user\<close>: the Uid and Gid strings of a user name, the Gid string of a group name.\<close>

record users =
  us_Lookup :: "string \<Rightarrow> (string \<times> string) res"
  us_LookupGroup :: "string \<Rightarrow> string res"

section \<open>Labels and host names\<close>

definition labelOrIndex :: "string \<Rightarrow> nat \<Rightarrow> string" where
  "labelOrIndex name i = (if name = [] then CHR ''#'' # nat_string 10 i else name)"

text \<open>
  A byte of a multi-byte rune is at least 128 and so is the rune, so the test byte by byte
  rejects exactly the labels the code's test rune by rune rejects.
\<close>

definition isHostnameChar :: "char \<Rightarrow> bool" where
  "isHostnameChar r \<longleftrightarrow>
     97 \<le> code r \<and> code r \<le> 122 \<or> 65 \<le> code r \<and> code r \<le> 90 \<or>
     48 \<le> code r \<and> code r \<le> 57 \<or> r = CHR ''-''"

definition validateHostnameLabel :: "string \<Rightarrow> unit res" where
  "validateHostnameLabel label =
     (if label = [] then Inl (Errf ''hostname has an empty label'' [])
      else if 63 < length label then Inl (Errf ''hostname label %q exceeds 63 characters'' [label])
      else if HasPrefix label ''-'' \<or> HasSuffix label ''-'' then
        Inl (Errf ''hostname label %q must not start or end with a hyphen'' [label])
      else res_iter (\<lambda>r. if isHostnameChar r then Inr ()
             else Inl (Errf ''hostname label %q contains an invalid character'' [label])) label)"

definition validateHostname :: "string \<Rightarrow> unit res" where
  "validateHostname hostname =
     (if hostname = [] then Inr ()
      else if 253 < length hostname then Inl (Errf ''hostname %q exceeds 253 characters'' [hostname])
      else res_iter validateHostnameLabel (Split hostname CHR ''.''))"

section \<open>Modes, owners and contents\<close>

text \<open>\<open>parseFileMode\<close> of \<open>provision.go\<close>; the value is the \<open>os.FileMode\<close> as a number.\<close>

definition num_err :: "string \<Rightarrow> string \<Rightarrow> num_error \<Rightarrow> err" where
  "num_err func s e = Errf ''strconv.%s: parsing %q: %s''
     [func, s, (case e of ErrSyntax \<Rightarrow> ''invalid syntax'' | ErrRange \<Rightarrow> ''value out of range'')]"

definition parseFileMode :: "string \<Rightarrow> nat res" where
  "parseFileMode chmod =
     (let cleaned = TrimSpace chmod in
      if cleaned = [] then Inl (Errf ''empty mode'' [])
      else case ParseUint cleaned 8 32 of
             Inl e \<Rightarrow> Inl (num_err ''ParseUint'' cleaned e)
           | Inr value \<Rightarrow>
               if 0xFFF < value then Inl (Errf ''mode exceeds 07777'' []) else Inr value)"

definition parseUser :: "users \<Rightarrow> string \<Rightarrow> (int \<times> int) res" where
  "parseUser us val =
     (case Atoi val of
        Inr uid \<Rightarrow> Inr (uid, -1)
      | Inl _ \<Rightarrow>
          res_bind (us_Lookup us val) (\<lambda>(uid_str, gid_str).
            case Atoi uid_str of
              Inl e \<Rightarrow> Inl (Wrapf ''invalid uid %q for user %q: %w'' [uid_str, val] (num_err ''Atoi'' uid_str e))
            | Inr uid \<Rightarrow>
                (case Atoi gid_str of
                   Inl e \<Rightarrow> Inl (Wrapf ''invalid gid %q for user %q: %w'' [gid_str, val] (num_err ''Atoi'' gid_str e))
                 | Inr gid \<Rightarrow> Inr (uid, gid))))"

definition parseGroup :: "users \<Rightarrow> string \<Rightarrow> int res" where
  "parseGroup us val =
     (if val = [] then Inl (Errf ''missing group'' [])
      else case Atoi val of
             Inr gid \<Rightarrow> Inr gid
           | Inl _ \<Rightarrow>
               res_bind (us_LookupGroup us val) (\<lambda>gid_str.
                 case Atoi gid_str of
                   Inl e \<Rightarrow> Inl (Wrapf ''invalid gid %q for group %q: %w'' [gid_str, val] (num_err ''Atoi'' gid_str e))
                 | Inr gid \<Rightarrow> Inr gid))"

definition parseOwner :: "users \<Rightarrow> string \<Rightarrow> (int \<times> int) res" where
  "parseOwner us owner =
     (case Cut (TrimSpace owner) CHR '':'' of (userPart, groupPart, hasGroup) \<Rightarrow>
        if userPart = [] then Inl (Errf ''missing user'' [])
        else res_bind (parseUser us userPart) (\<lambda>(uid, gid).
               if hasGroup then
                 res_bind (parseGroup us groupPart) (\<lambda>parsedGID. Inr (uid, parsedGID))
               else Inr (uid, gid)))"

subsection \<open>Base64\<close>

text \<open>
  \<open>base64.StdEncoding\<close>: groups of four characters with padding; carriage returns and line
  feeds are skipped by the decoder.  The decoder is not strict about the unused low bits of
  the last character.
\<close>

definition b64_value :: "char \<Rightarrow> nat option" where
  "b64_value c =
     (let n = code c in
      if 65 \<le> n \<and> n \<le> 90 then Some (n - 65)
      else if 97 \<le> n \<and> n \<le> 122 then Some (n - 71)
      else if 48 \<le> n \<and> n \<le> 57 then Some (n + 4)
      else if n = 43 then Some 62
      else if n = 47 then Some 63
      else None)"

definition b64_char :: "nat \<Rightarrow> char" where
  "b64_char v = char_of
     (if v < 26 then v + 65 else if v < 52 then v + 71 else if v < 62 then v - 4
      else if v = 62 then 43 else 47)"

fun b64_groups :: "string \<Rightarrow> string option" where
  "b64_groups [] = Some []"
| "b64_groups (a # b # c # d # s) =
     (case (b64_value a, b64_value b) of
        (Some x, Some y) \<Rightarrow>
          (if c = CHR ''='' then
             (if d = CHR ''='' \<and> s = [] then Some [char_of (x * 4 + y div 16)] else None)
           else case b64_value c of
                  None \<Rightarrow> None
                | Some z \<Rightarrow>
                    if d = CHR ''='' then
                      (if s = [] then
                         Some [char_of (x * 4 + y div 16), char_of (y mod 16 * 16 + z div 4)]
                       else None)
                    else (case b64_value d of
                            None \<Rightarrow> None
                          | Some w \<Rightarrow>
                              map_option (\<lambda>r. char_of (x * 4 + y div 16) #
                                  char_of (y mod 16 * 16 + z div 4) #
                                  char_of (z mod 4 * 64 + w) # r) (b64_groups s)))
      | _ \<Rightarrow> None)"
| "b64_groups _ = None"

definition b64_decode :: "string \<Rightarrow> string option" where
  "b64_decode s = b64_groups (filter (\<lambda>c. c \<noteq> CHR 0x0A \<and> c \<noteq> CHR 0x0D) s)"

fun b64_encode :: "string \<Rightarrow> string" where
  "b64_encode [] = []"
| "b64_encode [a] =
     [b64_char (code a div 4), b64_char (code a mod 4 * 16), CHR ''='', CHR ''='']"
| "b64_encode [a, b] =
     [b64_char (code a div 4), b64_char (code a mod 4 * 16 + code b div 16),
      b64_char (code b mod 16 * 4), CHR ''='']"
| "b64_encode (a # b # c # s) =
     b64_char (code a div 4) # b64_char (code a mod 4 * 16 + code b div 16) #
     b64_char (code b mod 16 * 4 + code c div 64) # b64_char (code c mod 64) # b64_encode s"

definition decodeFileContent :: "FileConfig \<Rightarrow> string res" where
  "decodeFileContent file =
     (let enc = TrimSpace (fi_Encoding file) in
      if enc = [] \<or> enc = ''plain'' then Inr (fi_Content file)
      else if enc = ''base64'' then
        (case b64_decode (fi_Content file) of
           None \<Rightarrow> Inl (Wrapf ''invalid base64 content: %w'' [] (Outside ''illegal base64 data''))
         | Some decoded \<Rightarrow> Inr decoded)
      else Inl (Errf ''unknown encoding %q (want plain or base64)'' [fi_Encoding file]))"

section \<open>Folders and files\<close>

definition validateFolder :: "users \<Rightarrow> nat \<Rightarrow> FolderConfig \<Rightarrow> unit res" where
  "validateFolder us i folder =
     (let label = labelOrIndex (fo_Path folder) i in
      if fo_Path folder = [] then Inl (Errf ''folder %s is missing path'' [label])
      else res_bind
        (if fo_Chmod folder \<noteq> [] then
           res_wrap (Wrapf ''invalid chmod %q for folder %s: %w'' [fo_Chmod folder, label])
             (res_bind (parseFileMode (fo_Chmod folder)) (\<lambda>_. Inr ()))
         else Inr ()) (\<lambda>_.
        if fo_User folder \<noteq> [] then
          res_wrap (Wrapf ''invalid user %q for folder %s: %w'' [fo_User folder, label])
            (res_bind (parseOwner us (fo_User folder)) (\<lambda>_. Inr ()))
        else Inr ()))"

definition validateFolders :: "users \<Rightarrow> FolderConfig list \<Rightarrow> unit res" where
  "validateFolders us folders = res_iter (\<lambda>(i, folder). validateFolder us i folder) (enumerate 0 folders)"

definition validateFile :: "users \<Rightarrow> nat \<Rightarrow> FileConfig \<Rightarrow> unit res" where
  "validateFile us i file =
     (let label = labelOrIndex (fi_Path file) i in
      if fi_Path file = [] then Inl (Errf ''file %s is missing path'' [label])
      else res_bind
        (if fi_Chmod file \<noteq> [] then
           res_wrap (Wrapf ''invalid chmod %q for file %s: %w'' [fi_Chmod file, label])
             (res_bind (parseFileMode (fi_Chmod file)) (\<lambda>_. Inr ()))
         else Inr ()) (\<lambda>_. res_bind
        (if fi_User file \<noteq> [] then
          res_wrap (Wrapf ''invalid user %q for file %s: %w'' [fi_User file, label])
            (res_bind (parseOwner us (fi_User file)) (\<lambda>_. Inr ()))
        else Inr ()) (\<lambda>_.
        res_wrap (Wrapf ''invalid content for file %s: %w'' [label])
          (res_bind (decodeFileContent file) (\<lambda>_. Inr ())))))"

definition validateFiles :: "users \<Rightarrow> FileConfig list \<Rightarrow> unit res" where
  "validateFiles us files = res_iter (\<lambda>(i, file). validateFile us i file) (enumerate 0 files)"

section \<open>Firewall ports\<close>

definition port_range_error :: err where
  "port_range_error = Errf ''port must be between 1 and 65535'' []"

definition parsePortNumber :: "string \<Rightarrow> int res" where
  "parsePortNumber port =
     (case Atoi (TrimSpace port) of
        Inl e \<Rightarrow> Inl (num_err ''Atoi'' (TrimSpace port) e)
      | Inr v \<Rightarrow> if v < 1 \<or> 65535 < v then Inl port_range_error else Inr v)"

definition validateFirewallPort :: "string \<Rightarrow> unit res" where
  "validateFirewallPort port0 =
     (let port = TrimSpace port0 in
      if port = [] then Inl (Errf ''missing port'' [])
      else case Cut port CHR ''-'' of (start, end_str, hasRange) \<Rightarrow>
        res_bind (parsePortNumber start) (\<lambda>startPort.
          if \<not> hasRange then Inr ()
          else res_bind (parsePortNumber end_str) (\<lambda>endPort.
            if endPort < startPort then Inl (Errf ''range start is greater than range end'' [])
            else Inr ())))"

definition validateFirewallProtocol :: "string \<Rightarrow> unit res" where
  "validateFirewallProtocol protocol =
     (if ToLower (TrimSpace protocol) \<in> {[], ''tcp'', ''udp'', ''sctp'', ''dccp''} then Inr ()
      else Inl (Errf ''protocol must be tcp, udp, sctp, or dccp'' []))"

definition validateFirewallSource :: "string \<Rightarrow> unit res" where
  "validateFirewallSource source0 =
     (let source = TrimSpace source0 in
      if source = [] then Inr ()
      else if ParseAddr source \<noteq> None then Inr ()
      else if ParsePrefix source \<noteq> None then Inr ()
      else Inl (Errf ''source must be a valid IP address or CIDR'' []))"

definition validateFirewallPortConfig :: "nat \<Rightarrow> FirewallPortConfig \<Rightarrow> unit res" where
  "validateFirewallPortConfig i port =
     (let portLabel = (if TrimSpace (fw_Port port) = [] then CHR ''#'' # nat_string 10 i
                       else TrimSpace (fw_Port port)) in
      res_bind (res_wrap (Wrapf ''invalid firewall port %s: %w'' [portLabel])
        (validateFirewallPort (fw_Port port))) (\<lambda>_.
      res_bind (res_wrap (Wrapf ''invalid firewall protocol for port %s: %w'' [portLabel])
        (validateFirewallProtocol (fw_Protocol port))) (\<lambda>_.
      res_wrap (Wrapf ''invalid firewall source for port %s: %w'' [portLabel])
        (validateFirewallSource (fw_Source port)))))"

definition validateFirewallPortConfigs :: "FirewallPortConfig list \<Rightarrow> unit res" where
  "validateFirewallPortConfigs ports =
     res_iter (\<lambda>(i, port). validateFirewallPortConfig i port) (enumerate 0 ports)"

section \<open>Containers\<close>

definition validateContainerPort :: "int \<Rightarrow> unit res" where
  "validateContainerPort port = (if port < 1 \<or> 65535 < port then Inl port_range_error else Inr ())"

definition validateSELinuxRelabel :: "string \<Rightarrow> unit res" where
  "validateSELinuxRelabel val =
     (if TrimSpace val \<in> {[], ''z'', ''Z''} then Inr ()
      else Inl (Errf ''selinux must be z, Z, or empty'' []))"

definition validateNetworkMode :: "string \<Rightarrow> unit res" where
  "validateNetworkMode mode =
     (if TrimSpace mode \<in> {[], ''host'', ''bridge'', ''none'', ''private'', ''slirp4netns'', ''pasta''}
      then Inr ()
      else Inl (Errf ''network_mode %q is not supported; expected one of host, bridge, none, private, slirp4netns, pasta'' [mode]))"

definition cap_char :: "char \<Rightarrow> bool" where
  "cap_char r \<longleftrightarrow> r = CHR ''_'' \<or> 65 \<le> code r \<and> code r \<le> 90 \<or> 48 \<le> code r \<and> code r \<le> 57"

definition validateCapability :: "string \<Rightarrow> unit res" where
  "validateCapability name0 =
     (let name = TrimSpace name0 in
      if name = [] then Inl (Errf ''capability must not be empty'' [])
      else if name = ''ALL'' then Inr ()
      else if \<not> HasPrefix name ''CAP_'' \<or> length name \<le> 4 then
        Inl (Errf ''capability %q must be ALL or start with CAP_ (for example CAP_NET_ADMIN)'' [name])
      else res_iter (\<lambda>r. if \<not> cap_char r
             then Inl (Errf ''capability %q contains invalid character %q'' [name, [r]])
             else Inr ()) name)"

definition validateContainerCapabilities :: "ContainerConfig \<Rightarrow> unit res" where
  "validateContainerCapabilities c =
     res_bind (res_iter (\<lambda>capability.
       res_wrap (Wrapf ''container %q cap_add: %w'' [co_Name c]) (validateCapability capability))
       (co_CapAdd c)) (\<lambda>_.
     res_iter (\<lambda>capability.
       res_wrap (Wrapf ''container %q cap_drop: %w'' [co_Name c]) (validateCapability capability))
       (co_CapDrop c))"

definition validateContainer :: "ContainerConfig \<Rightarrow> unit res" where
  "validateContainer c =
     (if co_Interfaces c \<noteq> [] then
        Inl (Errf ''container %q defines interfaces; interfaces configure host interfaces and must be declared at the top level'' [co_Name c])
      else res_bind (res_iter (\<lambda>p. res_bind
        (res_wrap (Wrapf ''container %q has invalid host_port %d: %w'' [co_Name c, Itoa (po_HostPort p)])
          (validateContainerPort (po_HostPort p))) (\<lambda>_.
         res_wrap (Wrapf ''container %q has invalid container_port %d: %w'' [co_Name c, Itoa (po_ContainerPort p)])
          (validateContainerPort (po_ContainerPort p)))) (co_Ports c)) (\<lambda>_.
      res_bind (res_iter (\<lambda>v.
        res_wrap (Wrapf ''container %q volume %q: %w'' [co_Name c, vo_ContainerPath v])
          (validateSELinuxRelabel (vo_SELinux v))) (co_Volumes c)) (\<lambda>_.
      res_bind (res_wrap (Wrapf ''container %q: %w'' [co_Name c]) (validateNetworkMode (co_NetworkMode c))) (\<lambda>_.
      validateContainerCapabilities c))))"

definition validateContainers :: "ContainerConfig list \<Rightarrow> unit res" where
  "validateContainers containers = res_iter validateContainer containers"


section \<open>What validation accepts\<close>

subsection \<open>Host names\<close>

definition rfc1123_label :: "string \<Rightarrow> bool" where
  "rfc1123_label l \<longleftrightarrow>
     1 \<le> length l \<and> length l \<le> 63 \<and> hd l \<noteq> CHR ''-'' \<and> last l \<noteq> CHR ''-'' \<and>
     (\<forall>c \<in> set l. isHostnameChar c)"

lemma HasPrefix_single: "HasPrefix s [c] \<longleftrightarrow> s \<noteq> [] \<and> hd s = c"
  by (cases s) auto

lemma HasSuffix_single: "HasSuffix s [c] \<longleftrightarrow> s \<noteq> [] \<and> last s = c"
  by (simp add: HasSuffix_def HasPrefix_single hd_rev)

lemma validateHostnameLabel_ok: "is_ok (validateHostnameLabel l) \<longleftrightarrow> rfc1123_label l"
  by (auto simp: validateHostnameLabel_def rfc1123_label_def res_iter_ok HasPrefix_single
      HasSuffix_single Suc_le_eq)

lemma validateHostname_ok:
  "is_ok (validateHostname h) \<longleftrightarrow>
     h = [] \<or> length h \<le> 253 \<and> (\<forall>l \<in> set (Split h CHR ''.''). rfc1123_label l)"
  by (auto simp: validateHostname_def res_iter_ok validateHostnameLabel_ok)

lemma Join_rfc1123_labels:
  assumes "ls \<noteq> []" "\<forall>l \<in> set ls. rfc1123_label l"
  shows "Split (Join ls ''.'') CHR ''.'' = ls"
proof (rule Split_Join [OF assms(1)])
  show "\<forall>w \<in> set ls. CHR ''.'' \<notin> set w"
    using assms(2) by (fastforce simp: rfc1123_label_def isHostnameChar_def)
qed

subsection \<open>Modes\<close>

lemma parseFileMode_bound: "parseFileMode s = Inr m \<Longrightarrow> m < 4096"
  by (auto simp: parseFileMode_def Let_def split: if_splits sum.splits)

lemma parseFileMode_value:
  "parseFileMode s = Inr m \<longleftrightarrow> ParseUint (TrimSpace s) 8 32 = Inr m \<and> m < 4096"
  by (auto simp: parseFileMode_def Let_def ParseUint_def split: if_splits sum.splits)

subsection \<open>Base64\<close>

lemma b64_value_char: "v < 64 \<Longrightarrow> b64_value (b64_char v) = Some v"
  by (auto simp: b64_value_def b64_char_def Let_def)

lemma b64_char_plain:
  assumes "v < 64"
  shows "b64_char v \<noteq> CHR ''=''" "b64_char v \<noteq> CHR 0x0A" "b64_char v \<noteq> CHR 0x0D"
  using b64_value_char [OF assms] by (auto simp: b64_value_def Let_def)

lemma sextet_bounds:
  fixes a b c :: nat
  assumes "a < 256" "b < 256" "c < 256"
  shows "a div 4 < 64" "a mod 4 * 16 < 64" "a mod 4 * 16 + b div 16 < 64" "b mod 16 * 4 < 64"
    "b mod 16 * 4 + c div 64 < 64" "c mod 64 < 64"
    "(a mod 4 * 16 + b div 16) div 16 = a mod 4" "(a mod 4 * 16 + b div 16) mod 16 = b div 16"
    "(b mod 16 * 4 + c div 64) div 4 = b mod 16" "(b mod 16 * 4 + c div 64) mod 4 = c div 64"
  using assms by auto

lemmas code_sextets =
  sextet_bounds [OF nat_of_char_less_256 nat_of_char_less_256 nat_of_char_less_256]

lemma code_recombine:
  "char_of (code b div 16 mod 16 * 16 + code b mod 16) = b"
  "char_of (code c div 64 mod 4 * 64 + code c mod 64) = c"
proof -
  have "n div 16 mod 16 = n div 16" "n div 64 mod 4 = n div 64" if "n < 256" for n :: nat
    using that by auto
  then have "code b div 16 mod 16 = code b div 16" "code c div 64 mod 4 = code c div 64"
    using nat_of_char_less_256 by blast+
  then show "char_of (code b div 16 mod 16 * 16 + code b mod 16) = b"
    "char_of (code c div 64 mod 4 * 64 + code c mod 64) = c" by simp_all
qed

lemma b64_groups_encode: "b64_groups (b64_encode s) = Some s"
  by (induction s rule: b64_encode.induct)
     (simp_all add: b64_value_char b64_char_plain code_sextets code_recombine)

lemma b64_encode_no_newline: "c \<in> set (b64_encode s) \<Longrightarrow> c \<noteq> CHR 0x0A \<and> c \<noteq> CHR 0x0D"
proof (induction s rule: b64_encode.induct)
  case (2 a)
  then have "c = CHR ''='' \<or> (\<exists>v < 64. c = b64_char v)"
    using code_sextets(1,2) by (auto simp del: One_nat_def; blast)
  then show ?case using b64_char_plain(2,3) by auto
next
  case (3 a b)
  then have "c = CHR ''='' \<or> (\<exists>v < 64. c = b64_char v)"
    using code_sextets(1,3,4) by (auto simp del: One_nat_def; blast)
  then show ?case using b64_char_plain(2,3) by auto
next
  case (4 a b d s)
  then have "c \<in> set (b64_encode s) \<or> (\<exists>v < 64. c = b64_char v)"
    using code_sextets(1,3,5,6) by (auto simp del: One_nat_def; blast)
  then show ?case using b64_char_plain(2,3) "4.IH" by auto
qed simp

lemma b64_decode_encode: "b64_decode (b64_encode s) = Some s"
proof -
  have "filter (\<lambda>c. c \<noteq> CHR 0x0A \<and> c \<noteq> CHR 0x0D) (b64_encode s) = b64_encode s"
    using b64_encode_no_newline by (auto intro: filter_True)
  then show ?thesis by (simp add: b64_decode_def b64_groups_encode)
qed

subsection \<open>Firewall ports\<close>

definition port_number :: "string \<Rightarrow> int \<Rightarrow> bool" where
  "port_number s n \<longleftrightarrow> Atoi (TrimSpace s) = Inr n \<and> 1 \<le> n \<and> n \<le> 65535"

lemma parsePortNumber_ok: "parsePortNumber s = Inr n \<longleftrightarrow> port_number s n"
  by (auto simp: parsePortNumber_def port_number_def split: sum.splits)

lemma validateFirewallPort_ok:
  "is_ok (validateFirewallPort s) \<longleftrightarrow>
     (CHR ''-'' \<notin> set (TrimSpace s) \<and> (\<exists>n. port_number (TrimSpace s) n)) \<or>
     (\<exists>a b m n. TrimSpace s = a @ CHR ''-'' # b \<and> CHR ''-'' \<notin> set a \<and>
        port_number a m \<and> port_number b n \<and> m \<le> n)"
proof (cases "Cut (TrimSpace s) CHR ''-''")
  case (fields a b f)
  show ?thesis
  proof (cases f)
    case True
    with fields have ab: "TrimSpace s = a @ CHR ''-'' # b" "CHR ''-'' \<notin> set a"
      using Cut_found by auto
    have "is_ok (validateFirewallPort s) \<longleftrightarrow> (\<exists>m n. port_number a m \<and> port_number b n \<and> m \<le> n)"
      using fields True ab(1)
      by (simp add: validateFirewallPort_def is_ok_bind parsePortNumber_ok not_less) (meson linorder_not_less)
    moreover have "(\<exists>a' b' m n. TrimSpace s = a' @ CHR ''-'' # b' \<and> CHR ''-'' \<notin> set a' \<and>
        port_number a' m \<and> port_number b' n \<and> m \<le> n) \<longleftrightarrow>
        (\<exists>m n. port_number a m \<and> port_number b n \<and> m \<le> n)"
    proof -
      have "a' = a \<and> b' = b" if "TrimSpace s = a' @ CHR ''-'' # b'" "CHR ''-'' \<notin> set a'" for a' b'
        using that Cut_append [of "CHR ''-''" a' b'] fields by simp
      with ab show ?thesis by blast
    qed
    moreover have "CHR ''-'' \<in> set (TrimSpace s)" using ab(1) by simp
    ultimately show ?thesis by blast
  next
    case False
    with fields have ab: "a = TrimSpace s" "CHR ''-'' \<notin> set (TrimSpace s)"
      using Cut_not_found by auto
    have "is_ok (validateFirewallPort s) \<longleftrightarrow> (\<exists>n. port_number (TrimSpace s) n)"
    proof (cases "TrimSpace s = []")
      case True
      then show ?thesis
        by (simp add: validateFirewallPort_def port_number_def Atoi_def ParseUint_def)
    next
      case ne: False
      with fields False ab(1) show ?thesis
        by (simp add: validateFirewallPort_def is_ok_bind parsePortNumber_ok)
    qed
    with ab(2) show ?thesis by auto
  qed
qed

lemma validateFirewallSource_ok:
  "is_ok (validateFirewallSource s) \<longleftrightarrow>
     TrimSpace s = [] \<or> ParseAddr (TrimSpace s) \<noteq> None \<or> ParsePrefix (TrimSpace s) \<noteq> None"
  by (simp add: validateFirewallSource_def Let_def)

lemma validateFirewallPortConfigs_ok:
  "is_ok (validateFirewallPortConfigs ports) \<longleftrightarrow>
     (\<forall>p \<in> set ports. is_ok (validateFirewallPort (fw_Port p)) \<and>
        is_ok (validateFirewallProtocol (fw_Protocol p)) \<and> is_ok (validateFirewallSource (fw_Source p)))"
proof -
  have "is_ok (validateFirewallPortConfig i p) \<longleftrightarrow>
      is_ok (validateFirewallPort (fw_Port p)) \<and>
      is_ok (validateFirewallProtocol (fw_Protocol p)) \<and> is_ok (validateFirewallSource (fw_Source p))" for i p
    by (simp add: validateFirewallPortConfig_def Let_def)
  then show ?thesis
    unfolding validateFirewallPortConfigs_def by (rule res_iter_enumerate_ok)
qed

subsection \<open>Containers\<close>

definition valid_container :: "ContainerConfig \<Rightarrow> bool" where
  "valid_container c \<longleftrightarrow>
     co_Interfaces c = [] \<and>
     (\<forall>p \<in> set (co_Ports c). 1 \<le> po_HostPort p \<and> po_HostPort p \<le> 65535 \<and>
        1 \<le> po_ContainerPort p \<and> po_ContainerPort p \<le> 65535) \<and>
     (\<forall>v \<in> set (co_Volumes c). TrimSpace (vo_SELinux v) \<in> {[], ''z'', ''Z''}) \<and>
     is_ok (validateNetworkMode (co_NetworkMode c)) \<and>
     (\<forall>k \<in> set (co_CapAdd c) \<union> set (co_CapDrop c). is_ok (validateCapability k))"

lemma validateContainer_ok: "is_ok (validateContainer c) \<longleftrightarrow> valid_container c"
proof -
  have port: "is_ok (validateContainerPort n) \<longleftrightarrow> 1 \<le> n \<and> n \<le> 65535" for n
    by (auto simp: validateContainerPort_def)
  have sel: "is_ok (validateSELinuxRelabel v) \<longleftrightarrow> TrimSpace v \<in> {[], ''z'', ''Z''}" for v
    by (simp add: validateSELinuxRelabel_def)
  have caps: "is_ok (validateContainerCapabilities c) \<longleftrightarrow>
      (\<forall>k \<in> set (co_CapAdd c) \<union> set (co_CapDrop c). is_ok (validateCapability k))"
    by (auto simp: validateContainerCapabilities_def res_iter_ok)
  show ?thesis
    by (auto simp: validateContainer_def valid_container_def res_iter_ok port sel caps)
qed

section \<open>Properties\<close>


text \<open>A mode is read as octal, accepted exactly up to 07777, and written back in octal it
  is read again as the same number.\<close>

lemma parseFileMode_octal:
  "parseFileMode (nat_string 8 m) = Inr m \<longleftrightarrow> m < 4096"
proof
  assume "m < 4096"
  then have "ParseUint (nat_string 8 m) 8 32 = Inr m" by (simp add: ParseUint_def parse_nat_string)
  moreover have "TrimSpace (nat_string 8 m) = nat_string 8 m"
    by (simp add: TrimSpace_plain nat_string_plain)
  ultimately show "parseFileMode (nat_string 8 m) = Inr m" using \<open>m < 4096\<close> by (simp add: parseFileMode_value)
qed (rule parseFileMode_bound)

definition sample_file :: FileConfig where
  "sample_file = \<lparr>fi_Path = ''/etc/motd'', fi_Chmod = ''0644'', fi_User = ''0:0'', fi_Content = [],
     fi_Encoding = '' base64 ''\<rparr>"

text \<open>Base64 content is decoded to the bytes that were encoded.\<close>

lemma decodeFileContent_base64:
  assumes "TrimSpace (fi_Encoding file) = ''base64''"
  shows "decodeFileContent (file\<lparr>fi_Content := b64_encode bytes\<rparr>) = Inr bytes"
  using assms by (simp add: decodeFileContent_def b64_decode_encode)

lemma decodeFileContent_base64_witness:
  "decodeFileContent (sample_file\<lparr>fi_Content := b64_encode ''hello''\<rparr>) = Inr ''hello'' \<and>
   b64_encode ''hello'' = ''aGVsbG8=''"
proof -
  have "TrimSpace (fi_Encoding sample_file) = ''base64''" by code_simp
  moreover have "b64_encode ''hello'' = ''aGVsbG8=''" by code_simp
  ultimately show ?thesis using decodeFileContent_base64 by blast
qed

end
