(* ===== verification/PodmanSpec.thy ===== *)
theory PodmanSpec
  imports Config
begin

text \<open>
  The effect-free part of \<open>podman.go\<close>: the container specification sent to Podman, the
  decisions taken on what Podman reports, the demultiplexing of a container's log stream and
  the version read off an image reference.  The \<open>uint16\<close> ports of the specification are
  16-bit words.
\<close>

section \<open>Data\<close>

record namespace =
  ns_NSMode :: string
  ns_Value :: string

record portMapping =
  pm_HostIP :: string
  pm_ContainerPort :: "16 word"
  pm_HostPort :: "16 word"
  pm_Range :: "16 word"
  pm_Protocol :: string

record mount =
  mo_Destination :: string
  mo_Type :: string
  mo_Source :: string
  mo_Options :: "string list"

record containerSpec =
  sp_Name :: string
  sp_Image :: string
  sp_User :: string
  sp_Env :: "(string \<times> string) list"
  sp_Command :: "string list"
  sp_PortMappings :: "portMapping list"
  sp_Mounts :: "mount list"
  sp_RestartPolicy :: string
  sp_Labels :: "(string \<times> string) list"
  sp_Netns :: "namespace option"
  sp_ReadOnlyFilesystem :: bool
  sp_CapAdd :: "string list"
  sp_CapDrop :: "string list"

record listedContainer =
  lc_ID :: string
  lc_Names :: "string list"
  lc_Image :: string
  lc_State :: string

record runningContainerStatus =
  rs_ID :: string
  rs_Name :: string
  rs_Names :: "string list"
  rs_State :: string
  rs_Image :: string
  rs_ImageID :: string
  rs_ImageDigest :: string
  rs_Version :: string
  rs_Logs :: "string list"
  rs_Error :: string

text \<open>Of \<open>State\<close> only \<open>Running\<close> and of \<open>Config\<close> only the labels are ever read.\<close>

record containerInspectResponse =
  in_Name :: string
  in_Image :: string
  in_ImageName :: string
  in_ImageDigest :: string
  in_Running :: "bool option"
  in_Labels :: "(string \<rightharpoonup> string) option"

record imagePullReport =
  pr_Stream :: string
  pr_Error :: string
  pr_Images :: "string list"
  pr_ID :: string

section \<open>The container specification\<close>

definition configHashLabel :: string where
  "configHashLabel = ''edgecommander.config-hash''"

definition portMappingFromConfig :: "PortConfig \<Rightarrow> portMapping" where
  "portMappingFromConfig p =
     \<lparr>pm_HostIP = po_HostIP p,
      pm_ContainerPort = word_of_int (po_ContainerPort p),
      pm_HostPort = word_of_int (po_HostPort p),
      pm_Range = 0,
      pm_Protocol = (if po_Protocol p = [] then ''tcp'' else po_Protocol p)\<rparr>"

definition mountFromVolume :: "VolumeConfig \<Rightarrow> mount" where
  "mountFromVolume v =
     \<lparr>mo_Destination = vo_ContainerPath v,
      mo_Type = ''bind'',
      mo_Source = vo_HostPath v,
      mo_Options = [''rbind''] @ (if vo_ReadOnly v then [''ro''] else [''rw'']) @
        (if TrimSpace (vo_SELinux v) \<noteq> [] then [TrimSpace (vo_SELinux v)] else [])\<rparr>"

definition applyRuntimeOptions :: "containerSpec \<Rightarrow> ContainerConfig \<Rightarrow> containerSpec" where
  "applyRuntimeOptions s c =
     (let s1 = (if TrimSpace (co_NetworkMode c) \<noteq> []
                then s\<lparr>sp_Netns := Some \<lparr>ns_NSMode = TrimSpace (co_NetworkMode c), ns_Value = []\<rparr>\<rparr> else s);
          s2 = s1\<lparr>sp_ReadOnlyFilesystem := co_ReadOnly c\<rparr>;
          s3 = (if 0 < length (co_CapAdd c) then s2\<lparr>sp_CapAdd := co_CapAdd c\<rparr> else s2)
      in if 0 < length (co_CapDrop c) then s3\<lparr>sp_CapDrop := co_CapDrop c\<rparr> else s3)"

definition createSpec :: "ContainerConfig \<Rightarrow> containerSpec res" where
  "createSpec c =
     (let s = \<lparr>sp_Name = co_Name c, sp_Image = co_Image c, sp_User = co_User c, sp_Env = co_Env c,
               sp_Command = co_Command c,
               sp_PortMappings = map portMappingFromConfig (co_Ports c),
               sp_Mounts = map mountFromVolume (co_Volumes c),
               sp_RestartPolicy = (if co_Restart c \<noteq> [] then co_Restart c else []),
               sp_Labels = [], sp_Netns = None, sp_ReadOnlyFilesystem = False,
               sp_CapAdd = [], sp_CapDrop = []\<rparr>
      in Inr (applyRuntimeOptions s c))"

text \<open>\<open>configHash\<close>: the JSON encoding and the digest are parameters.\<close>

definition configHash :: "(ContainerConfig \<Rightarrow> string) \<Rightarrow> (string \<Rightarrow> string) \<Rightarrow> ContainerConfig \<Rightarrow> string" where
  "configHash to_json sha256_hex c = sha256_hex (to_json c)"

section \<open>Decisions on what Podman reports\<close>

definition containerUpToDate :: "containerInspectResponse \<Rightarrow> string \<Rightarrow> bool" where
  "containerUpToDate inspect desiredHash =
     (case in_Running inspect of
        None \<Rightarrow> False
      | Some running \<Rightarrow>
          if \<not> running then False
          else case in_Labels inspect of
                 None \<Rightarrow> False
               | Some labels \<Rightarrow> (case labels configHashLabel of None \<Rightarrow> [] | Some v \<Rightarrow> v) = desiredHash)"

definition containerIsConfigured :: "listedContainer \<Rightarrow> string list \<Rightarrow> bool" where
  "containerIsConfigured container configuredNames =
     list_ex (\<lambda>name. name \<in> set configuredNames) (lc_Names container)"

definition containerNeedsStop :: "string \<Rightarrow> bool" where
  "containerNeedsStop state \<longleftrightarrow>
     ToLower state \<notin> {''created'', ''configured'', ''dead'', ''exited'', ''removing'', ''stopped''}"

definition containerIsRunning :: "string \<Rightarrow> bool" where
  "containerIsRunning state = EqualFold state ''running''"

definition containerDisplayName :: "listedContainer \<Rightarrow> string" where
  "containerDisplayName container =
     (case lc_Names container of
        n # _ \<Rightarrow> n
      | [] \<Rightarrow> if lc_ID container \<noteq> [] then lc_ID container else ''<unknown>'')"

definition appendStatusError :: "string \<Rightarrow> string \<Rightarrow> string" where
  "appendStatusError existing nxt = (if existing = [] then nxt else existing @ ''; '' @ nxt)"

text \<open>
  \<open>imageReferenceVersion\<close>: the tag of the name part, else the digest.
\<close>

definition imageReferenceVersion :: "string \<Rightarrow> string" where
  "imageReferenceVersion ref0 =
     (let ref = TrimSpace ref0 in
      if ref = [] then []
      else case Cut ref CHR ''@'' of (name, digest, hasDigest) \<Rightarrow>
        (let lastSlash = LastIndex name CHR ''/''; lastColon = LastIndex name CHR '':'' in
         if lastSlash < lastColon then drop (nat (lastColon + 1)) name
         else if hasDigest then digest
         else []))"

definition applyInspectToStatus ::
    "runningContainerStatus \<Rightarrow> containerInspectResponse \<Rightarrow> runningContainerStatus" where
  "applyInspectToStatus status inspect =
     (let s1 = (if in_Name inspect \<noteq> [] then status\<lparr>rs_Name := TrimPrefix (in_Name inspect) ''/''\<rparr> else status);
          s2 = (if in_ImageName inspect \<noteq> [] then s1\<lparr>rs_Image := in_ImageName inspect\<rparr> else s1);
          s3 = s2\<lparr>rs_ImageID := in_Image inspect, rs_ImageDigest := in_ImageDigest inspect,
                  rs_Version := imageReferenceVersion (rs_Image s2)\<rparr>
      in if rs_Version s3 = [] then s3\<lparr>rs_Version := imageReferenceVersion (rs_ImageDigest s3)\<rparr> else s3)"

section \<open>The pull report stream\<close>

text \<open>
  One decoded report of an image pull: progress text is printed, an error is collected, a
  report naming images or an id is accepted, anything else is unexpected.  A decoding error
  other than the end of the stream is collected and ends the loop.
\<close>

definition pullReportError :: "imagePullReport \<Rightarrow> err list" where
  "pullReportError report =
     (if pr_Stream report \<noteq> [] then []
      else if pr_Error report \<noteq> [] then [Outside (pr_Error report)]
      else if 0 < length (pr_Images report) \<or> pr_ID report \<noteq> [] then []
      else [Errf ''unexpected image pull response: %+v'' []])"

fun pullErrors :: "(err + imagePullReport) list \<Rightarrow> err list" where
  "pullErrors [] = []"
| "pullErrors (Inl e # _) = [Wrapf ''failed to decode image pull response: %w'' [] e]"
| "pullErrors (Inr report # rest) = pullReportError report @ pullErrors rest"

text \<open>\<open>errors.Join\<close> is \<open>nil\<close> for no errors.\<close>

definition join_errors :: "err list \<Rightarrow> unit res" where
  "join_errors es = (if es = [] then Inr () else Inl (Joined es))"

section \<open>The log stream\<close>

definition splitLogFrame :: "string \<Rightarrow> string list" where
  "splitLogFrame frame0 =
     (let frame = TrimSuffix frame0 [CHR 0x0A] in
      if frame = [] then [] else Split frame CHR 0x0A)"

definition logFrameLines :: "nat \<Rightarrow> string \<Rightarrow> string list res" where
  "logFrameLines fd frame =
     (if fd = 3 then Inl (Errf ''podman log stream error: %s'' [TrimSpace frame])
      else Inr (map (\<lambda>line. (if fd = 2 then ''stderr'' else ''stdout'') @ '': '' @ line)
                  (splitLogFrame frame)))"

datatype header = Eof | BadHeader err | Header nat nat string

text \<open>
  \<open>demuxHeader\<close> reads eight bytes: the channel and, in bytes 4 to 7, the frame length, most
  significant first.  The stream is the string of the bytes still to come.
\<close>

definition demuxHeader :: "string \<Rightarrow> header" where
  "demuxHeader s =
     (if s = [] then Eof
      else if length s < 8 then BadHeader (Outside ''unexpected EOF'')
      else if 3 < code (s ! 0) then
        BadHeader (Errf ''container log stream lost sync: channel %d'' [nat_string 10 (code (s ! 0))])
      else Header (code (s ! 0))
             (((code (s ! 4) * 256 + code (s ! 5)) * 256 + code (s ! 6)) * 256 + code (s ! 7))
             (drop 8 s))"

definition demuxFrame :: "string \<Rightarrow> nat \<Rightarrow> (string \<times> string) res" where
  "demuxFrame s n =
     (if length s < n then Inl (Outside (if s = [] then ''EOF'' else ''unexpected EOF''))
      else Inr (take n s, drop n s))"

function log_loop :: "string \<Rightarrow> string list \<Rightarrow> string list res" where
  "log_loop s lines =
     (case demuxHeader s of
        Eof \<Rightarrow> Inr lines
      | BadHeader e \<Rightarrow> Inl e
      | Header fd n rest \<Rightarrow>
          (case demuxFrame rest n of
             Inl e \<Rightarrow> Inl e
           | Inr (frame, rest') \<Rightarrow>
               (case logFrameLines fd frame of
                  Inl e \<Rightarrow> Inl e
                | Inr ls \<Rightarrow> log_loop rest' (lines @ ls))))"
  by pat_completeness auto
termination
proof (relation "measure (\<lambda>(s, lines). length s)", goal_cases)
  case 1
  then show ?case by simp
next
  case (2 s lines fd n rest p frame rest' ls)
  then have "rest = drop 8 s" "8 \<le> length s"
    by (auto simp: demuxHeader_def split: if_splits)
  moreover have "length rest' \<le> length rest"
    using 2 by (auto simp: demuxFrame_def split: if_splits)
  ultimately show ?case by simp
qed

declare log_loop.simps [simp del]

text \<open>The last step of \<open>containerLogLines\<close>: at most \<open>tail\<close> lines, the most recent ones.\<close>

definition last_lines :: "nat \<Rightarrow> string list \<Rightarrow> string list" where
  "last_lines n lines = (if n < length lines then drop (length lines - n) lines else lines)"

definition containerLogLines_body :: "string \<Rightarrow> nat \<Rightarrow> string list res" where
  "containerLogLines_body body tail_n = res_bind (log_loop body []) (\<lambda>lines. Inr (last_lines tail_n lines))"


section \<open>Ports keep their value\<close>

lemma uint_port:
  fixes n :: int
  assumes "1 \<le> n" "n \<le> 65535"
  shows "uint (word_of_int n :: 16 word) = n"
  using assms by (simp add: uint_word_of_int)

lemma portMapping_exact:
  assumes "valid_container c" "p \<in> set (co_Ports c)"
  shows "uint (pm_HostPort (portMappingFromConfig p)) = po_HostPort p"
    and "uint (pm_ContainerPort (portMappingFromConfig p)) = po_ContainerPort p"
  using assms by (auto simp: valid_container_def portMappingFromConfig_def intro!: uint_port)

lemma applyRuntimeOptions_fields:
  "sp_Name (applyRuntimeOptions s c) = sp_Name s"
  "sp_Image (applyRuntimeOptions s c) = sp_Image s"
  "sp_User (applyRuntimeOptions s c) = sp_User s"
  "sp_Env (applyRuntimeOptions s c) = sp_Env s"
  "sp_Command (applyRuntimeOptions s c) = sp_Command s"
  "sp_PortMappings (applyRuntimeOptions s c) = sp_PortMappings s"
  "sp_Mounts (applyRuntimeOptions s c) = sp_Mounts s"
  "sp_RestartPolicy (applyRuntimeOptions s c) = sp_RestartPolicy s"
  "sp_Labels (applyRuntimeOptions s c) = sp_Labels s"
  "sp_Netns (applyRuntimeOptions s c) =
     (if TrimSpace (co_NetworkMode c) = [] then sp_Netns s
      else Some \<lparr>ns_NSMode = TrimSpace (co_NetworkMode c), ns_Value = []\<rparr>)"
  "sp_ReadOnlyFilesystem (applyRuntimeOptions s c) = co_ReadOnly c"
  "sp_CapAdd (applyRuntimeOptions s c) = (if co_CapAdd c = [] then sp_CapAdd s else co_CapAdd c)"
  "sp_CapDrop (applyRuntimeOptions s c) = (if co_CapDrop c = [] then sp_CapDrop s else co_CapDrop c)"
  by (simp_all add: applyRuntimeOptions_def Let_def)

lemma createSpec_fields:
  assumes "createSpec c = Inr s"
  shows "sp_Name s = co_Name c" and "sp_Image s = co_Image c" and "sp_User s = co_User c"
    and "sp_Env s = co_Env c" and "sp_Command s = co_Command c"
    and "sp_PortMappings s = map portMappingFromConfig (co_Ports c)"
    and "sp_Mounts s = map mountFromVolume (co_Volumes c)"
    and "sp_RestartPolicy s = co_Restart c"
    and "sp_Labels s = []"
    and "map_option ns_NSMode (sp_Netns s) =
           (if TrimSpace (co_NetworkMode c) = [] then None else Some (TrimSpace (co_NetworkMode c)))"
    and "sp_ReadOnlyFilesystem s = co_ReadOnly c"
    and "sp_CapAdd s = co_CapAdd c" and "sp_CapDrop s = co_CapDrop c"
  using assms by (auto simp: createSpec_def Let_def applyRuntimeOptions_fields)

lemma createSpec_total: "is_ok (createSpec c)"
  by (simp add: createSpec_def Let_def)

section \<open>Demultiplexing undoes multiplexing\<close>

text \<open>The format Podman writes: the channel, three zero bytes, the length, the payload.\<close>

definition be32 :: "nat \<Rightarrow> string" where
  "be32 n = [char_of (n div 2 ^ 24 mod 256), char_of (n div 2 ^ 16 mod 256),
             char_of (n div 2 ^ 8 mod 256), char_of (n mod 256)]"

definition mux_frame :: "nat \<times> string \<Rightarrow> string" where
  "mux_frame f = [char_of (fst f), CHR 0x00, CHR 0x00, CHR 0x00] @ be32 (length (snd f)) @ snd f"

definition mux :: "(nat \<times> string) list \<Rightarrow> string" where
  "mux fs = concat (map mux_frame fs)"

lemma be32_value:
  assumes "n < 2 ^ 32"
  shows "((n div 2 ^ 24 mod 256 * 256 + n div 2 ^ 16 mod 256) * 256 + n div 2 ^ 8 mod 256) * 256
     + n mod 256 = (n :: nat)"
proof -
  have "n div 2 ^ 24 < 256" using assms by (simp add: less_mult_imp_div_less)
  then have 1: "n div 2 ^ 24 mod 256 = n div 2 ^ 24" by simp
  have "n div 2 ^ 24 = n div 2 ^ 16 div 256" by (simp add: div_mult2_eq [symmetric])
  then have 2: "n div 2 ^ 24 * 256 + n div 2 ^ 16 mod 256 = n div 2 ^ 16" by simp
  have "n div 2 ^ 16 = n div 2 ^ 8 div 256" by (simp add: div_mult2_eq [symmetric])
  then have 3: "n div 2 ^ 16 * 256 + n div 2 ^ 8 mod 256 = n div 2 ^ 8" by simp
  have 4: "n div 2 ^ 8 * 256 + n mod 256 = n" by simp
  show ?thesis by (simp only: 1 2 3 4)
qed

lemma demuxHeader_mux:
  assumes "fd \<le> 3" "length t < 2 ^ 32"
  shows "demuxHeader (mux_frame (fd, t) @ r) = Header fd (length t) (t @ r)"
proof -
  have fd: "code (char_of fd) = fd" using assms(1) by simp
  have len: "((code (char_of (length t div 2 ^ 24 mod 256)) * 256
      + code (char_of (length t div 2 ^ 16 mod 256))) * 256
      + code (char_of (length t div 2 ^ 8 mod 256))) * 256
      + code (char_of (length t mod 256)) = length t"
    using be32_value [OF assms(2)] by (simp del: power_numeral)
  have "\<not> 3 < code (char_of fd)" using assms(1) fd by simp
  then have "demuxHeader (mux_frame (fd, t) @ r) = Header (code (char_of fd))
     (((code (char_of (length t div 2 ^ 24 mod 256)) * 256
      + code (char_of (length t div 2 ^ 16 mod 256))) * 256
      + code (char_of (length t div 2 ^ 8 mod 256))) * 256
      + code (char_of (length t mod 256))) (t @ r)"
    by (simp add: demuxHeader_def mux_frame_def be32_def nth_Cons_numeral
        del: of_char_of char_of_mod_256)
  then show ?thesis unfolding fd len .
qed

lemma log_loop_frame:
  assumes "fd \<le> 2" "length t < 2 ^ 32"
  shows "log_loop (mux_frame (fd, t) @ r) lines =
    log_loop r (lines @ map (\<lambda>line. (if fd = 2 then ''stderr'' else ''stdout'') @ '': '' @ line)
      (splitLogFrame t))"
proof -
  have "demuxHeader (mux_frame (fd, t) @ r) = Header fd (length t) (t @ r)"
    using assms by (intro demuxHeader_mux) auto
  moreover have "demuxFrame (t @ r) (length t) = Inr (t, r)" by (simp add: demuxFrame_def)
  ultimately show ?thesis
    using assms(1) by (subst log_loop.simps) (auto simp: logFrameLines_def)
qed

lemma log_loop_mux:
  assumes "\<forall>(fd, t) \<in> set fs. fd \<le> 2 \<and> length t < 2 ^ 32"
  shows "log_loop (mux fs) lines = Inr (lines @ concat (map (\<lambda>(fd, t).
     map (\<lambda>line. (if fd = 2 then ''stderr'' else ''stdout'') @ '': '' @ line) (splitLogFrame t)) fs))"
  using assms
proof (induction fs arbitrary: lines)
  case Nil
  then show ?case by (simp add: mux_def log_loop.simps demuxHeader_def)
next
  case (Cons f fs)
  obtain fd t where f: "f = (fd, t)" by (cases f)
  with Cons show ?case
    by (simp add: mux_def log_loop_frame del: log_loop.simps)
qed

lemma TrimSuffix_single: "TrimSuffix (s @ [c]) [c] = s"
  by (simp add: TrimSuffix_def HasSuffix_def)

lemma splitLogFrame_Join:
  assumes "ls \<noteq> []" "Join ls [CHR 0x0A] \<noteq> []" "\<forall>l \<in> set ls. CHR 0x0A \<notin> set l"
  shows "splitLogFrame (Join ls [CHR 0x0A] @ [CHR 0x0A]) = ls"
  using assms by (simp add: splitLogFrame_def TrimSuffix_single Split_Join)

lemma last_lines_length: "length (last_lines n ls) \<le> n \<or> length (last_lines n ls) = length ls \<and> length ls \<le> n"
  by (auto simp: last_lines_def)

lemma last_lines_bound: "length (last_lines n ls) = min n (length ls)"
  by (simp add: last_lines_def)

lemma last_lines_suffix: "\<exists>pre. ls = pre @ last_lines n ls"
  by (metis append_take_drop_id append_Nil last_lines_def)

section \<open>Image references\<close>

lemma imageReferenceVersion_tag:
  assumes "TrimSpace (repo @ '':'' @ tag) = repo @ '':'' @ tag"
    and "CHR ''@'' \<notin> set repo" and "CHR ''@'' \<notin> set tag"
    and "CHR ''/'' \<notin> set tag" and "CHR '':'' \<notin> set tag"
  shows "imageReferenceVersion (repo @ '':'' @ tag) = tag"
proof -
  let ?n = "repo @ CHR '':'' # tag"
  have cut: "Cut ?n CHR ''@'' = (?n, [], False)" using assms(2,3) by (simp add: Cut_absent)
  have colon: "LastIndex ?n CHR '':'' = int (length repo)" by (rule LastIndex_append [OF assms(5)])
  have slash: "LastIndex ?n CHR ''/'' < int (length repo)"
  proof -
    have "CHR ''/'' \<notin> set (CHR '':'' # tag)" using assms(4) by simp
    then have "LastIndex (repo @ CHR '':'' # tag) CHR ''/'' = LastIndex repo CHR ''/''"
      using LastIndex_absent [of tag "CHR ''/''"] assms(4)
      by (induction repo) (simp_all add: Let_def)
    then show ?thesis using LastIndex_bounds [of repo "CHR ''/''"] by simp
  qed
  show ?thesis
    using assms(1) cut colon slash by (simp add: imageReferenceVersion_def Let_def nat_add_distrib)
qed

lemma imageReferenceVersion_digest:
  assumes "TrimSpace (repo @ ''@'' @ digest) = repo @ ''@'' @ digest"
    and "CHR ''@'' \<notin> set repo" and "LastIndex repo CHR '':'' < LastIndex repo CHR ''/'' \<or> CHR '':'' \<notin> set repo"
  shows "imageReferenceVersion (repo @ ''@'' @ digest) = digest"
proof -
  have cut: "Cut (repo @ CHR ''@'' # digest) CHR ''@'' = (repo, digest, True)"
    by (rule Cut_append [OF assms(2)])
  have "\<not> LastIndex repo CHR ''/'' < LastIndex repo CHR '':''"
    using assms(3) LastIndex_absent [of repo "CHR '':''"] LastIndex_bounds [of repo "CHR ''/''"] by auto
  with assms(1) cut show ?thesis by (simp add: imageReferenceVersion_def Let_def)
qed

section \<open>Properties\<close>

definition sample_container :: ContainerConfig where
  "sample_container = \<lparr>co_Name = ''web'', co_Image = ''docker.io/library/nginx:1.27'', co_User = [],
     co_Env = [(''A'', ''b'')], co_Ports = [\<lparr>po_HostIP = [], po_HostPort = 65535, po_ContainerPort = 80, po_Protocol = []\<rparr>],
     co_Volumes = [\<lparr>vo_HostPath = ''/srv'', vo_ContainerPath = ''/data'', vo_ReadOnly = True, vo_SELinux = ''Z''\<rparr>],
     co_Interfaces = [], co_Command = [], co_Restart = ''always'', co_NetworkMode = ''host'', co_ReadOnly = False,
     co_CapAdd = [''CAP_NET_ADMIN''], co_CapDrop = [''ALL'']\<rparr>"





text \<open>The version reported for an image reference is its tag, whatever the registry, its
  port and the repository path, as long as the tag has none of the separators.\<close>

theorem imageReferenceVersion_of_tag:
  assumes "TrimSpace (repo @ '':'' @ tag) = repo @ '':'' @ tag"
    and "CHR ''@'' \<notin> set repo" and "set tag \<inter> {CHR ''@'', CHR ''/'', CHR '':''} = {}"
  shows "imageReferenceVersion (repo @ '':'' @ tag) = tag"
  using assms by (intro imageReferenceVersion_tag) auto

lemma imageReferenceVersion_of_tag_witness:
  "imageReferenceVersion ''registry:5000/app:v2'' = ''v2''"
  using imageReferenceVersion_of_tag [of "''registry:5000/app''" "''v2''"] by (simp, code_simp)

end
