(* ===== verification/Network.thy ===== *)
theory Network
  imports Config
begin

text \<open>
  \<open>network.go\<close> without its effects: the translation of the declared interfaces and routes
  into an nmstate desired state, which is also their validation.  Pointers of the document
  that are left out when nil are options.
\<close>

section \<open>The desired-state document\<close>

record nmAddress =
  na_IP :: string
  na_PrefixLength :: nat

record nmIPStack =
  ns_Enabled :: bool
  ns_DHCP :: bool
  ns_Autoconf :: "bool option"
  ns_AddrGenMode :: string
  ns_Addresses :: "nmAddress list"

record nmVLAN =
  nv_BaseIface :: string
  nv_ID :: int

record nmBondOptions =
  nb_Miimon :: "int option"
  nb_Primary :: string

record nmLinkAggregation =
  nl_Mode :: string
  nl_Port :: "string list"
  nl_Options :: "nmBondOptions option"

record nmInterface =
  ni_Name :: string
  ni_Type :: string
  ni_State :: string
  ni_MTU :: "int option"
  ni_IPv4 :: "nmIPStack option"
  ni_IPv6 :: "nmIPStack option"
  ni_VLAN :: "nmVLAN option"
  ni_LinkAggregation :: "nmLinkAggregation option"

record nmRoute =
  nr_Destination :: string
  nr_NextHopAddress :: string
  nr_NextHopInterface :: string
  nr_TableID :: "int option"
  nr_Metric :: "int option"

record nmState =
  st_Interfaces :: "nmInterface list"
  st_Routes :: "nmRoute list option"
  st_DNSResolver :: "string list option"

section \<open>Scalar checks\<close>

definition max_u32 :: int where
  "max_u32 = 0xFFFFFFFF"

definition validateMTU :: "InterfaceConfig \<Rightarrow> string \<Rightarrow> unit res" where
  "validateMTU iface label =
     (case if_MTU iface of
        None \<Rightarrow> Inr ()
      | Some m \<Rightarrow>
          if m < 1 \<or> max_u32 < m then
            Inl (Errf ''host interface %s mtu %d must be between 1 and %d'' [label, Itoa m, Itoa max_u32])
          else Inr ())"

definition validateTxQueueLen :: "InterfaceConfig \<Rightarrow> string \<Rightarrow> unit res" where
  "validateTxQueueLen iface label =
     (case if_TxQueueLen iface of
        None \<Rightarrow> Inr ()
      | Some q \<Rightarrow>
          if q < 0 \<or> max_u32 < q then
            Inl (Errf ''host interface %s txqueuelen %d must be between 0 and %d'' [label, Itoa q, Itoa max_u32])
          else Inr ())"

definition validateRouteUint32 :: "int option \<Rightarrow> string \<Rightarrow> string \<Rightarrow> unit res" where
  "validateRouteUint32 val field label =
     (case val of
        None \<Rightarrow> Inr ()
      | Some v \<Rightarrow>
          if v < 0 \<or> max_u32 < v then
            Inl (Errf ''route %s %s %d must be between 0 and %d'' [label, field, Itoa v, Itoa max_u32])
          else Inr ())"

section \<open>Addresses\<close>

definition parseAddr :: "string \<Rightarrow> nat list option" where
  "parseAddr addr = map_option AsSlice (ParseAddr addr)"

text \<open>The address and the number of leading ones of the subnet's mask.\<close>

definition parseInterfaceAddress :: "string \<Rightarrow> string \<Rightarrow> (nat list \<times> nat) res" where
  "parseInterfaceAddress address subnet =
     (case parseAddr address of
        None \<Rightarrow> Inl (Errf ''invalid ip_address %q'' [address])
      | Some ip \<Rightarrow>
          (case ParseCIDR subnet of
             None \<Rightarrow> Inl (Wrapf ''invalid subnet %q: %w'' [subnet] (Outside ''invalid CIDR address''))
           | Some cidr \<Rightarrow>
               if \<not> IPNetContains cidr ip then
                 Inl (Errf ''ip_address %q is not within subnet %q'' [address, subnet])
               else Inr (ip, net_ones cidr)))"

definition applyStaticAddress :: "nmInterface \<Rightarrow> InterfaceConfig \<Rightarrow> string \<Rightarrow> nmInterface res" where
  "applyStaticAddress nmIface iface label =
     (if if_IPAddress iface = [] then Inr nmIface
      else res_bind
        (res_wrap (Wrapf ''invalid host interface %s address: %w'' [label])
          (parseInterfaceAddress (if_IPAddress iface) (if_Subnet iface))) (\<lambda>(ip, prefix_len).
        let stack = \<lparr>ns_Enabled = True, ns_DHCP = False, ns_Autoconf = None, ns_AddrGenMode = [],
                     ns_Addresses = [\<lparr>na_IP = IPString ip, na_PrefixLength = prefix_len\<rparr>]\<rparr>
        in if To4 ip \<noteq> None then Inr (nmIface\<lparr>ni_IPv4 := Some stack\<rparr>)
           else Inr (nmIface\<lparr>ni_IPv6 := Some stack\<rparr>)))"

definition plain_stack :: "bool \<Rightarrow> bool \<Rightarrow> bool option \<Rightarrow> nmIPStack" where
  "plain_stack enabled dhcp autoconf =
     \<lparr>ns_Enabled = enabled, ns_DHCP = dhcp, ns_Autoconf = autoconf, ns_AddrGenMode = [], ns_Addresses = []\<rparr>"

definition ipv4MethodStack :: "string \<Rightarrow> nmIPStack option" where
  "ipv4MethodStack meth =
     (if meth = ''dhcp'' \<or> meth = ''auto'' then Some (plain_stack True True None)
      else if meth = ''disabled'' then Some (plain_stack False False None)
      else None)"

definition applyIPv4Settings :: "nmInterface \<Rightarrow> InterfaceConfig \<Rightarrow> string \<Rightarrow> nmInterface res" where
  "applyIPv4Settings nmIface iface label =
     (let meth = TrimSpace (if_IPv4Method iface) in
      if meth = [] then Inr nmIface
      else if ni_IPv4 nmIface \<noteq> None then
        Inl (Errf ''host interface %s sets ipv4_method %q together with a static IPv4 ip_address; they are mutually exclusive'' [label, meth])
      else case ipv4MethodStack meth of
             None \<Rightarrow> Inl (Errf ''host interface %s has invalid ipv4_method %q (want dhcp, auto, or disabled)'' [label, meth])
           | Some stack \<Rightarrow> Inr (nmIface\<lparr>ni_IPv4 := Some stack\<rparr>))"

definition ipv6MethodStack :: "string \<Rightarrow> nmIPStack option" where
  "ipv6MethodStack meth =
     (if meth = ''link-local'' then Some (plain_stack True False (Some False))
      else if meth = ''auto'' then Some (plain_stack True True (Some True))
      else if meth = ''dhcp'' then Some (plain_stack True True (Some False))
      else if meth = ''disabled'' then Some (plain_stack False False None)
      else None)"

definition validIPv6AddrGenMode :: "string \<Rightarrow> bool" where
  "validIPv6AddrGenMode mode \<longleftrightarrow> mode = ''eui64'' \<or> mode = ''stable-privacy''"

definition applyIPv6Settings :: "nmInterface \<Rightarrow> InterfaceConfig \<Rightarrow> string \<Rightarrow> nmInterface res" where
  "applyIPv6Settings nmIface iface label =
     (let meth = TrimSpace (if_IPv6Method iface); genMode = TrimSpace (if_IPv6AddrGenMode iface) in
      res_bind
        (if meth \<noteq> [] then
           (if ni_IPv6 nmIface \<noteq> None then
              Inl (Errf ''host interface %s sets ipv6_method %q together with a static IPv6 ip_address; they are mutually exclusive'' [label, meth])
            else case ipv6MethodStack meth of
                   None \<Rightarrow> Inl (Errf ''host interface %s has invalid ipv6_method %q (want link-local, auto, dhcp, or disabled)'' [label, meth])
                 | Some stack \<Rightarrow> Inr (nmIface\<lparr>ni_IPv6 := Some stack\<rparr>))
         else Inr nmIface) (\<lambda>nm.
        if genMode \<noteq> [] then
          (if \<not> validIPv6AddrGenMode genMode then
             Inl (Errf ''host interface %s has invalid ipv6_addr_gen_mode %q (want eui64 or stable-privacy)'' [label, genMode])
           else case ni_IPv6 nm of
                  None \<Rightarrow> Inl (Errf ''host interface %s sets ipv6_addr_gen_mode %q but IPv6 is not enabled; set ipv6_method or a static IPv6 ip_address'' [label, genMode])
                | Some stack \<Rightarrow>
                    if \<not> ns_Enabled stack then
                      Inl (Errf ''host interface %s sets ipv6_addr_gen_mode %q but IPv6 is not enabled; set ipv6_method or a static IPv6 ip_address'' [label, genMode])
                    else Inr (nm\<lparr>ni_IPv6 := Some (stack\<lparr>ns_AddrGenMode := genMode\<rparr>)\<rparr>))
        else Inr nm))"

section \<open>VLANs and bonds\<close>

definition interfaceVLAN :: "InterfaceConfig \<Rightarrow> string \<Rightarrow> string \<Rightarrow> nmVLAN option res" where
  "interfaceVLAN iface label ifaceType =
     (if ifaceType = ''vlan'' then
        (case if_VLAN iface of
           None \<Rightarrow> Inl (Errf ''host interface %s is type vlan but has no vlan settings'' [label])
         | Some v \<Rightarrow>
             (let base = TrimSpace (vl_BaseInterface v) in
              if base = [] then Inl (Errf ''host interface %s vlan is missing base_interface'' [label])
              else if vl_ID v < 1 \<or> 4094 < vl_ID v then
                Inl (Errf ''host interface %s vlan id %d must be between 1 and 4094'' [label, Itoa (vl_ID v)])
              else Inr (Some \<lparr>nv_BaseIface = base, nv_ID = vl_ID v\<rparr>)))
      else if if_VLAN iface \<noteq> None then
        Inl (Errf ''host interface %s sets vlan settings but type is %q, not vlan'' [label, ifaceType])
      else Inr None)"

definition validBondModes :: "string list" where
  "validBondModes = [''balance-rr'', ''active-backup'', ''balance-xor'', ''broadcast'', ''802.3ad'',
     ''balance-tlb'', ''balance-alb'']"

definition primarySupportingBondModes :: "string list" where
  "primarySupportingBondModes = [''active-backup'', ''balance-tlb'', ''balance-alb'']"

text \<open>The member loop of \<open>buildBond\<close>; \<open>ports\<close> doubles as the set of members seen.\<close>

fun bond_ports :: "string \<Rightarrow> string \<Rightarrow> nat \<Rightarrow> string list \<Rightarrow> string list \<Rightarrow> string list res" where
  "bond_ports self label i [] ports = Inr ports"
| "bond_ports self label i (raw # raws) ports =
     (let port = TrimSpace raw in
      if port = [] then Inl (Errf ''host interface %s bond port #%d is empty'' [label, nat_string 10 i])
      else if port = self then Inl (Errf ''host interface %s bond cannot list itself %q as a port'' [label, port])
      else if port \<in> set ports then Inl (Errf ''host interface %s bond lists port %q more than once'' [label, port])
      else bond_ports self label (Suc i) raws (ports @ [port]))"

definition buildBondOptions :: "BondConfig \<Rightarrow> string \<Rightarrow> string \<Rightarrow> string list \<Rightarrow> nmBondOptions option res" where
  "buildBondOptions bond mode label ports =
     res_bind
       (case bo_Miimon bond of
          None \<Rightarrow> Inr None
        | Some m \<Rightarrow>
            if m < 0 \<or> max_u32 < m then
              Inl (Errf ''host interface %s bond miimon %d must be between 0 and %d'' [label, Itoa m, Itoa max_u32])
            else Inr (Some \<lparr>nb_Miimon = Some m, nb_Primary = []\<rparr>)) (\<lambda>opts.
     let primary = TrimSpace (bo_Primary bond) in
     if primary \<noteq> [] then
       (if mode \<notin> set primarySupportingBondModes then
          Inl (Errf ''host interface %s bond primary %q is only valid for modes active-backup, balance-tlb, or balance-alb (got %q)'' [label, primary, mode])
        else if primary \<notin> set ports then
          Inl (Errf ''host interface %s bond primary %q is not listed in ports'' [label, primary])
        else case opts of
               None \<Rightarrow> Inr (Some \<lparr>nb_Miimon = None, nb_Primary = primary\<rparr>)
             | Some o' \<Rightarrow> Inr (Some (o'\<lparr>nb_Primary := primary\<rparr>)))
     else Inr opts)"

definition buildBond :: "InterfaceConfig \<Rightarrow> BondConfig \<Rightarrow> string \<Rightarrow> nmLinkAggregation res" where
  "buildBond iface bond label =
     (let mode = TrimSpace (bo_Mode bond) in
      if mode = [] then Inl (Errf ''host interface %s bond is missing mode'' [label])
      else if mode \<notin> set validBondModes then
        Inl (Errf ''host interface %s bond has invalid mode %q (want balance-rr, active-backup, balance-xor, broadcast, 802.3ad, balance-tlb, or balance-alb)'' [label, bo_Mode bond])
      else if bo_Ports bond = [] then Inl (Errf ''host interface %s bond must list at least one port'' [label])
      else res_bind (bond_ports (if_Name iface) label 0 (bo_Ports bond) []) (\<lambda>ports.
           res_bind (buildBondOptions bond mode label ports) (\<lambda>options.
           Inr \<lparr>nl_Mode = mode, nl_Port = ports, nl_Options = options\<rparr>)))"

definition interfaceBond :: "InterfaceConfig \<Rightarrow> string \<Rightarrow> string \<Rightarrow> nmLinkAggregation option res" where
  "interfaceBond iface label ifaceType =
     (if ifaceType = ''bond'' then
        (case if_Bond iface of
           None \<Rightarrow> Inl (Errf ''host interface %s is type bond but has no bond settings'' [label])
         | Some b \<Rightarrow> res_bind (buildBond iface b label) (\<lambda>agg. Inr (Some agg)))
      else if if_Bond iface \<noteq> None then
        Inl (Errf ''host interface %s sets bond settings but type is %q, not bond'' [label, ifaceType])
      else Inr None)"

section \<open>Interfaces, routes, resolvers\<close>

definition interface_type :: "InterfaceConfig \<Rightarrow> string" where
  "interface_type iface = (if TrimSpace (if_Type iface) = [] then ''ethernet'' else TrimSpace (if_Type iface))"

definition buildNMInterface :: "InterfaceConfig \<Rightarrow> string \<Rightarrow> nmInterface res" where
  "buildNMInterface iface label =
     (if if_Name iface = [] then Inl (Errf ''host interface %s is missing name'' [label])
      else res_bind (validateMTU iface label) (\<lambda>_.
           res_bind (validateTxQueueLen iface label) (\<lambda>_.
           if (if_IPAddress iface = []) \<noteq> (if_Subnet iface = []) then
             Inl (Errf ''host interface %q must set both ip_address and subnet'' [if_Name iface])
           else
             (let ifaceType = interface_type iface;
                  nm0 = \<lparr>ni_Name = if_Name iface, ni_Type = ifaceType, ni_State = ''up'',
                         ni_MTU = if_MTU iface, ni_IPv4 = None, ni_IPv6 = None, ni_VLAN = None,
                         ni_LinkAggregation = None\<rparr>
              in res_bind (interfaceVLAN iface label ifaceType) (\<lambda>vlan.
                 res_bind (interfaceBond iface label ifaceType) (\<lambda>bond.
                 res_bind (applyStaticAddress (nm0\<lparr>ni_VLAN := vlan, ni_LinkAggregation := bond\<rparr>) iface label) (\<lambda>nm1.
                 res_bind (applyIPv4Settings nm1 iface label) (\<lambda>nm2.
                 applyIPv6Settings nm2 iface label))))))))"

definition gatewayRoute :: "InterfaceConfig \<Rightarrow> string \<Rightarrow> nmRoute option res" where
  "gatewayRoute iface label =
     (if if_Gateway iface = [] then Inr None
      else case parseAddr (if_Gateway iface) of
             None \<Rightarrow> Inl (Errf ''invalid gateway %q for host interface %s'' [if_Gateway iface, label])
           | Some gateway \<Rightarrow>
               Inr (Some \<lparr>nr_Destination = (if To4 gateway = None then ''::/0'' else ''0.0.0.0/0''),
                          nr_NextHopAddress = IPString gateway, nr_NextHopInterface = if_Name iface,
                          nr_TableID = None, nr_Metric = None\<rparr>))"

definition routeLabel :: "RouteConfig \<Rightarrow> nat \<Rightarrow> string" where
  "routeLabel route i =
     (if TrimSpace (ro_Name route) \<noteq> [] then TrimSpace (ro_Name route)
      else labelOrIndex (ro_Destination route) i)"

definition buildNMRoute :: "RouteConfig \<Rightarrow> string \<Rightarrow> nmRoute res" where
  "buildNMRoute route label =
     (let destination = TrimSpace (ro_Destination route) in
      if destination = [] then Inl (Errf ''route %s is missing destination'' [label])
      else case ParsePrefix destination of
             None \<Rightarrow> Inl (Errf ''route %s has invalid destination %q: want a CIDR network such as 0.0.0.0/0 or 10.0.0.0/8'' [label, ro_Destination route])
           | Some pfx \<Rightarrow>
               (let iface = TrimSpace (ro_NextHopInterface route);
                    nextHop = TrimSpace (ro_NextHopAddress route) in
                if iface = [] then Inl (Errf ''route %s is missing next_hop_interface'' [label])
                else res_bind
                  (if nextHop \<noteq> [] then
                     (case ParseAddr nextHop of
                        None \<Rightarrow> Inl (Errf ''route %s has invalid next_hop_address %q'' [label, ro_NextHopAddress route])
                      | Some gateway \<Rightarrow>
                          if Is4 gateway \<noteq> Is4 (fst pfx) then
                            Inl (Errf ''route %s next_hop_address %q and destination %q are different IP families'' [label, ro_NextHopAddress route, ro_Destination route])
                          else Inr (AddrString gateway))
                   else Inr []) (\<lambda>hop.
                res_bind (validateRouteUint32 (ro_TableID route) ''table_id'' label) (\<lambda>_.
                res_bind (validateRouteUint32 (ro_Metric route) ''metric'' label) (\<lambda>_.
                Inr \<lparr>nr_Destination = PrefixString (Masked pfx), nr_NextHopAddress = hop,
                     nr_NextHopInterface = iface, nr_TableID = ro_TableID route,
                     nr_Metric = ro_Metric route\<rparr>)))))"

text \<open>
  \<open>appendInterfaceDNS\<close> threads the set of servers seen (shared by the caller across
  interfaces) and the list of servers.
\<close>

fun appendInterfaceDNS ::
    "string list \<Rightarrow> string \<Rightarrow> string list \<Rightarrow> string list \<Rightarrow> (string list \<times> string list) res" where
  "appendInterfaceDNS [] label seen servers = Inr (seen, servers)"
| "appendInterfaceDNS (dns # rest) label seen servers =
     (case parseAddr dns of
        None \<Rightarrow> Inl (Errf ''invalid dns server %q for host interface %s'' [dns, label])
      | Some dnsIP \<Rightarrow>
          (let key = IPString dnsIP in
           if key \<in> set seen then appendInterfaceDNS rest label seen servers
           else appendInterfaceDNS rest label (key # seen) (servers @ [key])))"

definition appendRoute :: "nmState \<Rightarrow> nmRoute \<Rightarrow> nmState" where
  "appendRoute state route =
     state\<lparr>st_Routes := Some ((case st_Routes state of None \<Rightarrow> [] | Some rs \<Rightarrow> rs) @ [route])\<rparr>"

text \<open>The two loops of \<open>buildNMState\<close>, over the indexed interfaces and over the indexed routes.\<close>

fun build_interfaces ::
    "(nat \<times> InterfaceConfig) list \<Rightarrow> nmState \<Rightarrow> string list \<Rightarrow> string list \<Rightarrow> (nmState \<times> string list) res" where
  "build_interfaces [] state seenDNS dnsServers = Inr (state, dnsServers)"
| "build_interfaces ((i, iface) # rest) state seenDNS dnsServers =
     (let label = labelOrIndex (if_Name iface) i in
      res_bind (buildNMInterface iface label) (\<lambda>nmIface.
      let state1 = state\<lparr>st_Interfaces := st_Interfaces state @ [nmIface]\<rparr> in
      res_bind (gatewayRoute iface label) (\<lambda>route.
      let state2 = (case route of None \<Rightarrow> state1 | Some r \<Rightarrow> appendRoute state1 r) in
      res_bind (appendInterfaceDNS (if_DNS iface) label seenDNS dnsServers) (\<lambda>(seen, servers).
      build_interfaces rest state2 seen servers))))"

fun build_routes :: "(nat \<times> RouteConfig) list \<Rightarrow> nmState \<Rightarrow> nmState res" where
  "build_routes [] state = Inr state"
| "build_routes ((i, route) # rest) state =
     res_bind (buildNMRoute route (routeLabel route i)) (\<lambda>r. build_routes rest (appendRoute state r))"

definition buildNMState :: "InterfaceConfig list \<Rightarrow> RouteConfig list \<Rightarrow> nmState res" where
  "buildNMState interfaces routes =
     res_bind (build_interfaces (enumerate 0 interfaces)
       \<lparr>st_Interfaces = [], st_Routes = None, st_DNSResolver = None\<rparr> [] []) (\<lambda>(state, dnsServers).
     res_bind (build_routes (enumerate 0 routes) state) (\<lambda>state1.
     Inr (state1\<lparr>st_DNSResolver := Some dnsServers\<rparr>)))"

section \<open>The whole validation\<close>

text \<open>\<open>validateConfig\<close> of \<open>config.go\<close>.\<close>

definition podmanRootfulMode :: string where
  "podmanRootfulMode = ''rootful''"

definition validateConfig :: "users \<Rightarrow> Config \<Rightarrow> unit res" where
  "validateConfig us cfg =
     (let mode = TrimSpace (cf_PodmanMode cfg) in
      if mode \<noteq> [] \<and> mode \<noteq> podmanRootfulMode then
        Inl (Errf ''podman_mode must be %q or empty'' [podmanRootfulMode])
      else res_bind (validateHostname (cf_Hostname cfg)) (\<lambda>_.
           res_bind (validateFolders us (cf_Folders cfg)) (\<lambda>_.
           res_bind (validateFiles us (cf_Files cfg)) (\<lambda>_.
           res_bind (buildNMState (cf_Interfaces cfg) (cf_Routes cfg)) (\<lambda>_.
           res_bind (validateFirewallPortConfigs (cf_FirewallPorts cfg)) (\<lambda>_.
           validateContainers (cf_Containers cfg)))))))"


section \<open>What the translation produces\<close>

text \<open>The values of a list in the order of their first occurrence.\<close>

definition first_seen :: "'a list \<Rightarrow> 'a list" where
  "first_seen xs = rev (remdups (rev xs))"

lemma first_seen_simps [simp]:
  "first_seen [] = []"
  "first_seen (xs @ [x]) = (if x \<in> set xs then first_seen xs else first_seen xs @ [x])"
  by (simp_all add: first_seen_def)

lemma set_first_seen [simp]: "set (first_seen xs) = set xs"
  by (simp add: first_seen_def)

lemma distinct_first_seen [simp]: "distinct (first_seen xs)"
  by (simp add: first_seen_def)

subsection \<open>Resolvers\<close>

definition dns_key :: "string \<Rightarrow> string" where
  "dns_key dns = IPString (the (parseAddr dns))"

lemma appendInterfaceDNS_Inr:
  assumes "appendInterfaceDNS dns label seen servers = Inr (seen', servers')"
    and "set seen = set xs" and "servers = first_seen xs"
  shows "set seen' = set (xs @ map dns_key dns) \<and> servers' = first_seen (xs @ map dns_key dns) \<and>
    (\<forall>d \<in> set dns. parseAddr d \<noteq> None)"
  using assms
proof (induction dns label seen servers arbitrary: xs rule: appendInterfaceDNS.induct)
  case (1 label seen servers)
  then show ?case by simp
next
  case (2 d rest label seen servers)
  obtain ip where ip: "parseAddr d = Some ip"
    using "2.prems"(1) by (cases "parseAddr d") auto
  have key: "dns_key d = IPString ip" by (simp add: dns_key_def ip)
  show ?case
  proof (cases "IPString ip \<in> set seen")
    case True
    then have "set seen = set (xs @ [dns_key d])" "servers = first_seen (xs @ [dns_key d])"
      using "2.prems"(2,3) key by auto
    moreover have "appendInterfaceDNS rest label seen servers = Inr (seen', servers')"
      using "2.prems"(1) ip True by (simp add: Let_def)
    ultimately show ?thesis
      using "2.IH"(1) [OF ip refl True, of "xs @ [dns_key d]"] ip by simp
  next
    case False
    then have "set (IPString ip # seen) = set (xs @ [dns_key d])"
        "servers @ [IPString ip] = first_seen (xs @ [dns_key d])"
      using "2.prems"(2,3) key by auto
    moreover have "appendInterfaceDNS rest label (IPString ip # seen) (servers @ [IPString ip])
        = Inr (seen', servers')"
      using "2.prems"(1) ip False by (simp add: Let_def)
    ultimately show ?thesis
      using "2.IH"(2) [OF ip refl False, of "xs @ [dns_key d]"] ip by simp
  qed
qed

subsection \<open>The two loops\<close>

definition routes_of :: "nmState \<Rightarrow> nmRoute list" where
  "routes_of st = (case st_Routes st of None \<Rightarrow> [] | Some rs \<Rightarrow> rs)"

lemma appendRoute_fields [simp]:
  "st_Interfaces (appendRoute st r) = st_Interfaces st"
  "st_DNSResolver (appendRoute st r) = st_DNSResolver st"
  "routes_of (appendRoute st r) = routes_of st @ [r]"
  by (simp_all add: appendRoute_def routes_of_def split: option.splits)

definition gateways :: "(nat \<times> InterfaceConfig) list \<Rightarrow> nmRoute list" where
  "gateways ifs = concat (map (\<lambda>(i, f).
     case gatewayRoute f (labelOrIndex (if_Name f) i) of Inr (Some r) \<Rightarrow> [r] | _ \<Rightarrow> []) ifs)"

lemma build_interfaces_Inr:
  assumes "build_interfaces ifs st seen servers = Inr (st', servers')"
    and "set seen = set xs" and "servers = first_seen xs"
  shows "map Inr (st_Interfaces st') = map Inr (st_Interfaces st) @
      map (\<lambda>(i, f). buildNMInterface f (labelOrIndex (if_Name f) i)) ifs \<and>
    routes_of st' = routes_of st @ gateways ifs \<and>
    servers' = first_seen (xs @ concat (map (\<lambda>(i, f). map dns_key (if_DNS f)) ifs))"
  using assms
proof (induction ifs st seen servers arbitrary: xs rule: build_interfaces.induct)
  case (1 st seen servers)
  then show ?case by (simp add: gateways_def)
next
  case (2 i f rest st seen servers)
  let ?l = "labelOrIndex (if_Name f) i"
  obtain n where n: "buildNMInterface f ?l = Inr n"
    using "2.prems"(1) by (auto simp: Let_def res_bind_Inr_iff)
  obtain g where g: "gatewayRoute f ?l = Inr g"
    using "2.prems"(1) n by (auto simp: Let_def res_bind_Inr_iff)
  define st1 where "st1 = st\<lparr>st_Interfaces := st_Interfaces st @ [n]\<rparr>"
  define st2 where "st2 = (case g of None \<Rightarrow> st1 | Some r \<Rightarrow> appendRoute st1 r)"
  obtain sn sv where d: "appendInterfaceDNS (if_DNS f) ?l seen servers = Inr (sn, sv)"
    and rest: "build_interfaces rest st2 sn sv = Inr (st', servers')"
    unfolding st2_def st1_def using "2.prems"(1) n g by (auto simp: Let_def res_bind_Inr_iff)
  have sn: "set sn = set (xs @ map dns_key (if_DNS f))" "sv = first_seen (xs @ map dns_key (if_DNS f))"
    using appendInterfaceDNS_Inr [OF d "2.prems"(2,3)] by auto
  have ifs2: "st_Interfaces st2 = st_Interfaces st @ [n]"
    by (simp add: st2_def st1_def split: option.splits)
  have routes2: "routes_of st2 = routes_of st @ (case g of None \<Rightarrow> [] | Some r \<Rightarrow> [r])"
    by (simp add: st2_def st1_def routes_of_def appendRoute_def split: option.splits)
  have "gateways ((i, f) # rest) = (case g of None \<Rightarrow> [] | Some r \<Rightarrow> [r]) @ gateways rest"
    by (simp add: gateways_def g split: option.splits)
  with "2.IH" [OF refl st1_def st2_def rest sn] ifs2 routes2 n
  show ?case by simp
qed

lemma build_routes_Inr:
  assumes "build_routes rts st = Inr st'"
  shows "st_Interfaces st' = st_Interfaces st \<and>
    map Inr (routes_of st') = map Inr (routes_of st) @
      map (\<lambda>(i, r). buildNMRoute r (routeLabel r i)) rts"
  using assms
  by (induction rts st rule: build_routes.induct) (auto simp: res_bind_Inr_iff)


subsection \<open>One interface\<close>

text \<open>
  The IP stacks an interface must end with: the method decides when one is declared, otherwise
  the static address when it is of the family.
\<close>

definition static_stack :: "InterfaceConfig \<Rightarrow> bool \<Rightarrow> nmIPStack option" where
  "static_stack f v4 =
     (if if_IPAddress f = [] then None
      else case parseInterfaceAddress (if_IPAddress f) (if_Subnet f) of
             Inl _ \<Rightarrow> None
           | Inr (ip, n) \<Rightarrow>
               if (To4 ip \<noteq> None) = v4
               then Some \<lparr>ns_Enabled = True, ns_DHCP = False, ns_Autoconf = None, ns_AddrGenMode = [],
                          ns_Addresses = [\<lparr>na_IP = IPString ip, na_PrefixLength = n\<rparr>]\<rparr>
               else None)"

definition ipv4_stack :: "InterfaceConfig \<Rightarrow> nmIPStack option" where
  "ipv4_stack f = (if TrimSpace (if_IPv4Method f) = [] then static_stack f True
     else ipv4MethodStack (TrimSpace (if_IPv4Method f)))"

definition ipv6_stack :: "InterfaceConfig \<Rightarrow> nmIPStack option" where
  "ipv6_stack f =
     (let base = (if TrimSpace (if_IPv6Method f) = [] then static_stack f False
                  else ipv6MethodStack (TrimSpace (if_IPv6Method f)))
      in if TrimSpace (if_IPv6AddrGenMode f) = [] then base
         else map_option (ns_AddrGenMode_update (\<lambda>_. TrimSpace (if_IPv6AddrGenMode f))) base)"

lemma applyStaticAddress_Inr:
  assumes "applyStaticAddress nm f label = Inr nm'" "ni_IPv4 nm = None" "ni_IPv6 nm = None"
  shows "nm' = nm\<lparr>ni_IPv4 := static_stack f True, ni_IPv6 := static_stack f False\<rparr>"
  using assms
  by (cases nm) (auto simp: applyStaticAddress_def static_stack_def res_bind_Inr_iff Let_def split: if_splits)

lemma applyIPv4Settings_Inr:
  assumes "applyIPv4Settings nm f label = Inr nm'"
  shows "nm' = nm\<lparr>ni_IPv4 := (if TrimSpace (if_IPv4Method f) = [] then ni_IPv4 nm
            else ipv4MethodStack (TrimSpace (if_IPv4Method f)))\<rparr> \<and>
    (TrimSpace (if_IPv4Method f) = [] \<or> ni_IPv4 nm = None \<and> ipv4MethodStack (TrimSpace (if_IPv4Method f)) \<noteq> None)"
  using assms by (auto simp: applyIPv4Settings_def Let_def split: if_splits option.splits)

lemma applyIPv6Settings_Inr:
  assumes "applyIPv6Settings nm f label = Inr nm'"
  shows "nm' = nm\<lparr>ni_IPv6 :=
      (let base = (if TrimSpace (if_IPv6Method f) = [] then ni_IPv6 nm
                   else ipv6MethodStack (TrimSpace (if_IPv6Method f)))
       in if TrimSpace (if_IPv6AddrGenMode f) = [] then base
          else map_option (ns_AddrGenMode_update (\<lambda>_. TrimSpace (if_IPv6AddrGenMode f))) base)\<rparr> \<and>
    (TrimSpace (if_IPv6Method f) = [] \<or> ni_IPv6 nm = None \<and> ipv6MethodStack (TrimSpace (if_IPv6Method f)) \<noteq> None) \<and>
    (TrimSpace (if_IPv6AddrGenMode f) = [] \<or> validIPv6AddrGenMode (TrimSpace (if_IPv6AddrGenMode f)))"
  using assms
  by (auto simp: applyIPv6Settings_def Let_def res_bind_Inr_iff split: if_splits option.splits)

lemma buildNMInterface_Inr:
  assumes "buildNMInterface f label = Inr n"
  obtains vlan bond where
    "interfaceVLAN f label (interface_type f) = Inr vlan"
    "interfaceBond f label (interface_type f) = Inr bond"
    "n = \<lparr>ni_Name = if_Name f, ni_Type = interface_type f, ni_State = ''up'', ni_MTU = if_MTU f,
          ni_IPv4 = ipv4_stack f, ni_IPv6 = ipv6_stack f, ni_VLAN = vlan, ni_LinkAggregation = bond\<rparr>"
    "if_Name f \<noteq> []" "validateMTU f label = Inr ()" "validateTxQueueLen f label = Inr ()"
    "(if_IPAddress f = []) = (if_Subnet f = [])"
    "TrimSpace (if_IPv4Method f) = [] \<or> static_stack f True = None"
    "TrimSpace (if_IPv6Method f) = [] \<or> static_stack f False = None"
proof -
  let ?nm0 = "\<lambda>v b. \<lparr>ni_Name = if_Name f, ni_Type = interface_type f, ni_State = ''up'',
     ni_MTU = if_MTU f, ni_IPv4 = None, ni_IPv6 = None, ni_VLAN = v, ni_LinkAggregation = b\<rparr>"
  obtain v b n1 n2 where v: "interfaceVLAN f label (interface_type f) = Inr v"
    and b: "interfaceBond f label (interface_type f) = Inr b"
    and n1: "applyStaticAddress (?nm0 v b) f label = Inr n1"
    and n2: "applyIPv4Settings n1 f label = Inr n2" and n3: "applyIPv6Settings n2 f label = Inr n"
    and g: "if_Name f \<noteq> []" "validateMTU f label = Inr ()" "validateTxQueueLen f label = Inr ()"
      "(if_IPAddress f = []) = (if_Subnet f = [])"
    using assms by (auto simp: buildNMInterface_def Let_def res_bind_Inr_iff split: if_splits)
  have e1: "n1 = (?nm0 v b)\<lparr>ni_IPv4 := static_stack f True, ni_IPv6 := static_stack f False\<rparr>"
    by (rule applyStaticAddress_Inr [OF n1]) simp_all
  show ?thesis
    using v b g applyIPv4Settings_Inr [OF n2] applyIPv6Settings_Inr [OF n3] e1
    by (intro that [of v b]) (auto simp: ipv4_stack_def ipv6_stack_def Let_def)
qed

subsection \<open>VLANs and bonds\<close>

lemma interfaceVLAN_Inr:
  assumes "interfaceVLAN f label ty = Inr v"
  shows "(v \<noteq> None \<longleftrightarrow> ty = ''vlan'') \<and> (case v of None \<Rightarrow> if_VLAN f = None
    | Some w \<Rightarrow> nv_BaseIface w \<noteq> [] \<and> 1 \<le> nv_ID w \<and> nv_ID w \<le> 4094 \<and>
        map_option (\<lambda>c. (TrimSpace (vl_BaseInterface c), vl_ID c)) (if_VLAN f) = Some (nv_BaseIface w, nv_ID w))"
  using assms by (auto simp: interfaceVLAN_def Let_def split: if_splits option.splits)

lemma bond_ports_Inr:
  assumes "bond_ports self label i raws ports = Inr ports'" "distinct ports"
    "[] \<notin> set ports" "self \<notin> set ports"
  shows "ports' = ports @ map TrimSpace raws \<and> distinct ports' \<and> [] \<notin> set ports' \<and> self \<notin> set ports'"
  using assms
  by (induction self label i raws ports rule: bond_ports.induct)
     (auto 5 4 simp: Let_def disjoint_iff image_iff split: if_splits)

definition wf_bond :: "string \<Rightarrow> BondConfig \<Rightarrow> nmLinkAggregation \<Rightarrow> bool" where
  "wf_bond self b agg \<longleftrightarrow>
     nl_Mode agg = TrimSpace (bo_Mode b) \<and> nl_Mode agg \<in> set validBondModes \<and>
     nl_Port agg = map TrimSpace (bo_Ports b) \<and> nl_Port agg \<noteq> [] \<and> distinct (nl_Port agg) \<and>
     [] \<notin> set (nl_Port agg) \<and> self \<notin> set (nl_Port agg) \<and>
     (case nl_Options agg of
        None \<Rightarrow> bo_Miimon b = None \<and> TrimSpace (bo_Primary b) = []
      | Some opts \<Rightarrow>
          nb_Miimon opts = bo_Miimon b \<and>
          pred_option (\<lambda>m. 0 \<le> m \<and> m \<le> max_u32) (nb_Miimon opts) \<and>
          nb_Primary opts = TrimSpace (bo_Primary b) \<and>
          (if nb_Primary opts = [] then nb_Miimon opts \<noteq> None
           else nb_Primary opts \<in> set (nl_Port agg) \<and>
                nl_Mode agg \<in> set primarySupportingBondModes))"

lemma buildBondOptions_Inr:
  assumes "buildBondOptions b mode label ports = Inr opts"
  shows "case opts of
        None \<Rightarrow> bo_Miimon b = None \<and> TrimSpace (bo_Primary b) = []
      | Some o' \<Rightarrow> nb_Miimon o' = bo_Miimon b \<and>
          pred_option (\<lambda>m. 0 \<le> m \<and> m \<le> max_u32) (nb_Miimon o') \<and>
          nb_Primary o' = TrimSpace (bo_Primary b) \<and>
          (if nb_Primary o' = [] then nb_Miimon o' \<noteq> None
           else nb_Primary o' \<in> set ports \<and> mode \<in> set primarySupportingBondModes)"
  using assms
  by (auto simp: buildBondOptions_def Let_def res_bind_Inr_iff split: if_splits option.splits)

lemma buildBond_Inr:
  assumes "buildBond f b label = Inr agg"
  shows "wf_bond (if_Name f) b agg"
proof -
  obtain ports opts where p: "bond_ports (if_Name f) label 0 (bo_Ports b) [] = Inr ports"
    and o: "buildBondOptions b (TrimSpace (bo_Mode b)) label ports = Inr opts"
    and agg: "agg = \<lparr>nl_Mode = TrimSpace (bo_Mode b), nl_Port = ports, nl_Options = opts\<rparr>"
    and m: "TrimSpace (bo_Mode b) \<in> set validBondModes" "bo_Ports b \<noteq> []"
    using assms by (auto simp: buildBond_def Let_def res_bind_Inr_iff split: if_splits)
  show ?thesis
    using bond_ports_Inr [OF p] buildBondOptions_Inr [OF o] m
    unfolding agg wf_bond_def by (cases opts) auto
qed

lemma interfaceBond_Inr:
  assumes "interfaceBond f label ty = Inr v"
  shows "(v \<noteq> None \<longleftrightarrow> ty = ''bond'') \<and> (case v of None \<Rightarrow> if_Bond f = None
    | Some agg \<Rightarrow> (\<exists>b. if_Bond f = Some b \<and> wf_bond (if_Name f) b agg))"
  using assms
  by (auto simp: interfaceBond_def res_bind_Inr_iff buildBond_Inr split: if_splits option.splits)


section \<open>What the translation accepts\<close>

definition valid_vlan :: "InterfaceConfig \<Rightarrow> bool" where
  "valid_vlan f \<longleftrightarrow>
     (if interface_type f = ''vlan'' then
        (case if_VLAN f of None \<Rightarrow> False
         | Some v \<Rightarrow> TrimSpace (vl_BaseInterface v) \<noteq> [] \<and> 1 \<le> vl_ID v \<and> vl_ID v \<le> 4094)
      else if_VLAN f = None)"

definition valid_bond_config :: "string \<Rightarrow> BondConfig \<Rightarrow> bool" where
  "valid_bond_config self b \<longleftrightarrow>
     TrimSpace (bo_Mode b) \<in> set validBondModes \<and>
     (let ports = map TrimSpace (bo_Ports b) in
      ports \<noteq> [] \<and> distinct ports \<and> [] \<notin> set ports \<and> self \<notin> set ports \<and>
      pred_option (\<lambda>m. 0 \<le> m \<and> m \<le> max_u32) (bo_Miimon b) \<and>
      (TrimSpace (bo_Primary b) = [] \<or>
       TrimSpace (bo_Mode b) \<in> set primarySupportingBondModes \<and> TrimSpace (bo_Primary b) \<in> set ports))"

definition valid_bond :: "InterfaceConfig \<Rightarrow> bool" where
  "valid_bond f \<longleftrightarrow>
     (if interface_type f = ''bond'' then
        (case if_Bond f of None \<Rightarrow> False | Some b \<Rightarrow> valid_bond_config (if_Name f) b)
      else if_Bond f = None)"

definition valid_stacks :: "InterfaceConfig \<Rightarrow> bool" where
  "valid_stacks f \<longleftrightarrow>
     (if_IPAddress f = []) = (if_Subnet f = []) \<and>
     (if_IPAddress f = [] \<or> is_ok (parseInterfaceAddress (if_IPAddress f) (if_Subnet f))) \<and>
     (TrimSpace (if_IPv4Method f) = [] \<or>
      static_stack f True = None \<and> ipv4MethodStack (TrimSpace (if_IPv4Method f)) \<noteq> None) \<and>
     (TrimSpace (if_IPv6Method f) = [] \<or>
      static_stack f False = None \<and> ipv6MethodStack (TrimSpace (if_IPv6Method f)) \<noteq> None) \<and>
     (TrimSpace (if_IPv6AddrGenMode f) = [] \<or>
      validIPv6AddrGenMode (TrimSpace (if_IPv6AddrGenMode f)) \<and>
      (case ipv6_stack f of None \<Rightarrow> False | Some st \<Rightarrow> ns_Enabled st))"

definition valid_interface :: "InterfaceConfig \<Rightarrow> bool" where
  "valid_interface f \<longleftrightarrow>
     if_Name f \<noteq> [] \<and> pred_option (\<lambda>m. 1 \<le> m \<and> m \<le> max_u32) (if_MTU f) \<and>
     pred_option (\<lambda>q. 0 \<le> q \<and> q \<le> max_u32) (if_TxQueueLen f) \<and>
     valid_vlan f \<and> valid_bond f \<and> valid_stacks f \<and>
     (if_Gateway f = [] \<or> parseAddr (if_Gateway f) \<noteq> None) \<and>
     list_all (\<lambda>d. parseAddr d \<noteq> None) (if_DNS f)"

lemma interfaceVLAN_ok: "is_ok (interfaceVLAN f l (interface_type f)) \<longleftrightarrow> valid_vlan f"
  by (auto simp: interfaceVLAN_def valid_vlan_def Let_def split: option.splits)

lemma bond_ports_ok:
  "is_ok (bond_ports self label i raws ports) \<longleftrightarrow>
     distinct (map TrimSpace raws) \<and> [] \<notin> set (map TrimSpace raws) \<and> self \<notin> set (map TrimSpace raws) \<and>
     set ports \<inter> set (map TrimSpace raws) = {}"
  by (induction self label i raws ports rule: bond_ports.induct) (auto simp: Let_def)

lemma buildBondOptions_ok:
  "is_ok (buildBondOptions b mode label ports) \<longleftrightarrow>
     pred_option (\<lambda>m. 0 \<le> m \<and> m \<le> max_u32) (bo_Miimon b) \<and>
     (TrimSpace (bo_Primary b) = [] \<or>
      mode \<in> set primarySupportingBondModes \<and> TrimSpace (bo_Primary b) \<in> set ports)"
  by (auto simp: buildBondOptions_def Let_def is_ok_bind split: option.splits)

lemma buildBond_ok: "is_ok (buildBond f b label) \<longleftrightarrow> valid_bond_config (if_Name f) b"
proof (cases "bond_ports (if_Name f) label 0 (bo_Ports b) []")
  case (Inl e)
  then have "\<not> is_ok (bond_ports (if_Name f) label 0 (bo_Ports b) [])" by simp
  then have "\<not> valid_bond_config (if_Name f) b"
    unfolding bond_ports_ok valid_bond_config_def Let_def by auto
  with Inl show ?thesis by (simp add: buildBond_def Let_def)
next
  case (Inr ps)
  then have ps: "ps = map TrimSpace (bo_Ports b)" "distinct ps" "[] \<notin> set ps" "if_Name f \<notin> set ps"
    using bond_ports_Inr [OF Inr] by auto
  have mode: "[] \<notin> set validBondModes" by (simp add: validBondModes_def)
  have empty: "ps = [] \<longleftrightarrow> bo_Ports b = []" using ps(1) by simp
  have "is_ok (res_bind (buildBondOptions b (TrimSpace (bo_Mode b)) label ps) (\<lambda>options. Inr (k options)))
      \<longleftrightarrow> is_ok (buildBondOptions b (TrimSpace (bo_Mode b)) label ps)" for k :: "_ \<Rightarrow> nmLinkAggregation"
    by (cases "buildBondOptions b (TrimSpace (bo_Mode b)) label ps") simp_all
  with Inr ps mode empty show ?thesis
    unfolding valid_bond_config_def Let_def ps(1) [symmetric]
    by (auto simp: buildBond_def Let_def buildBondOptions_ok)
qed

lemma interfaceBond_ok: "is_ok (interfaceBond f l (interface_type f)) \<longleftrightarrow> valid_bond f"
proof -
  have "is_ok (res_bind (buildBond f b l) (\<lambda>agg. Inr (Some agg))) \<longleftrightarrow> valid_bond_config (if_Name f) b" for b
    by (simp add: is_ok_bind buildBond_ok [symmetric, of f b l] is_ok_iff res_bind_Inr_iff)
  then show ?thesis by (simp add: interfaceBond_def valid_bond_def split: option.splits)
qed

lemma applyStaticAddress_ok:
  "is_ok (applyStaticAddress nm f l) \<longleftrightarrow>
     if_IPAddress f = [] \<or> is_ok (parseInterfaceAddress (if_IPAddress f) (if_Subnet f))"
  by (cases "parseInterfaceAddress (if_IPAddress f) (if_Subnet f)")
     (auto simp: applyStaticAddress_def Let_def)

lemma applyIPv4Settings_ok:
  "is_ok (applyIPv4Settings nm f l) \<longleftrightarrow> TrimSpace (if_IPv4Method f) = [] \<or>
     ni_IPv4 nm = None \<and> ipv4MethodStack (TrimSpace (if_IPv4Method f)) \<noteq> None"
  by (auto simp: applyIPv4Settings_def Let_def split: option.splits)

lemma applyIPv6Settings_ok:
  "is_ok (applyIPv6Settings nm f l) \<longleftrightarrow>
     (TrimSpace (if_IPv6Method f) = [] \<or>
      ni_IPv6 nm = None \<and> ipv6MethodStack (TrimSpace (if_IPv6Method f)) \<noteq> None) \<and>
     (TrimSpace (if_IPv6AddrGenMode f) = [] \<or>
      validIPv6AddrGenMode (TrimSpace (if_IPv6AddrGenMode f)) \<and>
      (case (if TrimSpace (if_IPv6Method f) = [] then ni_IPv6 nm
             else ipv6MethodStack (TrimSpace (if_IPv6Method f))) of
         None \<Rightarrow> False | Some st \<Rightarrow> ns_Enabled st))"
  by (auto simp: applyIPv6Settings_def Let_def is_ok_bind split: option.splits if_splits)

lemma ipv6_stack_enabled:
  "(case ipv6_stack f of None \<Rightarrow> False | Some st \<Rightarrow> ns_Enabled st) \<longleftrightarrow>
   (case (if TrimSpace (if_IPv6Method f) = [] then static_stack f False
             else ipv6MethodStack (TrimSpace (if_IPv6Method f))) of
         None \<Rightarrow> False | Some st \<Rightarrow> ns_Enabled st)"
  by (auto simp: ipv6_stack_def Let_def split: option.splits)

lemma buildNMInterface_ok:
  "is_ok (buildNMInterface f l) \<longleftrightarrow>
     if_Name f \<noteq> [] \<and> pred_option (\<lambda>m. 1 \<le> m \<and> m \<le> max_u32) (if_MTU f) \<and>
     pred_option (\<lambda>q. 0 \<le> q \<and> q \<le> max_u32) (if_TxQueueLen f) \<and>
     valid_vlan f \<and> valid_bond f \<and> valid_stacks f"
proof -
  have mtu: "is_ok (validateMTU f l) \<longleftrightarrow> pred_option (\<lambda>m. 1 \<le> m \<and> m \<le> max_u32) (if_MTU f)"
    by (auto simp: validateMTU_def split: option.splits)
  have txq: "is_ok (validateTxQueueLen f l) \<longleftrightarrow> pred_option (\<lambda>q. 0 \<le> q \<and> q \<le> max_u32) (if_TxQueueLen f)"
    by (auto simp: validateTxQueueLen_def split: option.splits)
  have stacks: "is_ok (res_bind (applyStaticAddress nm f l) (\<lambda>nm1.
      res_bind (applyIPv4Settings nm1 f l) (\<lambda>nm2. applyIPv6Settings nm2 f l))) \<and>
      (if_IPAddress f = []) = (if_Subnet f = []) \<longleftrightarrow> valid_stacks f"
    if "ni_IPv4 nm = None" "ni_IPv6 nm = None" for nm
  proof (cases "applyStaticAddress nm f l")
    case (Inl e)
    then show ?thesis using applyStaticAddress_ok [of nm f l] by (auto simp: valid_stacks_def)
  next
    case (Inr nm1)
    have e1: "nm1 = nm\<lparr>ni_IPv4 := static_stack f True, ni_IPv6 := static_stack f False\<rparr>"
      by (rule applyStaticAddress_Inr [OF Inr that])
    show ?thesis
    proof (cases "applyIPv4Settings nm1 f l")
      case (Inl e)
      then show ?thesis using applyIPv4Settings_ok [of nm1 f l] Inr e1 by (auto simp: valid_stacks_def)
    next
      case inr2: (Inr nm2)
      have "ni_IPv6 nm2 = static_stack f False" using applyIPv4Settings_Inr [OF inr2] e1 by simp
      then show ?thesis
        using applyIPv4Settings_ok [of nm1 f l] applyStaticAddress_ok [of nm f l] Inr inr2 e1
        by (auto simp: valid_stacks_def applyIPv6Settings_ok ipv6_stack_enabled)
    qed
  qed
  let ?nm0 = "\<lambda>v b. \<lparr>ni_Name = if_Name f, ni_Type = interface_type f, ni_State = ''up'',
     ni_MTU = if_MTU f, ni_IPv4 = None, ni_IPv6 = None, ni_VLAN = v, ni_LinkAggregation = b\<rparr>"
  have tail: "is_ok (res_bind (interfaceVLAN f l (interface_type f)) (\<lambda>vlan.
      res_bind (interfaceBond f l (interface_type f)) (\<lambda>bond.
      res_bind (applyStaticAddress (?nm0 vlan bond) f l) (\<lambda>nm1.
      res_bind (applyIPv4Settings nm1 f l) (\<lambda>nm2. applyIPv6Settings nm2 f l))))) \<and>
      (if_IPAddress f = []) = (if_Subnet f = []) \<longleftrightarrow> valid_vlan f \<and> valid_bond f \<and> valid_stacks f"
    using interfaceVLAN_ok [of f l] interfaceBond_ok [of f l] stacks [of "?nm0 _ _"]
    by (cases "interfaceVLAN f l (interface_type f)"; cases "interfaceBond f l (interface_type f)") auto
  show ?thesis
    unfolding tail [symmetric]
    by (cases "(if_IPAddress f = []) = (if_Subnet f = [])")
       (simp_all add: buildNMInterface_def Let_def mtu txq)
qed


definition valid_route :: "RouteConfig \<Rightarrow> bool" where
  "valid_route r \<longleftrightarrow>
     (case ParsePrefix (TrimSpace (ro_Destination r)) of
        None \<Rightarrow> False
      | Some p \<Rightarrow>
          TrimSpace (ro_NextHopInterface r) \<noteq> [] \<and>
          (TrimSpace (ro_NextHopAddress r) = [] \<or>
           (case ParseAddr (TrimSpace (ro_NextHopAddress r)) of
              None \<Rightarrow> False | Some a \<Rightarrow> Is4 a = Is4 (fst p)))) \<and>
     pred_option (\<lambda>v. 0 \<le> v \<and> v \<le> max_u32) (ro_TableID r) \<and>
     pred_option (\<lambda>v. 0 \<le> v \<and> v \<le> max_u32) (ro_Metric r)"

lemma ParsePrefix_Nil: "ParsePrefix [] = None"
  by (simp add: ParsePrefix_def Let_def)

lemma buildNMRoute_ok: "is_ok (buildNMRoute r l) \<longleftrightarrow> valid_route r"
proof -
  have u32: "is_ok (validateRouteUint32 v field l) \<longleftrightarrow> pred_option (\<lambda>v. 0 \<le> v \<and> v \<le> max_u32) v" for v field
    by (auto simp: validateRouteUint32_def split: option.splits)
  show ?thesis
    by (cases "TrimSpace (ro_Destination r) = []")
       (auto simp: buildNMRoute_def valid_route_def Let_def u32 ParsePrefix_Nil split: option.splits)
qed

lemma gatewayRoute_ok: "is_ok (gatewayRoute f l) \<longleftrightarrow> if_Gateway f = [] \<or> parseAddr (if_Gateway f) \<noteq> None"
  by (auto simp: gatewayRoute_def split: option.splits)

lemma appendInterfaceDNS_ok:
  "is_ok (appendInterfaceDNS dns l seen servers) \<longleftrightarrow> list_all (\<lambda>d. parseAddr d \<noteq> None) dns"
  by (induction dns l seen servers rule: appendInterfaceDNS.induct) (auto simp: Let_def split: option.splits)

lemma valid_interface_parts:
  "valid_interface f \<longleftrightarrow> is_ok (buildNMInterface f l) \<and> is_ok (gatewayRoute f l) \<and>
     list_all (\<lambda>d. parseAddr d \<noteq> None) (if_DNS f)"
  unfolding buildNMInterface_ok gatewayRoute_ok valid_interface_def by blast

lemma build_interfaces_ok:
  "is_ok (build_interfaces ifs st seen servers) \<longleftrightarrow> list_all (\<lambda>(i, f). valid_interface f) ifs"
proof (induction ifs st seen servers rule: build_interfaces.induct)
  case (1 st seen servers)
  then show ?case by simp
next
  case (2 i f rest st seen servers)
  let ?l = "labelOrIndex (if_Name f) i"
  show ?case
    using 2 [OF refl] valid_interface_parts [of f ?l] appendInterfaceDNS_ok [of "if_DNS f" ?l seen servers]
    by (cases "buildNMInterface f ?l"; cases "gatewayRoute f ?l";
        cases "appendInterfaceDNS (if_DNS f) ?l seen servers") (auto simp: Let_def)
qed

lemma build_routes_ok: "is_ok (build_routes rts st) \<longleftrightarrow> list_all (\<lambda>(i, r). valid_route r) rts"
proof (induction rts st rule: build_routes.induct)
  case (2 i r rest st)
  then show ?case
    using buildNMRoute_ok [of r "routeLabel r i"] by (cases "buildNMRoute r (routeLabel r i)") auto
qed simp

lemma list_all_enumerate: "list_all (\<lambda>(i, x). P x) (enumerate n xs) = list_all P xs"
  by (induction xs arbitrary: n) simp_all

lemma map_enumerate: "map (\<lambda>(i, x). g x) (enumerate n xs) = map g xs"
  by (induction xs arbitrary: n) simp_all

lemma buildNMState_Inr:
  assumes "buildNMState ifs rts = Inr st"
  shows "map Inr (st_Interfaces st) =
      map (\<lambda>(i, f). buildNMInterface f (labelOrIndex (if_Name f) i)) (enumerate 0 ifs)"
    and "\<exists>declared. routes_of st = gateways (enumerate 0 ifs) @ declared \<and>
      map Inr declared = map (\<lambda>(i, r). buildNMRoute r (routeLabel r i)) (enumerate 0 rts)"
    and "st_DNSResolver st = Some (first_seen (concat (map (\<lambda>f. map dns_key (if_DNS f)) ifs)))"
proof -
  let ?st0 = "\<lparr>st_Interfaces = [], st_Routes = None, st_DNSResolver = None\<rparr>"
  obtain st1 dns st2 where 1: "build_interfaces (enumerate 0 ifs) ?st0 [] [] = Inr (st1, dns)"
    and 2: "build_routes (enumerate 0 rts) st1 = Inr st2"
    and st: "st = st2\<lparr>st_DNSResolver := Some dns\<rparr>"
    using assms by (auto simp: buildNMState_def res_bind_Inr_iff)
  note i = build_interfaces_Inr [OF 1, of "[]", simplified] build_routes_Inr [OF 2]
  have "routes_of st = routes_of st2" "st_Interfaces st = st_Interfaces st2"
    by (simp_all add: st routes_of_def)
  moreover have "routes_of ?st0 = []" by (simp add: routes_of_def)
  ultimately show "map Inr (st_Interfaces st) =
      map (\<lambda>(i, f). buildNMInterface f (labelOrIndex (if_Name f) i)) (enumerate 0 ifs)"
    "\<exists>declared. routes_of st = gateways (enumerate 0 ifs) @ declared \<and>
      map Inr declared = map (\<lambda>(i, r). buildNMRoute r (routeLabel r i)) (enumerate 0 rts)"
    "st_DNSResolver st = Some (first_seen (concat (map (\<lambda>f. map dns_key (if_DNS f)) ifs)))"
    using i st by (auto simp: map_enumerate map_eq_append_conv)
qed

lemma buildNMState_ok:
  "is_ok (buildNMState ifs rts) \<longleftrightarrow> list_all valid_interface ifs \<and> list_all valid_route rts"
proof -
  let ?st0 = "\<lparr>st_Interfaces = [], st_Routes = None, st_DNSResolver = None\<rparr>"
  have 1: "is_ok (build_interfaces (enumerate 0 ifs) ?st0 [] []) \<longleftrightarrow> list_all valid_interface ifs"
    unfolding build_interfaces_ok by (rule list_all_enumerate)
  have 2: "is_ok (build_routes (enumerate 0 rts) st1) \<longleftrightarrow> list_all valid_route rts" for st1
    unfolding build_routes_ok by (rule list_all_enumerate)
  have 3: "is_ok (res_bind (build_routes (enumerate 0 rts) st1) (\<lambda>s. Inr (k s))) \<longleftrightarrow> list_all valid_route rts"
    for st1 and k :: "nmState \<Rightarrow> nmState"
    using 2 [of st1] by (cases "build_routes (enumerate 0 rts) st1") simp_all
  show ?thesis
    using 1 3 by (cases "build_interfaces (enumerate 0 ifs) ?st0 [] []") (auto simp: buildNMState_def)
qed

section \<open>Properties\<close>

definition sample_bond :: InterfaceConfig where
  "sample_bond = \<lparr>if_Name = ''bond0'', if_Type = ''bond'', if_IPAddress = ''10.0.0.5'',
     if_Subnet = ''10.0.0.0/24'', if_Gateway = ''10.0.0.1'', if_DNS = [''9.9.9.9'', ''9.9.9.9''],
     if_MTU = Some 9000, if_IPv4Method = [], if_IPv6Method = ''auto'', if_IPv6AddrGenMode = ''eui64'',
     if_TxQueueLen = None, if_VLAN = None,
     if_Bond = Some \<lparr>bo_Mode = ''active-backup'', bo_Ports = [''eth0'', ''eth1''], bo_Miimon = Some 100,
       bo_Primary = ''eth1''\<rparr>\<rparr>"

definition sample_route :: RouteConfig where
  "sample_route = \<lparr>ro_Name = [], ro_Destination = ''192.168.7.9/16'', ro_NextHopInterface = ''bond0'',
     ro_NextHopAddress = ''10.0.0.2'', ro_TableID = Some 254, ro_Metric = None\<rparr>"

text \<open>C20: the desired state has one interface per declared interface, in the declared order,
  each built by itself; its routes are the gateway routes of the interfaces followed by the
  declared routes, in order; its resolvers are the declared servers in normal form, each once,
  in the order in which they first occur.\<close>

theorem buildNMState_translation:
  assumes "buildNMState ifs rts = Inr st"
  shows "map Inr (st_Interfaces st) =
      map (\<lambda>(i, f). buildNMInterface f (labelOrIndex (if_Name f) i)) (enumerate 0 ifs) \<and>
    (\<exists>declared. routes_of st = gateways (enumerate 0 ifs) @ declared \<and>
      map Inr declared = map (\<lambda>(i, r). buildNMRoute r (routeLabel r i)) (enumerate 0 rts)) \<and>
    st_DNSResolver st = Some (first_seen (concat (map (\<lambda>f. map dns_key (if_DNS f)) ifs)))"
  using buildNMState_Inr [OF assms] by blast

lemma sample_state_ok: "is_ok (buildNMState [sample_bond] [sample_route])"
  by code_simp

lemma buildNMState_translation_witness:
  "\<exists>st. buildNMState [sample_bond] [sample_route] = Inr st \<and> st_DNSResolver st = Some [''9.9.9.9''] \<and>
     length (routes_of st) = 2"
proof -
  obtain st where st: "buildNMState [sample_bond] [sample_route] = Inr st"
    using sample_state_ok by (auto simp: is_ok_iff)
  have dns: "first_seen (concat (map (\<lambda>f. map dns_key (if_DNS f)) [sample_bond])) = [''9.9.9.9'']"
    by code_simp
  have gw: "length (gateways (enumerate 0 [sample_bond])) = 1" by code_simp
  note t = buildNMState_translation [OF st]
  then obtain d where d: "routes_of st = gateways (enumerate 0 [sample_bond]) @ d"
    and "map Inr d = map (\<lambda>(i, r). buildNMRoute r (routeLabel r i)) (enumerate 0 [sample_route])"
    by blast
  from this(2) have "length d = 1" by (metis length_map length_enumerate length_Cons list.size(3) One_nat_def)
  with st t d gw dns show ?thesis by auto
qed

text \<open>C10: the translation succeeds for exactly the interfaces and routes that satisfy the
  declarative validity conditions; which interface or route it is in the list plays no role.\<close>

theorem buildNMState_accepts:
  "is_ok (buildNMState ifs rts) \<longleftrightarrow> list_all valid_interface ifs \<and> list_all valid_route rts"
  by (rule buildNMState_ok)



text \<open>A route that is accepted has the masked destination network in canonical form, a
  next hop that is absent or an address of the same family in canonical form, a non-empty
  outgoing interface, and a table and a metric that fit an unsigned 32-bit number.\<close>

lemma buildNMRoute_sound:
  assumes "buildNMRoute r label = Inr n"
  shows "\<exists>p. ParsePrefix (TrimSpace (ro_Destination r)) = Some p \<and>
    nr_Destination n = PrefixString (Masked p) \<and> Masked (Masked p) = Masked p \<and>
    snd p \<le> (if Is4 (fst p) then 32 else 128) \<and>
    nr_NextHopInterface n = TrimSpace (ro_NextHopInterface r) \<and> nr_NextHopInterface n \<noteq> [] \<and>
    (if TrimSpace (ro_NextHopAddress r) = [] then nr_NextHopAddress n = []
     else case ParseAddr (TrimSpace (ro_NextHopAddress r)) of
            None \<Rightarrow> False
          | Some a \<Rightarrow> nr_NextHopAddress n = AddrString a \<and> Is4 a = Is4 (fst p)) \<and>
    nr_TableID n = ro_TableID r \<and> pred_option (\<lambda>v. 0 \<le> v \<and> v \<le> max_u32) (nr_TableID n) \<and>
    nr_Metric n = ro_Metric r \<and> pred_option (\<lambda>v. 0 \<le> v \<and> v \<le> max_u32) (nr_Metric n)"
proof -
  have "valid_route r" using assms buildNMRoute_ok [of r label] by simp
  then obtain p where p: "ParsePrefix (TrimSpace (ro_Destination r)) = Some p"
    by (auto simp: valid_route_def split: option.splits)
  have bits: "snd p \<le> (if Is4 (fst p) then 32 else 128)"
    using ParsePrefix_wf(2) [of "TrimSpace (ro_Destination r)" "fst p" "snd p"] p Is6_not_Is4 [of "fst p"]
    by (simp split: if_splits)
  have "TrimSpace (ro_Destination r) \<noteq> []" using p ParsePrefix_Nil by auto
  with assms \<open>valid_route r\<close> p bits show ?thesis
    by (auto simp: buildNMRoute_def valid_route_def Let_def res_bind_Inr_iff Masked_idem
        split: if_splits option.splits)
qed

lemma buildNMRoute_sound_witness:
  "\<exists>n. buildNMRoute sample_route ''r'' = Inr n \<and> nr_NextHopInterface n = ''bond0''"
proof -
  have "is_ok (buildNMRoute sample_route ''r'')" by code_simp
  then obtain n where n: "buildNMRoute sample_route ''r'' = Inr n" by (auto simp: is_ok_iff)
  moreover have "TrimSpace (ro_NextHopInterface sample_route) = ''bond0''" by code_simp
  ultimately show ?thesis using buildNMRoute_sound [OF n] by force
qed

text \<open>The prefix length of an IPv4 address is not bounded by 32: an IPv4 address within an
  IPv4-mapped IPv6 subnet is accepted, and the IPv4 stack of the interface carries the length
  of the IPv6 mask.\<close>

lemma mapped_subnet_prefix_length:
  "case buildNMInterface
      (sample_bond\<lparr>if_Type := ''ethernet'', if_Bond := None, if_Subnet := ''::ffff:10.0.0.0/120''\<rparr>) ''bond0'' of
     Inl _ \<Rightarrow> False
   | Inr n \<Rightarrow> (case ni_IPv4 n of None \<Rightarrow> False
              | Some st \<Rightarrow> ns_Addresses st = [\<lparr>na_IP = ''10.0.0.5'', na_PrefixLength = 120\<rparr>])"
  by code_simp

end
