(* ===== verification/Host.thy ===== *)
theory Host
  imports Prelude
begin

text \<open>
  What every effectful part of the program shares: the lines written with the \<open>log\<close> package,
  and rules for what a sequence of effects keeps.  The states of the components extend the
  record \<open>host\<close>.
\<close>

record host =
  ho_log :: "(string \<times> string list) list"
  ho_stderr :: "string list"

text \<open>\<open>log.Printf\<close>: the format and the formatted arguments of each line, oldest first.\<close>

definition logf :: "string \<Rightarrow> string list \<Rightarrow> ('x host_scheme, unit) io" where
  "logf fmt args = (\<lambda>s. (Inr (), s\<lparr>ho_log := ho_log s @ [(fmt, args)]\<rparr>))"

lemma run_logf [io_laws]: "logf fmt args s = (Inr (), s\<lparr>ho_log := ho_log s @ [(fmt, args)]\<rparr>)"
  by (simp add: logf_def)

text \<open>\<open>fmt.Fprint(os.Stderr, ...)\<close>.\<close>

definition eprint :: "string \<Rightarrow> ('x host_scheme, unit) io" where
  "eprint msg = (\<lambda>s. (Inr (), s\<lparr>ho_stderr := ho_stderr s @ [msg]\<rparr>))"

lemma run_eprint [io_laws]: "eprint msg s = (Inr (), s\<lparr>ho_stderr := ho_stderr s @ [msg]\<rparr>)"
  by (simp add: eprint_def)

section \<open>What an action keeps\<close>

text \<open>\<open>io_keeps I m\<close>: the action keeps \<open>I\<close>, whether it succeeds or fails.\<close>

definition io_keeps :: "('s \<Rightarrow> bool) \<Rightarrow> ('s, 'a) io \<Rightarrow> bool" where
  "io_keeps I m \<longleftrightarrow> (\<forall>s r t. I s \<longrightarrow> m s = (r, t) \<longrightarrow> I t)"

named_theorems keep_rules "compositional rules for what an action keeps"

lemma io_keepsI: "(\<And>s r t. I s \<Longrightarrow> m s = (r, t) \<Longrightarrow> I t) \<Longrightarrow> io_keeps I m"
  by (simp add: io_keeps_def)

lemma io_keepsD: "io_keeps I m \<Longrightarrow> I s \<Longrightarrow> m s = (r, t) \<Longrightarrow> I t"
  by (auto simp: io_keeps_def)

lemma keeps_pure [keep_rules]:
  "io_keeps I (io_ok x)" "io_keeps I (io_fail e)" "io_keeps I (io_lift r)"
  by (auto simp: io_keeps_def)

text \<open>What follows may use which values the first action returns.\<close>

lemma keeps_bind_value:
  assumes "io_keeps I m" "\<And>s x t. I s \<Longrightarrow> m s = (Inr x, t) \<Longrightarrow> io_keeps I (f x)"
  shows "io_keeps I (io_bind m f)"
proof (rule io_keepsI)
  fix s r t assume s: "I s" and run: "io_bind m f s = (r, t)"
  obtain r1 u where u: "m s = (r1, u)" by (cases "m s")
  then have "I u" by (rule io_keepsD [OF assms(1) s])
  then show "I t" using run u io_keepsD [OF assms(2) [OF s]] by (cases r1) (auto simp: run_bind)
qed

lemma keeps_bind [keep_rules]:
  assumes "io_keeps I m" "\<And>x. io_keeps I (f x)"
  shows "io_keeps I (io_bind m f)"
  using assms by (rule keeps_bind_value)

lemma keeps_then [keep_rules]: "io_keeps I m \<Longrightarrow> io_keeps I n \<Longrightarrow> io_keeps I (io_then m n)"
  by (simp add: io_then_def keeps_bind)

lemma keeps_wrap [keep_rules]: "io_keeps I m \<Longrightarrow> io_keeps I (io_wrap g m)"
  by (rule io_keepsI) (auto simp: run_wrap dest: io_keepsD split: prod.splits)

lemma keeps_try [keep_rules]: "io_keeps I m \<Longrightarrow> io_keeps I (io_try m)"
  by (rule io_keepsI) (auto simp: run_try dest: io_keepsD split: prod.splits)

lemma keeps_finally [keep_rules]: "io_keeps I m \<Longrightarrow> io_keeps I d \<Longrightarrow> io_keeps I (io_finally m d)"
proof (rule io_keepsI)
  fix s r t assume m: "io_keeps I m" and d: "io_keeps I d" and s: "I s" and run: "io_finally m d s = (r, t)"
  obtain r1 u where u: "m s = (r1, u)" by (cases "m s")
  obtain r2 v where v: "d u = (r2, v)" by (cases "d u")
  have "I v" using io_keepsD [OF d io_keepsD [OF m s u] v] .
  then show "I t" using run u v by (simp add: run_finally)
qed

lemma keeps_if [keep_rules]:
  assumes "b \<Longrightarrow> io_keeps I m" "\<not> b \<Longrightarrow> io_keeps I n"
  shows "io_keeps I (if b then m else n)"
  using assms by simp

lemma keeps_iter [keep_rules]:
  assumes "\<And>x. x \<in> set xs \<Longrightarrow> io_keeps I (f x)"
  shows "io_keeps I (io_iter f xs)"
  using assms by (induction xs) (auto intro!: keep_rules)

lemma keeps_option [keep_rules]:
  assumes "io_keeps I m" "\<And>x. io_keeps I (f x)"
  shows "io_keeps I (case z of None \<Rightarrow> m | Some x \<Rightarrow> f x)"
  using assms by (cases z) simp_all

lemma keeps_sum [keep_rules]:
  assumes "\<And>e. io_keeps I (m e)" "\<And>x. io_keeps I (f x)"
  shows "io_keeps I (case z of Inl e \<Rightarrow> m e | Inr x \<Rightarrow> f x)"
  using assms by (cases z) simp_all

lemma keeps_prod [keep_rules]:
  assumes "\<And>a b. io_keeps I (f a b)"
  shows "io_keeps I (case z of (a, b) \<Rightarrow> f a b)"
  using assms by (cases z) simp

end
