(* ===== verification/Firewall.thy ===== *)
theory Firewall
  imports Network Host
begin

text \<open>
  \<open>firewall.go\<close>: enforcing the declared ports in firewalld over D-Bus.  The bus connection is a
  parameter: a call names the object path, the method and the arguments, and gives an error or
  a reply; what \<open>Store\<close> makes of a reply for each destination type is part of the reply.  The
  documented behaviour of firewalld that the code relies on is the locale \<open>firewalld\<close>, and an
  in-memory firewalld shows that it can hold.
\<close>

section \<open>The bus\<close>

datatype dval = DStr string | DInt int

record reply =
  rp_string :: "string res"
  rp_bool :: "bool res"
  rp_path :: "string res"
  rp_strings :: "string list res"
  rp_stringss :: "string list list res"
  rp_pairs :: "(string \<times> string) list res"

record 's dbus =
  db_connect :: "('s, unit) io"
  db_close :: "('s, unit) io"
  db_call :: "string \<Rightarrow> string \<Rightarrow> dval list \<Rightarrow> ('s, reply) io"

definition firewalldBusName :: string where
  "firewalldBusName = ''org.fedoraproject.FirewallD1''"

definition firewalldObjectPath :: string where
  "firewalldObjectPath = ''/org/fedoraproject/FirewallD1''"

definition firewalldZoneInterface :: string where
  "firewalldZoneInterface = ''org.fedoraproject.FirewallD1.zone''"

definition firewalldConfigPath :: string where
  "firewalldConfigPath = ''/org/fedoraproject/FirewallD1/config''"

definition firewalldConfigInterface :: string where
  "firewalldConfigInterface = ''org.fedoraproject.FirewallD1.config''"

definition firewalldConfigZoneInterface :: string where
  "firewalldConfigZoneInterface = ''org.fedoraproject.FirewallD1.config.zone''"

text \<open>\<open>obj.Call(method, 0, args...).Store(&dest)\<close> and \<open>obj.Call(method, 0, args...).Err\<close>.\<close>

definition call_store ::
    "'s dbus \<Rightarrow> string \<Rightarrow> string \<Rightarrow> dval list \<Rightarrow> (reply \<Rightarrow> 'a res) \<Rightarrow> ('s, 'a) io" where
  "call_store db path meth args store = io_bind (db_call db path meth args) (\<lambda>r. io_lift (store r))"

definition call_err :: "'s dbus \<Rightarrow> string \<Rightarrow> string \<Rightarrow> dval list \<Rightarrow> ('s, unit) io" where
  "call_err db path meth args = io_bind (db_call db path meth args) (\<lambda>_. io_ok ())"

section \<open>Rules and keys\<close>

record declaredFirewallZone =
  dz_ports :: "string set"
  dz_richRules :: "string set"

definition no_ports :: declaredFirewallZone where
  "no_ports = \<lparr>dz_ports = {}, dz_richRules = {}\<rparr>"

definition source_error :: err where
  "source_error = Errf ''source must be a valid IP address or CIDR'' []"

definition firewallSourceFamily :: "string \<Rightarrow> (string \<times> string) res" where
  "firewallSourceFamily source0 =
     (case ParseAddr source0 of
        Some addr \<Rightarrow> Inr (if Is6 addr then ''ipv6'' else ''ipv4'', AddrString addr)
      | None \<Rightarrow>
          (case ParsePrefix source0 of
             None \<Rightarrow> Inl source_error
           | Some p \<Rightarrow> Inr (if Is6 (fst p) then ''ipv6'' else ''ipv4'', PrefixString (Masked p))))"

definition normal_protocol :: "string \<Rightarrow> string" where
  "normal_protocol protocol =
     (let p = ToLower (TrimSpace protocol) in if p = [] then ''tcp'' else p)"

definition rich_rule_text :: "string \<Rightarrow> string \<Rightarrow> string \<Rightarrow> string \<Rightarrow> string" where
  "rich_rule_text family address port protocol =
     ''rule family=\"'' @ family @ ''\" source address=\"'' @ address @
     ''\" port port=\"'' @ port @ ''\" protocol=\"'' @ protocol @ ''\" accept''"

definition firewallRichRule :: "string \<Rightarrow> string \<Rightarrow> string \<Rightarrow> string res" where
  "firewallRichRule source0 port protocol =
     (let src = TrimSpace source0 in
      if src = [] then Inl source_error
      else res_bind (firewallSourceFamily src) (\<lambda>(family, normalizedSource).
        Inr (rich_rule_text family normalizedSource (TrimSpace port) (normal_protocol protocol))))"

definition firewallPortKey :: "string \<Rightarrow> string \<Rightarrow> string" where
  "firewallPortKey port protocol = TrimSpace port @ ''/'' @ normal_protocol protocol"

definition zone_or_default :: "string \<Rightarrow> string \<Rightarrow> string" where
  "zone_or_default defaultZone zone = (if TrimSpace zone = [] then defaultZone else TrimSpace zone)"

definition declare_port ::
    "string \<Rightarrow> FirewallPortConfig \<Rightarrow> (string \<rightharpoonup> declaredFirewallZone) \<Rightarrow> (string \<rightharpoonup> declaredFirewallZone) res" where
  "declare_port defaultZone port declared =
     (let zone = zone_or_default defaultZone (fw_Zone port);
          zoneDeclared = (case declared zone of None \<Rightarrow> no_ports | Some d \<Rightarrow> d);
          src = TrimSpace (fw_Source port)
      in if src = [] then
           Inr (declared(zone \<mapsto> zoneDeclared\<lparr>dz_ports :=
             insert (firewallPortKey (fw_Port port) (fw_Protocol port)) (dz_ports zoneDeclared)\<rparr>))
         else res_bind
           (res_wrap (Wrapf ''build firewall rich rule for source %q failed: %w'' [src])
             (firewallRichRule src (fw_Port port) (fw_Protocol port))) (\<lambda>rule.
           Inr (declared(zone \<mapsto> zoneDeclared\<lparr>dz_richRules := insert rule (dz_richRules zoneDeclared)\<rparr>))))"

primrec declare_ports ::
    "string \<Rightarrow> FirewallPortConfig list \<Rightarrow> (string \<rightharpoonup> declaredFirewallZone) \<Rightarrow> (string \<rightharpoonup> declaredFirewallZone) res" where
  "declare_ports defaultZone [] declared = Inr declared"
| "declare_ports defaultZone (port # ports) declared =
     res_bind (declare_port defaultZone port declared) (declare_ports defaultZone ports)"

definition declaredFirewallPorts ::
    "FirewallPortConfig list \<Rightarrow> string \<Rightarrow> (string \<rightharpoonup> declaredFirewallZone) res" where
  "declaredFirewallPorts ports defaultZone = declare_ports defaultZone ports (\<lambda>_. None)"

section \<open>Opening declared ports\<close>

type_synonym 'x hdbus = "'x host_scheme dbus"

definition queryFirewallPort :: "'x hdbus \<Rightarrow> string \<Rightarrow> string \<Rightarrow> string \<Rightarrow> ('x host_scheme, bool) io" where
  "queryFirewallPort db zone port protocol =
     call_store db firewalldObjectPath (firewalldZoneInterface @ ''.queryPort'')
       [DStr zone, DStr port, DStr protocol] rp_bool"

definition addFirewallPort :: "'x hdbus \<Rightarrow> string \<Rightarrow> string \<Rightarrow> string \<Rightarrow> ('x host_scheme, string) io" where
  "addFirewallPort db zone port protocol =
     call_store db firewalldObjectPath (firewalldZoneInterface @ ''.addPort'')
       [DStr zone, DStr port, DStr protocol, DInt 0] rp_string"

definition queryFirewallRichRule :: "'x hdbus \<Rightarrow> string \<Rightarrow> string \<Rightarrow> ('x host_scheme, bool) io" where
  "queryFirewallRichRule db zone rule =
     call_store db firewalldObjectPath (firewalldZoneInterface @ ''.queryRichRule'')
       [DStr zone, DStr rule] rp_bool"

definition addFirewallRichRule :: "'x hdbus \<Rightarrow> string \<Rightarrow> string \<Rightarrow> ('x host_scheme, string) io" where
  "addFirewallRichRule db zone rule =
     call_store db firewalldObjectPath (firewalldZoneInterface @ ''.addRichRule'')
       [DStr zone, DStr rule, DInt 0] rp_string"

definition getDefaultZone :: "'x hdbus \<Rightarrow> ('x host_scheme, string) io" where
  "getDefaultZone db =
     io_wrap (Wrapf ''get default zone failed: %w'' [])
       (call_store db firewalldObjectPath (firewalldBusName @ ''.getDefaultZone'') [] rp_string)"

definition permanent_zone_name :: "'x hdbus \<Rightarrow> string \<Rightarrow> ('x host_scheme, string) io" where
  "permanent_zone_name db zone = (if zone = [] then getDefaultZone db else io_ok zone)"

definition zone_path :: "'x hdbus \<Rightarrow> string \<Rightarrow> ('x host_scheme, string) io" where
  "zone_path db zoneName =
     io_wrap (Wrapf ''look up permanent zone %q failed: %w'' [zoneName])
       (call_store db firewalldConfigPath (firewalldConfigInterface @ ''.getZoneByName'') [DStr zoneName] rp_path)"

definition ensurePermanentFirewallPort ::
    "'x hdbus \<Rightarrow> string \<Rightarrow> string \<Rightarrow> string \<Rightarrow> ('x host_scheme, unit) io" where
  "ensurePermanentFirewallPort db zone port protocol =
     io_bind (permanent_zone_name db zone) (\<lambda>zoneName.
     io_bind (zone_path db zoneName) (\<lambda>zonePath.
     io_bind (io_wrap (Wrapf ''query permanent firewall port failed: %w'' [])
       (call_store db zonePath (firewalldConfigZoneInterface @ ''.queryPort'') [DStr port, DStr protocol] rp_bool)) (\<lambda>enabled.
     if enabled then io_ok ()
     else io_then (io_wrap (Wrapf ''add permanent firewall port failed: %w'' [])
            (call_err db zonePath (firewalldConfigZoneInterface @ ''.addPort'') [DStr port, DStr protocol]))
          (logf ''persisted firewall port %s/%s in zone %s'' [port, protocol, zoneName]))))"

definition ensurePermanentFirewallRichRule ::
    "'x hdbus \<Rightarrow> string \<Rightarrow> string \<Rightarrow> ('x host_scheme, unit) io" where
  "ensurePermanentFirewallRichRule db zone rule =
     io_bind (permanent_zone_name db zone) (\<lambda>zoneName.
     io_bind (zone_path db zoneName) (\<lambda>zonePath.
     io_bind (io_wrap (Wrapf ''query permanent firewall rich rule failed: %w'' [])
       (call_store db zonePath (firewalldConfigZoneInterface @ ''.queryRichRule'') [DStr rule] rp_bool)) (\<lambda>enabled.
     if enabled then io_ok ()
     else io_then (io_wrap (Wrapf ''add permanent firewall rich rule failed: %w'' [])
            (call_err db zonePath (firewalldConfigZoneInterface @ ''.addRichRule'') [DStr rule]))
          (logf ''persisted firewall rich rule %q in zone %s'' [rule, zoneName]))))"

definition openDeclaredPlainFirewallPort ::
    "'x hdbus \<Rightarrow> string \<Rightarrow> string \<Rightarrow> string \<Rightarrow> ('x host_scheme, unit) io" where
  "openDeclaredPlainFirewallPort db zone portValue protocol =
     io_bind (io_wrap (Wrapf ''query firewall port %s/%s failed: %w'' [portValue, protocol])
       (queryFirewallPort db zone portValue protocol)) (\<lambda>enabled.
     io_then
       (if \<not> enabled then
          io_then (io_wrap (Wrapf ''open firewall port %s/%s failed: %w'' [portValue, protocol])
              (addFirewallPort db zone portValue protocol))
            (logf ''opened firewall port %s/%s'' [portValue, protocol])
        else io_ok ())
       (io_wrap (Wrapf ''persist firewall port %s/%s failed: %w'' [portValue, protocol])
          (ensurePermanentFirewallPort db zone portValue protocol)))"

definition openDeclaredSourceFirewallPort ::
    "'x hdbus \<Rightarrow> string \<Rightarrow> string \<Rightarrow> string \<Rightarrow> string \<Rightarrow> ('x host_scheme, unit) io" where
  "openDeclaredSourceFirewallPort db zone source0 portValue protocol =
     io_bind (io_wrap (Wrapf ''build firewall rich rule for source %q failed: %w'' [source0])
       (io_lift (firewallRichRule source0 portValue protocol))) (\<lambda>rule.
     io_bind (io_wrap (Wrapf ''query firewall rich rule %q failed: %w'' [rule])
       (queryFirewallRichRule db zone rule)) (\<lambda>enabled.
     io_then
       (if \<not> enabled then
          io_then (io_wrap (Wrapf ''open firewall rich rule %q failed: %w'' [rule])
              (addFirewallRichRule db zone rule))
            (logf ''opened firewall rich rule %q'' [rule])
        else io_ok ())
       (io_wrap (Wrapf ''persist firewall rich rule %q failed: %w'' [rule])
          (ensurePermanentFirewallRichRule db zone rule))))"

definition openDeclaredFirewallPort :: "'x hdbus \<Rightarrow> FirewallPortConfig \<Rightarrow> ('x host_scheme, unit) io" where
  "openDeclaredFirewallPort db port =
     (let zone = TrimSpace (fw_Zone port);
          portValue = TrimSpace (fw_Port port);
          protocol = normal_protocol (fw_Protocol port);
          src = TrimSpace (fw_Source port)
      in if src = [] then openDeclaredPlainFirewallPort db zone portValue protocol
         else openDeclaredSourceFirewallPort db zone src portValue protocol)"

section \<open>Closing everything else\<close>

definition zone_declared :: "(string \<rightharpoonup> declaredFirewallZone) \<Rightarrow> string \<Rightarrow> declaredFirewallZone" where
  "zone_declared declared zone = (case declared zone of None \<Rightarrow> no_ports | Some d \<Rightarrow> d)"

definition prune_runtime_port ::
    "'x hdbus \<Rightarrow> string \<Rightarrow> declaredFirewallZone \<Rightarrow> string list \<Rightarrow> ('x host_scheme, unit) io" where
  "prune_runtime_port db zone declared pp =
     (case pp of
        [port, protocol] \<Rightarrow>
          if firewallPortKey port protocol \<in> dz_ports declared then io_ok ()
          else io_then (io_wrap (Wrapf ''close unmanaged firewall port %s/%s in zone %q failed: %w'' [port, protocol, zone])
                 (call_store db firewalldObjectPath (firewalldZoneInterface @ ''.removePort'')
                   [DStr zone, DStr port, DStr protocol] rp_string))
               (logf ''closed unmanaged firewall port %s/%s in zone %s'' [port, protocol, zone])
      | _ \<Rightarrow> io_ok ())"

definition pruneRuntimeZonePorts ::
    "'x hdbus \<Rightarrow> string \<Rightarrow> declaredFirewallZone \<Rightarrow> ('x host_scheme, unit) io" where
  "pruneRuntimeZonePorts db zone declared =
     io_bind (io_wrap (Wrapf ''list runtime ports for zone %q failed: %w'' [zone])
       (call_store db firewalldObjectPath (firewalldZoneInterface @ ''.getPorts'') [DStr zone] rp_stringss)) (\<lambda>current.
     io_iter (prune_runtime_port db zone declared) current)"

definition pruneRuntimeZoneRichRules ::
    "'x hdbus \<Rightarrow> string \<Rightarrow> declaredFirewallZone \<Rightarrow> ('x host_scheme, unit) io" where
  "pruneRuntimeZoneRichRules db zone declared =
     io_bind (io_wrap (Wrapf ''list runtime rich rules for zone %q failed: %w'' [zone])
       (call_store db firewalldObjectPath (firewalldZoneInterface @ ''.getRichRules'') [DStr zone] rp_strings)) (\<lambda>richRules.
     io_iter (\<lambda>rule.
       if rule \<in> dz_richRules declared then io_ok ()
       else io_then (io_wrap (Wrapf ''remove unmanaged firewall rich rule %q in zone %q failed: %w'' [rule, zone])
              (call_store db firewalldObjectPath (firewalldZoneInterface @ ''.removeRichRule'')
                [DStr zone, DStr rule] rp_string))
            (logf ''removed unmanaged firewall rich rule %q in zone %s'' [rule, zone])) richRules)"

definition pruneRuntimeZoneServices :: "'x hdbus \<Rightarrow> string \<Rightarrow> ('x host_scheme, unit) io" where
  "pruneRuntimeZoneServices db zone =
     io_bind (io_wrap (Wrapf ''list runtime services for zone %q failed: %w'' [zone])
       (call_store db firewalldObjectPath (firewalldZoneInterface @ ''.getServices'') [DStr zone] rp_strings)) (\<lambda>services.
     io_iter (\<lambda>service.
       io_then (io_wrap (Wrapf ''remove firewall service %q in zone %q failed: %w'' [service, zone])
           (call_store db firewalldObjectPath (firewalldZoneInterface @ ''.removeService'')
             [DStr zone, DStr service] rp_string))
         (logf ''removed firewall service %s in zone %s'' [service, zone])) services)"

definition pruneRuntimeZone ::
    "'x hdbus \<Rightarrow> string \<Rightarrow> declaredFirewallZone \<Rightarrow> ('x host_scheme, unit) io" where
  "pruneRuntimeZone db zone declared =
     io_then (pruneRuntimeZonePorts db zone declared)
       (io_then (pruneRuntimeZoneRichRules db zone declared) (pruneRuntimeZoneServices db zone))"

definition removeUnmanagedRuntimeRules ::
    "'x hdbus \<Rightarrow> (string \<rightharpoonup> declaredFirewallZone) \<Rightarrow> ('x host_scheme, unit) io" where
  "removeUnmanagedRuntimeRules db declared =
     io_bind (io_wrap (Wrapf ''list runtime firewall zones failed: %w'' [])
       (call_store db firewalldObjectPath (firewalldZoneInterface @ ''.getZones'') [] rp_strings)) (\<lambda>zones.
     io_iter (\<lambda>zone. pruneRuntimeZone db zone (zone_declared declared zone)) zones)"

definition prunePermanentZonePorts ::
    "'x hdbus \<Rightarrow> string \<Rightarrow> string \<Rightarrow> declaredFirewallZone \<Rightarrow> ('x host_scheme, unit) io" where
  "prunePermanentZonePorts db zonePath zone declared =
     io_bind (io_wrap (Wrapf ''list permanent ports for zone %q failed: %w'' [zone])
       (call_store db zonePath (firewalldConfigZoneInterface @ ''.getPorts'') [] rp_pairs)) (\<lambda>current.
     io_iter (\<lambda>(port, protocol).
       if firewallPortKey port protocol \<in> dz_ports declared then io_ok ()
       else io_then (io_wrap (Wrapf ''remove permanent firewall port %s/%s in zone %q failed: %w'' [port, protocol, zone])
              (call_err db zonePath (firewalldConfigZoneInterface @ ''.removePort'') [DStr port, DStr protocol]))
            (logf ''removed unmanaged permanent firewall port %s/%s in zone %s'' [port, protocol, zone])) current)"

definition prunePermanentZoneRichRules ::
    "'x hdbus \<Rightarrow> string \<Rightarrow> string \<Rightarrow> declaredFirewallZone \<Rightarrow> ('x host_scheme, unit) io" where
  "prunePermanentZoneRichRules db zonePath zone declared =
     io_bind (io_wrap (Wrapf ''list permanent rich rules for zone %q failed: %w'' [zone])
       (call_store db zonePath (firewalldConfigZoneInterface @ ''.getRichRules'') [] rp_strings)) (\<lambda>richRules.
     io_iter (\<lambda>rule.
       if rule \<in> dz_richRules declared then io_ok ()
       else io_then (io_wrap (Wrapf ''remove permanent firewall rich rule %q in zone %q failed: %w'' [rule, zone])
              (call_err db zonePath (firewalldConfigZoneInterface @ ''.removeRichRule'') [DStr rule]))
            (logf ''removed unmanaged permanent firewall rich rule %q in zone %s'' [rule, zone])) richRules)"

definition prunePermanentZoneServices :: "'x hdbus \<Rightarrow> string \<Rightarrow> string \<Rightarrow> ('x host_scheme, unit) io" where
  "prunePermanentZoneServices db zonePath zone =
     io_bind (io_wrap (Wrapf ''list permanent services for zone %q failed: %w'' [zone])
       (call_store db zonePath (firewalldConfigZoneInterface @ ''.getServices'') [] rp_strings)) (\<lambda>services.
     io_iter (\<lambda>service.
       io_then (io_wrap (Wrapf ''remove permanent firewall service %q in zone %q failed: %w'' [service, zone])
           (call_err db zonePath (firewalldConfigZoneInterface @ ''.removeService'') [DStr service]))
         (logf ''removed permanent firewall service %s in zone %s'' [service, zone])) services)"

definition prunePermanentZone ::
    "'x hdbus \<Rightarrow> string \<Rightarrow> declaredFirewallZone \<Rightarrow> ('x host_scheme, unit) io" where
  "prunePermanentZone db zone declared =
     io_bind (zone_path db zone) (\<lambda>zonePath.
     io_then (prunePermanentZonePorts db zonePath zone declared)
       (io_then (prunePermanentZoneRichRules db zonePath zone declared)
         (prunePermanentZoneServices db zonePath zone)))"

definition removeUnmanagedPermanentRules ::
    "'x hdbus \<Rightarrow> (string \<rightharpoonup> declaredFirewallZone) \<Rightarrow> ('x host_scheme, unit) io" where
  "removeUnmanagedPermanentRules db declared =
     io_bind (io_wrap (Wrapf ''list permanent firewall zones failed: %w'' [])
       (call_store db firewalldConfigPath (firewalldConfigInterface @ ''.getZoneNames'') [] rp_strings)) (\<lambda>zones.
     io_iter (\<lambda>zone. prunePermanentZone db zone (zone_declared declared zone)) zones)"

definition removeUnmanagedFirewallRules ::
    "'x hdbus \<Rightarrow> (string \<rightharpoonup> declaredFirewallZone) \<Rightarrow> ('x host_scheme, unit) io" where
  "removeUnmanagedFirewallRules db declared =
     io_then (removeUnmanagedRuntimeRules db declared) (removeUnmanagedPermanentRules db declared)"

section \<open>The reconcile\<close>

definition reconcileFirewall :: "'x hdbus \<Rightarrow> FirewallPortConfig list \<Rightarrow> ('x host_scheme, unit) io" where
  "reconcileFirewall db ports =
     io_bind (getDefaultZone db) (\<lambda>defaultZone.
     io_then (io_iter (openDeclaredFirewallPort db) ports)
       (io_bind (io_lift (declaredFirewallPorts ports defaultZone)) (\<lambda>declared.
        removeUnmanagedFirewallRules db declared)))"

definition configureFirewallPorts ::
    "('x host_scheme, unit) io \<Rightarrow> 'x hdbus \<Rightarrow> FirewallPortConfig list \<Rightarrow> ('x host_scheme, unit) io" where
  "configureFirewallPorts ensureFirewalldRunning db ports =
     io_bind (io_try ensureFirewalldRunning) (\<lambda>r.
     case r of
       Inl e \<Rightarrow>
         if ports = [] then logf ''skipping firewall reconcile, firewalld unavailable: %v'' []
         else io_fail e
     | Inr _ \<Rightarrow>
         io_then (io_wrap (Wrapf ''connect to system bus failed: %w'' []) (db_connect db))
           (io_finally (reconcileFirewall db ports) (db_close db)))"

section \<open>What firewalld promises\<close>

text \<open>
  The view of firewalld: what is open in a slot, that is in the runtime or the permanent
  configuration (\<open>True\<close>), for a zone and a kind of entry.  A port is the two-element list of
  port and protocol, a rich rule and a service are one-element lists.
\<close>

datatype fwkind = KPort | KRule | KService

type_synonym slot = "bool \<times> string \<times> fwkind"

fun get_method :: "fwkind \<Rightarrow> string" where
  "get_method KPort = ''.getPorts''" | "get_method KRule = ''.getRichRules''"
| "get_method KService = ''.getServices''"

fun query_method :: "fwkind \<Rightarrow> string" where
  "query_method KPort = ''.queryPort''" | "query_method KRule = ''.queryRichRule''"
| "query_method KService = ''.queryService''"

fun add_method :: "fwkind \<Rightarrow> string" where
  "add_method KPort = ''.addPort''" | "add_method KRule = ''.addRichRule''"
| "add_method KService = ''.addService''"

fun remove_method :: "fwkind \<Rightarrow> string" where
  "remove_method KPort = ''.removePort''" | "remove_method KRule = ''.removeRichRule''"
| "remove_method KService = ''.removeService''"

text \<open>The entries a listing reply names.\<close>

fun listing :: "bool \<Rightarrow> fwkind \<Rightarrow> reply \<Rightarrow> string list list res" where
  "listing False KPort v = rp_stringss v"
| "listing True KPort v = res_bind (rp_pairs v) (\<lambda>ps. Inr (map (\<lambda>(a, b). [a, b]) ps))"
| "listing b KRule v = res_bind (rp_strings v) (\<lambda>xs. Inr (map (\<lambda>x. [x]) xs))"
| "listing b KService v = res_bind (rp_strings v) (\<lambda>xs. Inr (map (\<lambda>x. [x]) xs))"

text \<open>
  The documented D-Bus interface: a call that fails changes nothing, a query or a listing tells
  what is open, \<open>add\<close> and \<open>remove\<close> change the one entry they name, a runtime call without a zone
  means the default zone, the permanent configuration of a zone is an object of its own, and
  no call of the code changes the zones or the default zone.
\<close>

locale firewalld =
  fixes db :: "'x hdbus"
    and items :: "'x host_scheme \<Rightarrow> slot \<Rightarrow> string list set"
    and zones :: "'x host_scheme \<Rightarrow> bool \<Rightarrow> string set"
    and defzone :: "'x host_scheme \<Rightarrow> string"
    and zpath :: "string \<Rightarrow> string"
  assumes zones_named: "[] \<notin> zones s b"
    and log_frame: "items (s\<lparr>ho_log := l\<rparr>) = items s" "zones (s\<lparr>ho_log := l\<rparr>) = zones s"
      "defzone (s\<lparr>ho_log := l\<rparr>) = defzone s"
    and bus_frame: "db_connect db s = (r, t) \<Longrightarrow> items t = items s \<and> zones t = zones s \<and> defzone t = defzone s"
      "db_close db s = (r, t) \<Longrightarrow> items t = items s \<and> zones t = zones s \<and> defzone t = defzone s"
    and call_frame: "db_call db p m a s = (r', t) \<Longrightarrow> zones t = zones s \<and> defzone t = defzone s"
    and call_failed: "db_call db p m a s = (Inl e, t) \<Longrightarrow> items t = items s"
    and default_zone:
      "db_call db firewalldObjectPath (firewalldBusName @ ''.getDefaultZone'') [] s = (Inr v, t) \<Longrightarrow>
         items t = items s \<and> (\<forall>z. rp_string v = Inr z \<longrightarrow> z = defzone s)"
    and runtime_zones:
      "db_call db firewalldObjectPath (firewalldZoneInterface @ ''.getZones'') [] s = (Inr v, t) \<Longrightarrow>
         items t = items s \<and> (\<forall>zs. rp_strings v = Inr zs \<longrightarrow> set zs = zones s False)"
    and permanent_zones:
      "db_call db firewalldConfigPath (firewalldConfigInterface @ ''.getZoneNames'') [] s = (Inr v, t) \<Longrightarrow>
         items t = items s \<and> (\<forall>zs. rp_strings v = Inr zs \<longrightarrow> set zs = zones s True)"
    and zone_by_name:
      "db_call db firewalldConfigPath (firewalldConfigInterface @ ''.getZoneByName'') [DStr z] s = (Inr v, t) \<Longrightarrow>
         items t = items s \<and> (\<forall>p. rp_path v = Inr p \<longrightarrow> p = zpath z)"
    and runtime_get:
      "db_call db firewalldObjectPath (firewalldZoneInterface @ get_method k) [DStr z] s = (Inr v, t) \<Longrightarrow>
         items t = items s \<and>
         (\<forall>xs. listing False k v = Inr xs \<longrightarrow> set xs = items s (False, if z = [] then defzone s else z, k))"
    and runtime_query:
      "db_call db firewalldObjectPath (firewalldZoneInterface @ query_method k) (DStr z # map DStr x) s = (Inr v, t) \<Longrightarrow>
         items t = items s \<and>
         (\<forall>b. rp_bool v = Inr b \<longrightarrow> b = (x \<in> items s (False, if z = [] then defzone s else z, k)))"
    and runtime_add:
      "db_call db firewalldObjectPath (firewalldZoneInterface @ add_method k) (DStr z # map DStr x @ [DInt 0]) s = (Inr v, t) \<Longrightarrow>
         items t = (let sl = (False, if z = [] then defzone s else z, k) in (items s)(sl := insert x (items s sl)))"
    and runtime_remove:
      "db_call db firewalldObjectPath (firewalldZoneInterface @ remove_method k) (DStr z # map DStr x) s = (Inr v, t) \<Longrightarrow>
         items t = (let sl = (False, if z = [] then defzone s else z, k) in (items s)(sl := items s sl - {x}))"
    and permanent_get:
      "db_call db (zpath z) (firewalldConfigZoneInterface @ get_method k) [] s = (Inr v, t) \<Longrightarrow>
         items t = items s \<and> (\<forall>xs. listing True k v = Inr xs \<longrightarrow> set xs = items s (True, z, k))"
    and permanent_query:
      "db_call db (zpath z) (firewalldConfigZoneInterface @ query_method k) (map DStr x) s = (Inr v, t) \<Longrightarrow>
         items t = items s \<and> (\<forall>b. rp_bool v = Inr b \<longrightarrow> b = (x \<in> items s (True, z, k)))"
    and permanent_add:
      "db_call db (zpath z) (firewalldConfigZoneInterface @ add_method k) (map DStr x) s = (Inr v, t) \<Longrightarrow>
         items t = (items s)((True, z, k) := insert x (items s (True, z, k)))"
    and permanent_remove:
      "db_call db (zpath z) (firewalldConfigZoneInterface @ remove_method k) (map DStr x) s = (Inr v, t) \<Longrightarrow>
         items t = (items s)((True, z, k) := items s (True, z, k) - {x})"
begin

text \<open>The effect of one call of the code on the view, success or failure.\<close>

lemma call_store_run:
  assumes "call_store db p m a st s = (r, t)"
  obtains e where "db_call db p m a s = (Inl e, t)" "r = Inl e"
  | v where "db_call db p m a s = (Inr v, t)" "r = st v"
  using assms by (auto simp: call_store_def run_bind split: prod.splits sum.splits)

lemma call_err_run:
  assumes "call_err db p m a s = (r, t)"
  obtains e where "db_call db p m a s = (Inl e, t)" "r = Inl e"
  | v where "db_call db p m a s = (Inr v, t)" "r = Inr ()"
  using assms by (auto simp: call_err_def run_bind split: prod.splits sum.splits)

definition same_zones :: "'x host_scheme \<Rightarrow> 'x host_scheme \<Rightarrow> bool" where
  "same_zones s t \<longleftrightarrow> zones t = zones s \<and> defzone t = defzone s"

lemma same_zones_refl [simp]: "same_zones s s"
  by (simp add: same_zones_def)

lemma same_zones_trans: "same_zones s t \<Longrightarrow> same_zones t u \<Longrightarrow> same_zones s u"
  by (simp add: same_zones_def)

lemma same_zones_log [simp]:
  "same_zones s (t\<lparr>ho_log := l\<rparr>) = same_zones s t" "same_zones (s\<lparr>ho_log := l\<rparr>) t = same_zones s t"
  by (simp_all add: same_zones_def log_frame)

lemma same_zones_call: "db_call db p m a s = (r, t) \<Longrightarrow> same_zones s t"
  by (simp add: same_zones_def call_frame)

subsection \<open>Opening only adds\<close>

definition grows :: "'x host_scheme \<Rightarrow> 'x host_scheme \<Rightarrow> bool" where
  "grows s t \<longleftrightarrow> same_zones s t \<and> (\<forall>sl. items s sl \<subseteq> items t sl)"

lemma grows_refl [simp]: "grows s s"
  by (simp add: grows_def)

lemma grows_log [simp]: "grows s (t\<lparr>ho_log := l\<rparr>) = grows s t"
  by (simp add: grows_def log_frame)

lemma growsD: "grows s t \<Longrightarrow> x \<in> items s sl \<Longrightarrow> x \<in> items t sl" "grows s t \<Longrightarrow> same_zones s t"
  by (auto simp: grows_def simp del: split_paired_All)

lemma grows_step:
  assumes "grows s t" "same_zones t u" "\<And>sl. items t sl \<subseteq> items u sl"
  shows "grows s u"
  using assms unfolding grows_def same_zones_def by (metis subset_trans)

lemma grows_trans: "grows s t \<Longrightarrow> grows t u \<Longrightarrow> grows s u"
  unfolding grows_def by (blast intro: same_zones_trans)

definition grower :: "string \<Rightarrow> string \<Rightarrow> dval list \<Rightarrow> bool" where
  "grower p m a \<longleftrightarrow> (\<forall>s v t sl. db_call db p m a s = (Inr v, t) \<longrightarrow> items s sl \<subseteq> items t sl)"

lemma grower_run: "grower p m a \<Longrightarrow> db_call db p m a s = (r, t) \<Longrightarrow> items s sl \<subseteq> items t sl"
  unfolding grower_def by (cases r) (simp add: call_failed, blast)

lemma grower_keeps:
  assumes "grower p m a"
  shows "io_keeps (grows s0) (call_store db p m a st)" "io_keeps (grows s0) (call_err db p m a)"
proof -
  have step: "grows s0 t" if "grows s0 s" "db_call db p m a s = (r, t)" for s t r
    using that(1) same_zones_call [OF that(2)] grower_run [OF assms that(2)] by (rule grows_step)
  show "io_keeps (grows s0) (call_store db p m a st)"
    by (rule io_keepsI) (metis call_store_run step)
  show "io_keeps (grows s0) (call_err db p m a)"
    by (rule io_keepsI) (metis call_err_run step)
qed

lemma growers:
  "grower firewalldObjectPath (firewalldBusName @ ''.getDefaultZone'') []"
  "grower firewalldConfigPath (firewalldConfigInterface @ ''.getZoneByName'') [DStr z]"
  "grower firewalldObjectPath (firewalldZoneInterface @ query_method k) (DStr z # map DStr x)"
  "grower firewalldObjectPath (firewalldZoneInterface @ add_method k) (DStr z # map DStr x @ [DInt 0])"
  "grower (zpath z) (firewalldConfigZoneInterface @ query_method k) (map DStr x)"
  "grower (zpath z) (firewalldConfigZoneInterface @ add_method k) (map DStr x)"
  by (auto simp: grower_def Let_def default_zone zone_by_name runtime_query permanent_query
      dest!: runtime_add permanent_add)

lemma keeps_logf: "(\<And>s l. I (s\<lparr>ho_log := l\<rparr>) = I s) \<Longrightarrow> io_keeps I (logf f a)"
  by (rule io_keepsI) (auto simp: run_logf)

end

context firewalld begin

lemma getDefaultZone_run:
  assumes "getDefaultZone db s = (r, t)"
  shows "grows s t \<and> items t = items s \<and> (\<forall>z. r = Inr z \<longrightarrow> z = defzone s)"
  using assms
  by (auto simp: getDefaultZone_def run_wrap grows_def same_zones_call default_zone call_failed
      split: prod.splits elim!: call_store_run)

lemma zone_path_run:
  assumes "zone_path db z s = (r, t)"
  shows "same_zones s t \<and> items t = items s \<and> (\<forall>p. r = Inr p \<longrightarrow> p = zpath z)"
  using assms
  by (auto simp: zone_path_def run_wrap same_zones_call zone_by_name call_failed
      split: prod.splits elim!: call_store_run)

lemmas plain_growers =
  growers(3) [where k = KPort and x = "[_, _]", simplified]
  growers(3) [where k = KRule and x = "[_]", simplified]
  growers(4) [where k = KPort and x = "[_, _]", simplified]
  growers(4) [where k = KRule and x = "[_]", simplified]
  growers(5) [where k = KPort and x = "[_, _]", simplified]
  growers(5) [where k = KRule and x = "[_]", simplified]
  growers(6) [where k = KPort and x = "[_, _]", simplified]
  growers(6) [where k = KRule and x = "[_]", simplified]

lemmas grow_rules = keep_rules plain_growers [THEN grower_keeps(1)] plain_growers [THEN grower_keeps(2)]
  keeps_logf [of "grows _", OF grows_log]

lemma keeps_zone_path: "io_keeps (grows s0) (zone_path db z)"
  unfolding zone_path_def by (intro grow_rules grower_keeps(1) growers(2))

lemma keeps_getDefaultZone: "io_keeps (grows s0) (getDefaultZone db)"
  unfolding getDefaultZone_def by (intro grow_rules grower_keeps(1) growers(1))

lemma keeps_permanent_port: "io_keeps (grows s0) (ensurePermanentFirewallPort db zone port protocol)"
  unfolding ensurePermanentFirewallPort_def permanent_zone_name_def
  by (intro keeps_bind keeps_if keeps_pure keeps_getDefaultZone keeps_bind_value [OF keeps_zone_path];
      drule zone_path_run; clarsimp; intro grow_rules)

lemma keeps_permanent_rule: "io_keeps (grows s0) (ensurePermanentFirewallRichRule db zone rule)"
  unfolding ensurePermanentFirewallRichRule_def permanent_zone_name_def
  by (intro keeps_bind keeps_if keeps_pure keeps_getDefaultZone keeps_bind_value [OF keeps_zone_path];
      drule zone_path_run; clarsimp; intro grow_rules)

lemma open_grows: "io_keeps (grows s0) (openDeclaredFirewallPort db port)"
  unfolding openDeclaredFirewallPort_def openDeclaredPlainFirewallPort_def
    openDeclaredSourceFirewallPort_def queryFirewallPort_def addFirewallPort_def
    queryFirewallRichRule_def addFirewallRichRule_def Let_def
  by (intro grow_rules keeps_permanent_port keeps_permanent_rule)

end

section \<open>What is declared\<close>

text \<open>The slot and entry that a declared port stands for.\<close>

definition port_item :: "string \<Rightarrow> FirewallPortConfig \<Rightarrow> (string \<times> fwkind \<times> string list) res" where
  "port_item defaultZone port =
     (let z = zone_or_default defaultZone (fw_Zone port); src = TrimSpace (fw_Source port)
      in if src = [] then Inr (z, KPort, [TrimSpace (fw_Port port), normal_protocol (fw_Protocol port)])
         else res_bind (firewallRichRule src (fw_Port port) (fw_Protocol port)) (\<lambda>rule. Inr (z, KRule, [rule])))"

lemma TrimSpace_tcp [simp]: "TrimSpace ''tcp'' = ''tcp''"
  by (rule TrimSpace_plain) (simp add: plain_char_def ascii_space_def)

lemma ToLower_tcp [simp]: "ToLower ''tcp'' = ''tcp''"
  by (simp add: ToLower_def lower_char_def)

lemma normal_protocol_idem [simp]: "normal_protocol (normal_protocol p) = normal_protocol p"
  by (simp add: normal_protocol_def Let_def TrimSpace_ToLower)

lemma firewallRichRule_normal [simp]:
  "firewallRichRule src (TrimSpace port) (normal_protocol protocol) = firewallRichRule src port protocol"
  by (simp add: firewallRichRule_def cong: if_cong)

lemma firewallPortKey_normal [simp]:
  "firewallPortKey (TrimSpace port) (normal_protocol protocol) = firewallPortKey port protocol"
  by (simp add: firewallPortKey_def)

context firewalld begin

lemma permanent_zone_run:
  assumes "permanent_zone_name db zone s = (Inr z, u)"
  shows "same_zones s u \<and> items u = items s \<and> z = (if zone = [] then defzone s else zone)"
  using assms getDefaultZone_run [of s "Inr z" u]
  by (auto simp: permanent_zone_name_def grows_def split: if_splits)

lemma call_store_ok: "call_store db p m a st s = (Inr x, t) \<longleftrightarrow> (\<exists>v. db_call db p m a s = (Inr v, t) \<and> st v = Inr x)"
  by (auto simp: call_store_def bind_success)

lemma call_err_ok: "call_err db p m a s = (Inr x, t) \<longleftrightarrow> (\<exists>v. db_call db p m a s = (Inr v, t))"
  by (auto simp: call_err_def bind_success)

text \<open>Query, then add what is missing: the permanent and the runtime form.\<close>

lemma permanent_adds:
  assumes "io_bind (permanent_zone_name db zone) (\<lambda>zn.
     io_bind (zone_path db zn) (\<lambda>zp.
     io_bind (io_wrap g (call_store db zp (firewalldConfigZoneInterface @ query_method k) (map DStr x) rp_bool)) (\<lambda>enabled.
     if enabled then io_ok ()
     else io_then (io_wrap g' (call_err db zp (firewalldConfigZoneInterface @ add_method k) (map DStr x)))
          (logf f (args zn))))) s = (Inr u, t)"
  shows "x \<in> items t (True, if zone = [] then defzone s else zone, k)"
proof -
  let ?z = "if zone = [] then defzone s else zone"
  obtain zn s1 zp s2 b s3 where 1: "permanent_zone_name db zone s = (Inr zn, s1)"
    and 2: "zone_path db zn s1 = (Inr zp, s2)"
    and 3: "call_store db zp (firewalldConfigZoneInterface @ query_method k) (map DStr x) rp_bool s2 = (Inr b, s3)"
    and 4: "(if b then io_ok () else io_then (io_wrap g' (call_err db zp (firewalldConfigZoneInterface @ add_method k) (map DStr x)))
          (logf f (args zn))) s3 = (Inr u, t)"
    using assms unfolding success_simps by blast
  have zn: "zn = ?z" using permanent_zone_run [OF 1] by simp
  have zp: "zp = zpath ?z" using zone_path_run [OF 2] zn by simp
  obtain v where v: "db_call db (zpath ?z) (firewalldConfigZoneInterface @ query_method k) (map DStr x) s2 = (Inr v, s3)"
      "rp_bool v = Inr b"
    using 3 unfolding call_store_ok zp by blast
  have q: "items s3 = items s2" "b = (x \<in> items s2 (True, ?z, k))"
    using permanent_query [OF v(1)] v(2) by blast+
  show ?thesis
  proof (cases b)
    case True
    with 4 q show ?thesis by simp
  next
    case False
    then have "io_then (io_wrap g' (call_err db zp (firewalldConfigZoneInterface @ add_method k) (map DStr x)))
        (logf f (args zn)) s3 = (Inr u, t)" using 4 by simp
    then obtain w s4 where w: "db_call db (zpath ?z) (firewalldConfigZoneInterface @ add_method k) (map DStr x) s3 = (Inr w, s4)"
      and t: "logf f (args zn) s4 = (Inr u, t)"
      unfolding success_simps call_err_ok zp by blast
    have "items t = items s4" using t by (auto simp: run_logf log_frame)
    then show ?thesis using permanent_add [OF w] by simp
  qed
qed

lemma runtime_adds:
  assumes 1: "call_store db firewalldObjectPath (firewalldZoneInterface @ query_method k) (DStr z # map DStr x) rp_bool s = (Inr b, s1)"
    and 2: "(if \<not> b then io_then (io_wrap g (call_store db firewalldObjectPath
          (firewalldZoneInterface @ add_method k) (DStr z # map DStr x @ [DInt 0]) rp_string)) (logf f a) else io_ok ()) s1 = (Inr u, t)"
  shows "x \<in> items t (False, if z = [] then defzone s else z, k) \<and> same_zones s t"
proof -
  obtain v where v: "db_call db firewalldObjectPath (firewalldZoneInterface @ query_method k) (DStr z # map DStr x) s = (Inr v, s1)"
      "rp_bool v = Inr b"
    using 1 unfolding call_store_ok by blast
  have q: "items s1 = items s" "b = (x \<in> items s (False, if z = [] then defzone s else z, k))"
    using runtime_query [OF v(1)] v(2) by blast+
  have z: "same_zones s s1" using v(1) by (rule same_zones_call)
  show ?thesis
  proof (cases b)
    case True
    with q z 2 show ?thesis by simp
  next
    case False
    then obtain w s2 where w: "db_call db firewalldObjectPath (firewalldZoneInterface @ add_method k) (DStr z # map DStr x @ [DInt 0]) s1 = (Inr w, s2)"
      and t: "logf f a s2 = (Inr u, t)"
      using 2 unfolding call_store_ok success_simps by (auto simp: success_simps call_store_ok)
    have "items t = items s2" "same_zones s2 t" using t by (auto simp: run_logf log_frame)
    then show ?thesis
      using runtime_add [OF w] z same_zones_call [OF w] unfolding same_zones_def by (simp add: Let_def)
  qed
qed

lemma ensurePermanentFirewallPort_adds:
  "ensurePermanentFirewallPort db zone port protocol s = (Inr u, t) \<Longrightarrow>
     [port, protocol] \<in> items t (True, if zone = [] then defzone s else zone, KPort)"
  unfolding ensurePermanentFirewallPort_def
  by (rule permanent_adds [where k = KPort and x = "[_, _]", unfolded query_method.simps add_method.simps list.map])

lemma ensurePermanentFirewallRichRule_adds:
  "ensurePermanentFirewallRichRule db zone rule s = (Inr u, t) \<Longrightarrow>
     [rule] \<in> items t (True, if zone = [] then defzone s else zone, KRule)"
  unfolding ensurePermanentFirewallRichRule_def
  by (rule permanent_adds [where k = KRule and x = "[_]", unfolded query_method.simps add_method.simps list.map])

lemmas runtime_port_adds = runtime_adds [where k = KPort and x = "[_, _]",
    unfolded query_method.simps add_method.simps list.map append_Cons append_Nil,
    folded queryFirewallPort_def addFirewallPort_def]

lemmas runtime_rule_adds = runtime_adds [where k = KRule and x = "[_]",
    unfolded query_method.simps add_method.simps list.map append_Cons append_Nil,
    folded queryFirewallRichRule_def addFirewallRichRule_def]

definition open_both :: "'x host_scheme \<Rightarrow> FirewallPortConfig \<Rightarrow> bool" where
  "open_both t port \<longleftrightarrow> (case port_item (defzone t) port of
     Inl _ \<Rightarrow> False | Inr (z, k, x) \<Rightarrow> x \<in> items t (False, z, k) \<and> x \<in> items t (True, z, k))"

lemma open_both_grows: "open_both s port \<Longrightarrow> grows s t \<Longrightarrow> open_both t port"
  unfolding open_both_def grows_def same_zones_def by (auto split: sum.splits)

lemma zone_or_default_raw: "zone_or_default dz z = (if TrimSpace z = [] then dz else TrimSpace z)"
  by (simp add: zone_or_default_def)

lemma open_both_after:
  assumes "openDeclaredFirewallPort db port s = (Inr u, t)"
  shows "open_both t port"
proof (cases "TrimSpace (fw_Source port) = []")
  case True
  let ?z = "TrimSpace (fw_Zone port)" and ?p = "TrimSpace (fw_Port port)" and ?pr = "normal_protocol (fw_Protocol port)"
  obtain b s1 s2 where 1: "queryFirewallPort db ?z ?p ?pr s = (Inr b, s1)"
    and 2: "(if \<not> b then io_then (io_wrap (Wrapf ''open firewall port %s/%s failed: %w'' [?p, ?pr])
              (addFirewallPort db ?z ?p ?pr)) (logf ''opened firewall port %s/%s'' [?p, ?pr])
        else io_ok ()) s1 = (Inr (), s2)"
    and 3: "ensurePermanentFirewallPort db ?z ?p ?pr s2 = (Inr u, t)"
    using assms True by (auto simp: openDeclaredFirewallPort_def openDeclaredPlainFirewallPort_def Let_def
        success_simps simp del: if_not_P)
  have "grows s2 t" by (rule io_keepsD [OF keeps_permanent_port _ 3]) simp
  note g = growsD [OF this]
  with runtime_port_adds [OF 1 2] ensurePermanentFirewallPort_adds [OF 3] True show ?thesis
    by (auto simp: open_both_def port_item_def Let_def zone_or_default_raw same_zones_def split: if_splits)
next
  case False
  let ?z = "TrimSpace (fw_Zone port)" and ?p = "TrimSpace (fw_Port port)" and ?pr = "normal_protocol (fw_Protocol port)"
  obtain rule b s1 s2 where 0: "firewallRichRule (TrimSpace (fw_Source port)) (fw_Port port) (fw_Protocol port) = Inr rule"
    and 1: "queryFirewallRichRule db ?z rule s = (Inr b, s1)"
    and 2: "(if \<not> b then io_then (io_wrap (Wrapf ''open firewall rich rule %q failed: %w'' [rule])
              (addFirewallRichRule db ?z rule)) (logf ''opened firewall rich rule %q'' [rule])
        else io_ok ()) s1 = (Inr (), s2)"
    and 3: "ensurePermanentFirewallRichRule db ?z rule s2 = (Inr u, t)"
    using assms False by (auto simp: openDeclaredFirewallPort_def openDeclaredSourceFirewallPort_def Let_def
        success_simps simp del: if_not_P)
  have "grows s2 t" by (rule io_keepsD [OF keeps_permanent_rule _ 3]) simp
  note g = growsD [OF this]
  with runtime_rule_adds [OF 1 2] ensurePermanentFirewallRichRule_adds [OF 3] 0 False show ?thesis
    by (auto simp: open_both_def port_item_def Let_def zone_or_default_raw same_zones_def split: if_splits)
qed

lemma open_all:
  "io_iter (openDeclaredFirewallPort db) ports s = (r, t) \<Longrightarrow>
     grows s t \<and> (is_ok r \<longrightarrow> list_all (open_both t) ports)"
proof (induction ports arbitrary: s r)
  case Nil
  then show ?case by simp
next
  case (Cons p ports)
  obtain r1 s1 where 1: "openDeclaredFirewallPort db p s = (r1, s1)" by (cases "openDeclaredFirewallPort db p s")
  have g: "grows s s1" by (rule io_keepsD [OF open_grows _ 1]) simp
  show ?case
  proof (cases r1)
    case (Inl e)
    then show ?thesis using Cons.prems 1 g by (auto simp: run_then)
  next
    case (Inr u)
    then have "io_iter (openDeclaredFirewallPort db) ports s1 = (r, t)" using Cons.prems 1 by (simp add: run_then)
    note ih = Cons.IH [OF this]
    have "open_both s1 p" using 1 Inr by (simp add: open_both_after)
    then have "open_both t p" using ih open_both_grows by blast
    moreover have "grows s t" using g ih unfolding grows_def by (blast intro: same_zones_trans)
    ultimately show ?thesis using ih by simp
  qed
qed

end

section \<open>Pruning\<close>

text \<open>What pruning keeps in a slot.\<close>

fun keep_item :: "(string \<rightharpoonup> declaredFirewallZone) \<Rightarrow> slot \<Rightarrow> string list \<Rightarrow> bool" where
  "keep_item d (b, z, KPort) x =
     (case x of [p, pr] \<Rightarrow> firewallPortKey p pr \<in> dz_ports (zone_declared d z) | _ \<Rightarrow> True)"
| "keep_item d (b, z, KRule) x =
     (case x of [r] \<Rightarrow> r \<in> dz_richRules (zone_declared d z) | _ \<Rightarrow> False)"
| "keep_item d (b, z, KService) x = False"

context firewalld begin

text \<open>
  \<open>pruned K A s r t\<close>: outside the slots \<open>A\<close> nothing changed; inside nothing was added and nothing
  to be kept was removed, and when the run succeeded exactly what is to be kept remains.
\<close>

definition pruned ::
    "(slot \<Rightarrow> string list \<Rightarrow> bool) \<Rightarrow> slot set \<Rightarrow> 'x host_scheme \<Rightarrow> 'a res \<Rightarrow> 'x host_scheme \<Rightarrow> bool" where
  "pruned K A s r t \<longleftrightarrow> same_zones s t \<and>
     (\<forall>sl. (sl \<notin> A \<longrightarrow> items t sl = items s sl) \<and>
       {x \<in> items s sl. K sl x} \<subseteq> items t sl \<and> items t sl \<subseteq> items s sl \<and>
       (is_ok r \<longrightarrow> sl \<in> A \<longrightarrow> items t sl = {x \<in> items s sl. K sl x}))"

lemma prunedI:
  assumes "same_zones s t" "\<And>sl. sl \<notin> A \<Longrightarrow> items t sl = items s sl"
    "\<And>sl x. x \<in> items s sl \<Longrightarrow> K sl x \<Longrightarrow> x \<in> items t sl"
    "\<And>sl x. x \<in> items t sl \<Longrightarrow> x \<in> items s sl"
    "\<And>sl x. is_ok r \<Longrightarrow> sl \<in> A \<Longrightarrow> x \<in> items t sl \<Longrightarrow> K sl x"
  shows "pruned K A s r t"
  unfolding pruned_def using assms by blast

lemma prunedD:
  assumes "pruned K A s r t"
  shows "same_zones s t" "sl \<notin> A \<Longrightarrow> items t sl = items s sl"
    "x \<in> items s sl \<Longrightarrow> K sl x \<Longrightarrow> x \<in> items t sl"
    "x \<in> items t sl \<Longrightarrow> x \<in> items s sl"
    "is_ok r \<Longrightarrow> sl \<in> A \<Longrightarrow> x \<in> items t sl \<Longrightarrow> K sl x"
  using assms unfolding pruned_def by blast+

lemma pruned_same: "same_zones s t \<Longrightarrow> items t = items s \<Longrightarrow> \<not> is_ok r \<or> A = {} \<Longrightarrow> pruned K A s r t"
  by (rule prunedI) auto

lemma pruned_fail: "pruned K A s (Inl e) t \<Longrightarrow> pruned K (A \<union> B) s (Inl e' :: 'b res) t"
  unfolding pruned_def by (auto simp del: split_paired_All)

lemma pruned_trans:
  assumes 1: "pruned K A s (Inr v) u" and 2: "pruned K B u r t"
  shows "pruned K (A \<union> B) s r t"
proof (rule prunedI)
  note p1 = prunedD [OF 1] and p2 = prunedD [OF 2]
  show "same_zones s t" using p1(1) p2(1) by (rule same_zones_trans)
  show "items t sl = items s sl" if "sl \<notin> A \<union> B" for sl using p1(2) p2(2) that by simp
  show "x \<in> items t sl" if "x \<in> items s sl" "K sl x" for sl x using p1(3) p2(3) that by blast
  show "x \<in> items s sl" if "x \<in> items t sl" for sl x using p1(4) p2(4) that by blast
  show "K sl x" if "is_ok r" "sl \<in> A \<union> B" "x \<in> items t sl" for sl x
    using that p1(5) [of sl x] p2(4) [of x sl] p2(5) [of sl x] by auto
qed

lemma pruned_then:
  assumes "\<And>s r t. m s = (r, t) \<Longrightarrow> pruned K A s r t" "\<And>s r t. n s = (r, t) \<Longrightarrow> pruned K B s r t"
    and "io_then m n s = (r, t)"
  shows "pruned K (A \<union> B) s r t"
proof -
  obtain r1 u where u: "m s = (r1, u)" by (cases "m s")
  show ?thesis
  proof (cases r1)
    case (Inl e)
    then show ?thesis using assms(1) [OF u] assms(3) u by (auto simp: run_then intro: pruned_fail)
  next
    case (Inr v)
    then have "n u = (r, t)" using assms(3) u by (simp add: run_then)
    then show ?thesis using assms(1) [OF u] assms(2) Inr by (blast intro: pruned_trans)
  qed
qed

lemma pruned_iter:
  assumes "\<And>x s r t. x \<in> set xs \<Longrightarrow> f x s = (r, t) \<Longrightarrow> pruned K (A x) s r t"
    and "io_iter f xs s = (r, t)"
  shows "pruned K (\<Union>x \<in> set xs. A x) s r t"
  using assms
proof (induction xs arbitrary: s r t)
  case Nil
  then show ?case by (auto intro: pruned_same)
next
  case (Cons x xs)
  have "pruned K (A x \<union> (\<Union>x \<in> set xs. A x)) s r t"
  proof (rule pruned_then)
    show "pruned K (A x) s r t" if "f x s = (r, t)" for s r t using Cons.prems(1) that by simp
    show "pruned K (\<Union>x \<in> set xs. A x) s r t" if "io_iter f xs s = (r, t)" for s r t
      using Cons.IH Cons.prems(1) that by simp
    show "io_then (f x) (io_iter f xs) s = (r, t)" using Cons.prems(2) by simp
  qed
  then show ?case by simp
qed

text \<open>Listing a slot and removing every entry that is not to be kept.\<close>

definition removes :: "(slot \<Rightarrow> string list \<Rightarrow> bool) \<Rightarrow> slot \<Rightarrow> ('a \<Rightarrow> string list) \<Rightarrow> ('a \<Rightarrow> ('x host_scheme, unit) io) \<Rightarrow> bool" where
  "removes K sl g f \<longleftrightarrow> (\<forall>x s r t. f x s = (r, t) \<longrightarrow> same_zones s t \<and>
     (if K sl (g x) then items t = items s
      else (\<not> is_ok r \<and> items t = items s) \<or> items t = (items s)(sl := items s sl - {g x})))"

lemma remove_loop:
  assumes "removes K sl g f" "io_iter f xs s = (r, t)"
  shows "same_zones s t \<and> (\<forall>sl'. sl' \<noteq> sl \<longrightarrow> items t sl' = items s sl') \<and>
    {y \<in> items s sl. K sl y} \<subseteq> items t sl \<and> items t sl \<subseteq> items s sl \<and>
    (is_ok r \<longrightarrow> items t sl = items s sl - {y \<in> g ` set xs. \<not> K sl y})"
  using assms(2)
proof (induction xs arbitrary: s)
  case Nil
  then show ?case by auto
next
  case (Cons x xs)
  obtain r1 u where u: "f x s = (r1, u)" by (cases "f x s")
  have step: "same_zones s u" "if K sl (g x) then items u = items s
      else (\<not> is_ok r1 \<and> items u = items s) \<or> items u = (items s)(sl := items s sl - {g x})"
    using assms(1) u unfolding removes_def by blast+
  show ?case
  proof (cases r1)
    case (Inl e)
    with Cons.prems u have "u = t" "\<not> is_ok r" by (auto simp: run_then)
    with step show ?thesis by (auto split: if_splits)
  next
    case (Inr v)
    with Cons.prems u have "io_iter f xs u = (r, t)" by (simp add: run_then)
    from Cons.IH [OF this] step Inr show ?thesis
      by (auto split: if_splits dest: same_zones_trans)
  qed
qed

lemma list_and_remove:
  assumes "removes K sl g f"
    and get: "\<And>s r t. m s = (r, t) \<Longrightarrow> same_zones s t \<and> items t = items s \<and> (\<forall>xs. r = Inr xs \<longrightarrow> g ` set xs = items s sl)"
    and run: "io_bind (io_wrap w m) (io_iter f) s = (r, t)"
  shows "pruned K {sl} s r t"
proof -
  obtain r1 u where u: "m s = (r1, u)" by (cases "m s")
  note g = get [OF u]
  show ?thesis
  proof (cases r1)
    case (Inl e)
    with run u g show ?thesis by (auto simp: run_bind run_wrap intro!: pruned_same)
  next
    case (Inr xs)
    with run u have "io_iter f xs u = (r, t)" by (simp add: run_bind run_wrap)
    note loop = remove_loop [OF assms(1) this]
    from g Inr have "g ` set xs = items u sl" by simp
    with loop g show ?thesis
      by (intro prunedI) (auto dest: same_zones_trans simp del: split_paired_All)
  qed
qed

lemma store_frame: "call_store db p m a st s = (r, t) \<Longrightarrow> same_zones s t"
  by (auto elim!: call_store_run intro: same_zones_call)

lemma err_frame: "call_err db p m a s = (r, t) \<Longrightarrow> same_zones s t"
  by (auto elim!: call_err_run intro: same_zones_call)

lemma removes_runtime:
  assumes "z \<noteq> []" "\<And>x. f x = (if K (False, z, k) (g x) then io_ok () else
     io_then (io_wrap (w x) (call_store db firewalldObjectPath (firewalldZoneInterface @ remove_method k)
       (DStr z # map DStr (g x)) rp_string)) (logf l (a x)))"
  shows "removes K (False, z, k) g f"
  unfolding removes_def
proof (intro allI impI)
  fix x s r t assume run: "f x s = (r, t)"
  show "same_zones s t \<and> (if K (False, z, k) (g x) then items t = items s
      else (\<not> is_ok r \<and> items t = items s) \<or> items t = (items s)((False, z, k) := items s (False, z, k) - {g x}))"
  proof (cases "K (False, z, k) (g x)")
    case True
    with run show ?thesis by (simp add: assms(2))
  next
    case False
    obtain r1 u where u: "db_call db firewalldObjectPath (firewalldZoneInterface @ remove_method k)
       (DStr z # map DStr (g x)) s = (r1, u)" by (metis prod.collapse)
    have "same_zones s u" using u by (rule same_zones_call)
    moreover have "\<exists>l'. t = u \<or> t = u\<lparr>ho_log := l'\<rparr>" "r1 = Inl e \<Longrightarrow> \<not> is_ok r" for e
      using run u False by (auto simp: assms(2) run_then run_wrap call_store_def run_bind run_logf
          split: prod.splits sum.splits)
    ultimately show ?thesis
      using False u assms(1) by (cases r1) (auto simp: log_frame Let_def dest!: runtime_remove call_failed)
  qed
qed

lemma removes_permanent:
  assumes "\<And>x. f x = (if K (True, z, k) (g x) then io_ok () else
     io_then (io_wrap (w x) (call_err db (zpath z) (firewalldConfigZoneInterface @ remove_method k)
       (map DStr (g x)))) (logf l (a x)))"
  shows "removes K (True, z, k) g f"
  unfolding removes_def
proof (intro allI impI)
  fix x s r t assume run: "f x s = (r, t)"
  show "same_zones s t \<and> (if K (True, z, k) (g x) then items t = items s
      else (\<not> is_ok r \<and> items t = items s) \<or> items t = (items s)((True, z, k) := items s (True, z, k) - {g x}))"
  proof (cases "K (True, z, k) (g x)")
    case True
    with run show ?thesis by (simp add: assms)
  next
    case False
    obtain r1 u where u: "db_call db (zpath z) (firewalldConfigZoneInterface @ remove_method k)
       (map DStr (g x)) s = (r1, u)" by (metis prod.collapse)
    have "same_zones s u" using u by (rule same_zones_call)
    moreover have "\<exists>l'. t = u \<or> t = u\<lparr>ho_log := l'\<rparr>" "r1 = Inl e \<Longrightarrow> \<not> is_ok r" for e
      using run u False by (auto simp: assms run_then run_wrap call_err_def run_bind run_logf
          split: prod.splits sum.splits)
    ultimately show ?thesis
      using False u by (cases r1) (auto simp: log_frame dest!: permanent_remove call_failed)
  qed
qed

end

context firewalld begin

lemma runtime_get_run:
  assumes "call_store db firewalldObjectPath (firewalldZoneInterface @ get_method k) [DStr z] st s = (r, t)"
    and "z \<noteq> []" and "\<And>v xs. st v = Inr xs \<Longrightarrow> listing False k v = Inr (map g xs)"
  shows "same_zones s t \<and> items t = items s \<and> (\<forall>xs. r = Inr xs \<longrightarrow> g ` set xs = items s (False, z, k))"
  using assms(1)
proof (rule call_store_run)
  fix e assume "db_call db firewalldObjectPath (firewalldZoneInterface @ get_method k) [DStr z] s = (Inl e, t)" "r = Inl e"
  then show ?thesis by (simp add: call_failed same_zones_call)
next
  fix v assume v: "db_call db firewalldObjectPath (firewalldZoneInterface @ get_method k) [DStr z] s = (Inr v, t)" "r = st v"
  have "g ` set xs = items s (False, z, k)" if "r = Inr xs" for xs
    using runtime_get [OF v(1)] assms(2) assms(3) [of v xs] v(2) that by simp
  then show ?thesis using runtime_get [OF v(1)] same_zones_call [OF v(1)] by simp
qed

lemma permanent_get_run:
  assumes "call_store db (zpath z) (firewalldConfigZoneInterface @ get_method k) [] st s = (r, t)"
    and "\<And>v xs. st v = Inr xs \<Longrightarrow> listing True k v = Inr (map g xs)"
  shows "same_zones s t \<and> items t = items s \<and> (\<forall>xs. r = Inr xs \<longrightarrow> g ` set xs = items s (True, z, k))"
  using assms(1)
proof (rule call_store_run)
  fix e assume "db_call db (zpath z) (firewalldConfigZoneInterface @ get_method k) [] s = (Inl e, t)" "r = Inl e"
  then show ?thesis by (simp add: call_failed same_zones_call)
next
  fix v assume v: "db_call db (zpath z) (firewalldConfigZoneInterface @ get_method k) [] s = (Inr v, t)" "r = st v"
  have "g ` set xs = items s (True, z, k)" if "r = Inr xs" for xs
    using permanent_get [OF v(1)] assms(2) [of v xs] v(2) that by simp
  then show ?thesis using permanent_get [OF v(1)] same_zones_call [OF v(1)] by simp
qed

lemmas runtime_get_kind =
  runtime_get_run [where k = KPort, unfolded get_method.simps]
  runtime_get_run [where k = KRule, unfolded get_method.simps]
  runtime_get_run [where k = KService, unfolded get_method.simps]

lemmas permanent_get_kind =
  permanent_get_run [where k = KPort, unfolded get_method.simps]
  permanent_get_run [where k = KRule, unfolded get_method.simps]
  permanent_get_run [where k = KService, unfolded get_method.simps]

lemma removes_runtime_ports:
  assumes "z \<noteq> []"
  shows "removes (keep_item d) (False, z, KPort) id (prune_runtime_port db z (zone_declared d z))"
proof (rule removes_runtime [OF assms])
  fix x :: "string list"
  show "prune_runtime_port db z (zone_declared d z) x =
    (if keep_item d (False, z, KPort) (id x) then io_ok ()
     else io_then (io_wrap (case x of [p, pr] \<Rightarrow>
         Wrapf ''close unmanaged firewall port %s/%s in zone %q failed: %w'' [p, pr, z] | _ \<Rightarrow> id)
       (call_store db firewalldObjectPath (firewalldZoneInterface @ remove_method KPort) (DStr z # map DStr (id x)) rp_string))
       (logf ''closed unmanaged firewall port %s/%s in zone %s'' (case x of [p, pr] \<Rightarrow> [p, pr, z] | _ \<Rightarrow> [])))"
    by (simp add: prune_runtime_port_def split: list.split)
qed

lemma pruneRuntimeZonePorts_run:
  assumes "z \<noteq> []" "pruneRuntimeZonePorts db z (zone_declared d z) s = (r, t)"
  shows "pruned (keep_item d) {(False, z, KPort)} s r t"
  using removes_runtime_ports [OF assms(1)] _ assms(2) [unfolded pruneRuntimeZonePorts_def]
proof (rule list_and_remove)
  fix s r t assume "call_store db firewalldObjectPath (firewalldZoneInterface @ ''.getPorts'') [DStr z] rp_stringss s = (r, t)"
  then show "same_zones s t \<and> items t = items s \<and> (\<forall>xs. r = Inr xs \<longrightarrow> id ` set xs = items s (False, z, KPort))"
    by (rule runtime_get_kind(1) [OF _ assms(1)]) simp
qed

lemma pruneRuntimeZoneRichRules_run:
  assumes "z \<noteq> []" "pruneRuntimeZoneRichRules db z (zone_declared d z) s = (r, t)"
  shows "pruned (keep_item d) {(False, z, KRule)} s r t"
proof -
  have "removes (keep_item d) (False, z, KRule) (\<lambda>rule. [rule]) (\<lambda>rule.
       if rule \<in> dz_richRules (zone_declared d z) then io_ok ()
       else io_then (io_wrap (Wrapf ''remove unmanaged firewall rich rule %q in zone %q failed: %w'' [rule, z])
              (call_store db firewalldObjectPath (firewalldZoneInterface @ ''.removeRichRule'')
                [DStr z, DStr rule] rp_string))
            (logf ''removed unmanaged firewall rich rule %q in zone %s'' [rule, z]))"
    by (rule removes_runtime [OF assms(1), where k = KRule
        and w = "\<lambda>rule. Wrapf ''remove unmanaged firewall rich rule %q in zone %q failed: %w'' [rule, z]"
        and a = "\<lambda>rule. [rule, z]" and l = "''removed unmanaged firewall rich rule %q in zone %s''"]) simp
  then show ?thesis using _ assms(2) [unfolded pruneRuntimeZoneRichRules_def]
  proof (rule list_and_remove)
    fix s r t assume "call_store db firewalldObjectPath (firewalldZoneInterface @ ''.getRichRules'') [DStr z] rp_strings s = (r, t)"
    then show "same_zones s t \<and> items t = items s \<and> (\<forall>xs. r = Inr xs \<longrightarrow> (\<lambda>rule. [rule]) ` set xs = items s (False, z, KRule))"
      by (rule runtime_get_kind(2) [OF _ assms(1)]) simp
  qed
qed

lemma pruneRuntimeZoneServices_run:
  assumes "z \<noteq> []" "pruneRuntimeZoneServices db z s = (r, t)"
  shows "pruned (keep_item d) {(False, z, KService)} s r t"
proof -
  have "removes (keep_item d) (False, z, KService) (\<lambda>service. [service]) (\<lambda>service.
       io_then (io_wrap (Wrapf ''remove firewall service %q in zone %q failed: %w'' [service, z])
           (call_store db firewalldObjectPath (firewalldZoneInterface @ ''.removeService'')
             [DStr z, DStr service] rp_string))
         (logf ''removed firewall service %s in zone %s'' [service, z]))"
    by (rule removes_runtime [OF assms(1), where k = KService]) simp
  then show ?thesis using _ assms(2) [unfolded pruneRuntimeZoneServices_def]
  proof (rule list_and_remove)
    fix s r t assume "call_store db firewalldObjectPath (firewalldZoneInterface @ ''.getServices'') [DStr z] rp_strings s = (r, t)"
    then show "same_zones s t \<and> items t = items s \<and> (\<forall>xs. r = Inr xs \<longrightarrow> (\<lambda>service. [service]) ` set xs = items s (False, z, KService))"
      by (rule runtime_get_kind(3) [OF _ assms(1)]) simp
  qed
qed

lemma prunePermanentZonePorts_run:
  assumes "prunePermanentZonePorts db (zpath z) z (zone_declared d z) s = (r, t)"
  shows "pruned (keep_item d) {(True, z, KPort)} s r t"
proof -
  have "removes (keep_item d) (True, z, KPort) (\<lambda>(port, protocol). [port, protocol]) (\<lambda>(port, protocol).
       if firewallPortKey port protocol \<in> dz_ports (zone_declared d z) then io_ok ()
       else io_then (io_wrap (Wrapf ''remove permanent firewall port %s/%s in zone %q failed: %w'' [port, protocol, z])
              (call_err db (zpath z) (firewalldConfigZoneInterface @ ''.removePort'') [DStr port, DStr protocol]))
            (logf ''removed unmanaged permanent firewall port %s/%s in zone %s'' [port, protocol, z]))"
    by (rule removes_permanent [where k = KPort
        and w = "\<lambda>(port, protocol). Wrapf ''remove permanent firewall port %s/%s in zone %q failed: %w'' [port, protocol, z]"
        and a = "\<lambda>(port, protocol). [port, protocol, z]"
        and l = "''removed unmanaged permanent firewall port %s/%s in zone %s''"]) (simp split: prod.split)
  then show ?thesis using _ assms [unfolded prunePermanentZonePorts_def]
  proof (rule list_and_remove)
    fix s r t assume "call_store db (zpath z) (firewalldConfigZoneInterface @ ''.getPorts'') [] rp_pairs s = (r, t)"
    then show "same_zones s t \<and> items t = items s \<and>
        (\<forall>xs. r = Inr xs \<longrightarrow> (\<lambda>(port, protocol). [port, protocol]) ` set xs = items s (True, z, KPort))"
      by (rule permanent_get_kind(1)) simp
  qed
qed

lemma prunePermanentZoneRichRules_run:
  assumes "prunePermanentZoneRichRules db (zpath z) z (zone_declared d z) s = (r, t)"
  shows "pruned (keep_item d) {(True, z, KRule)} s r t"
proof -
  have "removes (keep_item d) (True, z, KRule) (\<lambda>rule. [rule]) (\<lambda>rule.
       if rule \<in> dz_richRules (zone_declared d z) then io_ok ()
       else io_then (io_wrap (Wrapf ''remove permanent firewall rich rule %q in zone %q failed: %w'' [rule, z])
              (call_err db (zpath z) (firewalldConfigZoneInterface @ ''.removeRichRule'') [DStr rule]))
            (logf ''removed unmanaged permanent firewall rich rule %q in zone %s'' [rule, z]))"
    by (rule removes_permanent [where k = KRule
        and w = "\<lambda>rule. Wrapf ''remove permanent firewall rich rule %q in zone %q failed: %w'' [rule, z]"
        and a = "\<lambda>rule. [rule, z]" and l = "''removed unmanaged permanent firewall rich rule %q in zone %s''"]) simp
  then show ?thesis using _ assms [unfolded prunePermanentZoneRichRules_def]
  proof (rule list_and_remove)
    fix s r t assume "call_store db (zpath z) (firewalldConfigZoneInterface @ ''.getRichRules'') [] rp_strings s = (r, t)"
    then show "same_zones s t \<and> items t = items s \<and> (\<forall>xs. r = Inr xs \<longrightarrow> (\<lambda>rule. [rule]) ` set xs = items s (True, z, KRule))"
      by (rule permanent_get_kind(2)) simp
  qed
qed

lemma prunePermanentZoneServices_run:
  assumes "prunePermanentZoneServices db (zpath z) z s = (r, t)"
  shows "pruned (keep_item d) {(True, z, KService)} s r t"
proof -
  have "removes (keep_item d) (True, z, KService) (\<lambda>service. [service]) (\<lambda>service.
       io_then (io_wrap (Wrapf ''remove permanent firewall service %q in zone %q failed: %w'' [service, z])
           (call_err db (zpath z) (firewalldConfigZoneInterface @ ''.removeService'') [DStr service]))
         (logf ''removed permanent firewall service %s in zone %s'' [service, z]))"
    by (rule removes_permanent [where k = KService]) simp
  then show ?thesis using _ assms [unfolded prunePermanentZoneServices_def]
  proof (rule list_and_remove)
    fix s r t assume "call_store db (zpath z) (firewalldConfigZoneInterface @ ''.getServices'') [] rp_strings s = (r, t)"
    then show "same_zones s t \<and> items t = items s \<and> (\<forall>xs. r = Inr xs \<longrightarrow> (\<lambda>service. [service]) ` set xs = items s (True, z, KService))"
      by (rule permanent_get_kind(3)) simp
  qed
qed

definition zone_slots :: "bool \<Rightarrow> string \<Rightarrow> slot set" where
  "zone_slots b z = {(b, z, KPort), (b, z, KRule), (b, z, KService)}"

lemma in_zone_slots [simp]: "(b', z', k) \<in> zone_slots b z \<longleftrightarrow> b' = b \<and> z' = z"
  by (cases k) (auto simp: zone_slots_def)

lemma zone_slots_Un: "{(b, z, KPort)} \<union> ({(b, z, KRule)} \<union> {(b, z, KService)}) = zone_slots b z"
  by (auto simp: zone_slots_def)

lemma pruneRuntimeZone_run:
  assumes "z \<noteq> []" "pruneRuntimeZone db z (zone_declared d z) s = (r, t)"
  shows "pruned (keep_item d) (zone_slots False z) s r t"
proof -
  note ports = pruneRuntimeZonePorts_run [OF assms(1)]
    and rest = pruned_then [OF pruneRuntimeZoneRichRules_run [OF assms(1)] pruneRuntimeZoneServices_run [OF assms(1)]]
  show ?thesis
    unfolding zone_slots_Un [symmetric]
    by (rule pruned_then [OF ports rest assms(2) [unfolded pruneRuntimeZone_def]])
qed

lemma prunePermanentZone_run:
  assumes "prunePermanentZone db z (zone_declared d z) s = (r, t)"
  shows "pruned (keep_item d) (zone_slots True z) s r t"
proof -
  note rest = pruned_then [OF prunePermanentZonePorts_run
      pruned_then [OF prunePermanentZoneRichRules_run prunePermanentZoneServices_run]]
  obtain r1 u where u: "zone_path db z s = (r1, u)" by (cases "zone_path db z s")
  note path = zone_path_run [OF u]
  show ?thesis
  proof (cases r1)
    case (Inl e)
    with assms u path show ?thesis
      by (auto simp: prunePermanentZone_def run_bind intro!: pruned_same)
  next
    case (Inr p)
    with path have p: "p = zpath z" by simp
    have "pruned (keep_item d) ({(True, z, KPort)} \<union> ({(True, z, KRule)} \<union> {(True, z, KService)})) u r t"
      using assms u Inr p by (intro rest) (auto simp: prunePermanentZone_def run_bind)
    moreover have "pruned (keep_item d) {} s (Inr ()) u" using path by (intro pruned_same) auto
    ultimately show ?thesis using pruned_trans unfolding zone_slots_Un by fastforce
  qed
qed

definition half_slots :: "bool \<Rightarrow> string set \<Rightarrow> slot set" where
  "half_slots b zs = {(b', z, k) | b' z k. b' = b \<and> z \<in> zs}"

lemma in_half_slots [simp]: "(b', z, k) \<in> half_slots b zs \<longleftrightarrow> b' = b \<and> z \<in> zs"
  by (simp add: half_slots_def)

lemma half_slots_UN: "(\<Union>z \<in> zs. zone_slots b z) = half_slots b zs"
  by auto

text \<open>Listing the zones, then pruning each.\<close>

lemma zones_then:
  assumes get: "\<And>s r t. m s = (r, t) \<Longrightarrow> same_zones s t \<and> items t = items s \<and> (\<forall>zs. r = Inr zs \<longrightarrow> set zs = zones s b)"
    and zone: "\<And>z s r t. z \<noteq> [] \<Longrightarrow> f z s = (r, t) \<Longrightarrow> pruned K (zone_slots b z) s r t"
    and run: "io_bind (io_wrap w m) (io_iter f) s = (r, t)"
  shows "pruned K (half_slots b (zones s b)) s r t"
proof -
  obtain r1 u where u: "m s = (r1, u)" by (cases "m s")
  note g = get [OF u]
  show ?thesis
  proof (cases r1)
    case (Inl e)
    with run u g show ?thesis by (auto simp: run_bind run_wrap intro!: pruned_same)
  next
    case (Inr zs)
    with run u have "io_iter f zs u = (r, t)" by (simp add: run_bind run_wrap)
    then have "pruned K (\<Union>z \<in> set zs. zone_slots b z) u r t"
      by (rule pruned_iter [rotated]) (use zone g Inr zones_named in metis)
    moreover have "pruned K {} s (Inr ()) u" using g by (intro pruned_same) auto
    ultimately show ?thesis using pruned_trans [of K "{}" s "()" u] g Inr by (simp add: half_slots_UN)
  qed
qed

lemma store_zones_run:
  assumes "\<And>s v t. db_call db p m [] s = (Inr v, t) \<Longrightarrow>
      items t = items s \<and> (\<forall>zs. rp_strings v = Inr zs \<longrightarrow> set zs = zones s b)"
    and "call_store db p m [] rp_strings s = (r, t)"
  shows "same_zones s t \<and> items t = items s \<and> (\<forall>zs. r = Inr zs \<longrightarrow> set zs = zones s b)"
  using assms(2) by (rule call_store_run) (use assms(1) in \<open>auto simp: same_zones_call call_failed\<close>)

lemma removeUnmanagedRuntimeRules_run:
  assumes "removeUnmanagedRuntimeRules db d s = (r, t)"
  shows "pruned (keep_item d) (half_slots False (zones s False)) s r t"
  using store_zones_run [OF runtime_zones] pruneRuntimeZone_run assms [unfolded removeUnmanagedRuntimeRules_def]
  by (rule zones_then)

lemma removeUnmanagedPermanentRules_run:
  assumes "removeUnmanagedPermanentRules db d s = (r, t)"
  shows "pruned (keep_item d) (half_slots True (zones s True)) s r t"
  using store_zones_run [OF permanent_zones] prunePermanentZone_run assms [unfolded removeUnmanagedPermanentRules_def]
  by (rule zones_then)

lemma removeUnmanagedFirewallRules_run:
  assumes "removeUnmanagedFirewallRules db d s = (r, t)"
  shows "pruned (keep_item d) (half_slots False (zones s False) \<union> half_slots True (zones s True)) s r t"
proof -
  obtain r1 u where u: "removeUnmanagedRuntimeRules db d s = (r1, u)" by (cases "removeUnmanagedRuntimeRules db d s")
  note 1 = removeUnmanagedRuntimeRules_run [OF u]
  show ?thesis
  proof (cases r1)
    case (Inl e)
    with assms u 1 show ?thesis
      by (auto simp: removeUnmanagedFirewallRules_def run_then intro: pruned_fail)
  next
    case (Inr v)
    with assms u have "removeUnmanagedPermanentRules db d u = (r, t)"
      by (simp add: removeUnmanagedFirewallRules_def run_then)
    note 2 = removeUnmanagedPermanentRules_run [OF this]
    have "zones u = zones s" using prunedD(1) [OF 1] by (simp add: same_zones_def)
    with 1 2 Inr show ?thesis using pruned_trans by fastforce
  qed
qed

end

section \<open>What the code declares\<close>

text \<open>Two ports are the same when their keys are; rules and services are compared as they are.\<close>

definition same_entry :: "fwkind \<Rightarrow> string list \<Rightarrow> string list \<Rightarrow> bool" where
  "same_entry k x y =
     (case (k, x, y) of (KPort, [a, b], [c, d]) \<Rightarrow> firewallPortKey a b = firewallPortKey c d
      | (KPort, _, _) \<Rightarrow> False | _ \<Rightarrow> x = y)"

lemma same_entry_simps [simp]:
  "same_entry KPort [a, b] [c, d] = (firewallPortKey a b = firewallPortKey c d)"
  "same_entry KRule x y = (x = y)" "same_entry KService x y = (x = y)"
  by (simp_all add: same_entry_def)

lemma same_entry_port_shape: "same_entry KPort x [c, d] \<Longrightarrow> \<exists>a b. x = [a, b]"
  by (auto simp: same_entry_def split: list.splits)

lemma port_item_self: "port_item dz p = Inr (z, k, y) \<Longrightarrow> same_entry k y y"
  by (auto simp: port_item_def Let_def res_bind_Inr_iff split: if_splits)

lemma declare_port_keep:
  assumes "declare_port dz p d = Inr d'"
  shows "keep_item d' (b, z, k) x \<longleftrightarrow>
    keep_item d (b, z, k) x \<or> (\<exists>y. port_item dz p = Inr (z, k, y) \<and> same_entry k x y)"
  using assms
  by (cases k)
     (auto simp: declare_port_def port_item_def Let_def res_bind_Inr_iff zone_declared_def no_ports_def
        same_entry_def split: if_splits list.splits option.splits)

lemma declare_port_ok: "is_ok (declare_port dz p d) = is_ok (port_item dz p)"
  by (cases "firewallRichRule (TrimSpace (fw_Source p)) (fw_Port p) (fw_Protocol p)")
     (simp_all add: declare_port_def port_item_def Let_def)

lemma declare_ports_keep:
  assumes "declare_ports dz ports d = Inr d'"
  shows "keep_item d' (b, z, k) x \<longleftrightarrow>
    keep_item d (b, z, k) x \<or> (\<exists>p \<in> set ports. \<exists>y. port_item dz p = Inr (z, k, y) \<and> same_entry k x y)"
  using assms
proof (induction ports arbitrary: d)
  case Nil
  then show ?case by simp
next
  case (Cons p ports)
  then obtain d1 where "declare_port dz p d = Inr d1" "declare_ports dz ports d1 = Inr d'"
    by (auto simp: res_bind_Inr_iff)
  with Cons.IH declare_port_keep show ?case by auto
qed

lemma declare_ports_ok: "is_ok (declare_ports dz ports d) \<longleftrightarrow> list_all (\<lambda>p. is_ok (port_item dz p)) ports"
proof (induction ports arbitrary: d)
  case (Cons p ports)
  then show ?case
    using declare_port_ok [of dz p d] by (cases "declare_port dz p d") simp_all
qed simp

lemma declared_keep:
  assumes "declaredFirewallPorts ports dz = Inr d"
  shows "keep_item d (b, z, k) x \<longleftrightarrow> k = KPort \<and> length x \<noteq> 2 \<or>
    (\<exists>p \<in> set ports. \<exists>y. port_item dz p = Inr (z, k, y) \<and> same_entry k x y)"
proof -
  have "keep_item (\<lambda>_. None) (b, z, k) x \<longleftrightarrow> k = KPort \<and> length x \<noteq> 2"
    by (cases k) (auto simp: zone_declared_def no_ports_def split: list.splits)
  with declare_ports_keep [OF assms [unfolded declaredFirewallPorts_def]] show ?thesis by simp
qed

text \<open>
  The contract of the reconcile: every declared entry is open in both configurations; in every
  zone the rich rules are exactly the declared ones, no service is left, and every open port
  has the key of a declared one.
\<close>

definition enforced ::
    "FirewallPortConfig list \<Rightarrow> string \<Rightarrow> (slot \<Rightarrow> string list set) \<Rightarrow> (bool \<Rightarrow> string set) \<Rightarrow> bool" where
  "enforced ports dz it zs \<longleftrightarrow>
     (\<forall>p \<in> set ports. case port_item dz p of Inl _ \<Rightarrow> False
        | Inr (z, k, x) \<Rightarrow> x \<in> it (False, z, k) \<and> x \<in> it (True, z, k)) \<and>
     (\<forall>b z. z \<in> zs b \<longrightarrow>
        it (b, z, KService) = {} \<and>
        it (b, z, KRule) = {x. \<exists>p \<in> set ports. port_item dz p = Inr (z, KRule, x)} \<and>
        (\<forall>x \<in> it (b, z, KPort). length x = 2 \<longrightarrow>
           (\<exists>p \<in> set ports. \<exists>y. port_item dz p = Inr (z, KPort, y) \<and> same_entry KPort x y)))"

context firewalld begin

lemma reconcile_any:
  assumes "reconcileFirewall db ports s = (r, t)"
  obtains (early) "grows s t" "\<not> is_ok r"
  | (pruning) u d where "grows s u" "list_all (open_both u) ports" "declaredFirewallPorts ports (defzone s) = Inr d"
      "pruned (keep_item d) (half_slots False (zones u False) \<union> half_slots True (zones u True)) u r t"
proof -
  obtain r1 s1 where 1: "getDefaultZone db s = (r1, s1)" by (cases "getDefaultZone db s")
  note g1 = getDefaultZone_run [OF 1]
  show ?thesis
  proof (cases r1)
    case (Inl e)
    with assms 1 g1 show ?thesis by (intro early) (auto simp: reconcileFirewall_def run_bind)
  next
    case (Inr dz)
    obtain r2 u where 2: "io_iter (openDeclaredFirewallPort db) ports s1 = (r2, u)"
      by (cases "io_iter (openDeclaredFirewallPort db) ports s1")
    note g2 = open_all [OF 2]
    have su: "grows s u" using g1 g2 grows_trans by blast
    show ?thesis
    proof (cases r2)
      case inl: (Inl e)
      with assms 1 2 Inr su show ?thesis by (intro early) (auto simp: reconcileFirewall_def run_bind run_then)
    next
      case inr: (Inr v)
      show ?thesis
      proof (cases "declaredFirewallPorts ports dz")
        case (Inl e)
        with assms 1 2 Inr inr su show ?thesis by (intro early) (auto simp: reconcileFirewall_def run_bind run_then)
      next
        case d: (Inr d)
        with assms 1 2 Inr inr have "removeUnmanagedFirewallRules db d u = (r, t)"
          by (simp add: reconcileFirewall_def run_bind run_then)
        then show ?thesis
          using g1 g2 su d Inr inr by (intro pruning [of u d] removeUnmanagedFirewallRules_run) auto
      qed
    qed
  qed
qed

lemma open_both_item:
  "open_both t p \<Longrightarrow> port_item (defzone t) p = Inr (z, k, x) \<Longrightarrow> x \<in> items t (b, z, k)"
  by (cases b) (auto simp: open_both_def)

lemma open_both_pruned:
  assumes "open_both u p" "p \<in> set ports" "declaredFirewallPorts ports (defzone u) = Inr d"
    and "pruned (keep_item d) A u r t"
  shows "open_both t p"
proof -
  obtain z k x where x: "port_item (defzone u) p = Inr (z, k, x)"
    using assms(1) by (auto simp: open_both_def split: sum.splits)
  have "keep_item d (b, z, k) x" for b
    unfolding declared_keep [OF assms(3)] using x assms(2) port_item_self by blast
  then have "x \<in> items t (b, z, k)" for b
    using open_both_item [OF assms(1) x] prunedD(3) [OF assms(4)] by blast
  then show ?thesis
    using x prunedD(1) [OF assms(4)] by (simp add: open_both_def same_zones_def)
qed

lemma reconcile_enforces:
  assumes "reconcileFirewall db ports s = (Inr v, t)"
  shows "enforced ports (defzone t) (items t) (zones t)"
  using assms
proof (cases rule: reconcile_any)
  case early
  then show ?thesis by simp
next
  case (pruning u d)
  note p = prunedD [OF pruning(4)]
  have dz: "defzone u = defzone s" "defzone t = defzone s" "zones t = zones u"
    using p(1) growsD(2) [OF pruning(1)] by (simp_all add: same_zones_def)
  have d: "declaredFirewallPorts ports (defzone u) = Inr d" using pruning(3) dz by simp
  have "open_both t q" if "q \<in> set ports" for q
    using open_both_pruned [OF _ that d pruning(4)] pruning(2) that by (simp add: list_all_iff)
  then have opened: "case port_item (defzone t) q of Inl _ \<Rightarrow> False
        | Inr (z, k, x) \<Rightarrow> x \<in> items t (False, z, k) \<and> x \<in> items t (True, z, k)" if "q \<in> set ports" for q
    using that unfolding open_both_def by blast
  have closed: "keep_item d (b, z, k) x" if "z \<in> zones t b" "x \<in> items t (b, z, k)" for b z k x
    using p(5) [of "(b, z, k)" x] that dz by (cases b) auto
  have "x \<in> items t (b, z, KRule) \<longleftrightarrow> (\<exists>q \<in> set ports. port_item (defzone t) q = Inr (z, KRule, x))"
    if "z \<in> zones t b" for b z x
  proof
    assume "x \<in> items t (b, z, KRule)"
    with closed [OF that this] show "\<exists>q \<in> set ports. port_item (defzone t) q = Inr (z, KRule, x)"
      unfolding declared_keep [OF pruning(3)] dz by auto
  next
    assume "\<exists>q \<in> set ports. port_item (defzone t) q = Inr (z, KRule, x)"
    then show "x \<in> items t (b, z, KRule)" using opened by (cases b) fastforce+
  qed
  moreover have "\<exists>q \<in> set ports. \<exists>y. port_item (defzone t) q = Inr (z, KPort, y) \<and> same_entry KPort x y"
    if "z \<in> zones t b" "x \<in> items t (b, z, KPort)" "length x = 2" for b z x
    using closed [OF that(1,2)] that(3) unfolding declared_keep [OF pruning(3)] dz by simp
  moreover have "items t (b, z, KService) = {}" if "z \<in> zones t b" for b z
    using closed [OF that, of _ KService] by auto
  ultimately show ?thesis using opened unfolding enforced_def by auto
qed

lemma reconcile_safe:
  assumes "reconcileFirewall db ports s = (r, t)" "p \<in> set ports"
    "port_item (defzone s) p = Inr (z, k, x)" "x \<in> items s (b, z, k)"
  shows "x \<in> items t (b, z, k)"
  using assms(1)
proof (cases rule: reconcile_any)
  case early
  then show ?thesis using growsD(1) assms(4) by blast
next
  case (pruning u d)
  have "keep_item d (b, z, k) x"
    unfolding declared_keep [OF pruning(3)] using assms(2,3) port_item_self by blast
  moreover have "x \<in> items u (b, z, k)" using growsD(1) [OF pruning(1) assms(4)] .
  ultimately show ?thesis by (rule prunedD(3) [OF pruning(4), rotated])
qed

lemma reconcile_order:
  assumes "reconcileFirewall db ports s = (r, t)" "x \<in> items s sl" "x \<notin> items t sl"
  shows "list_all (open_both t) ports"
  using assms(1)
proof (cases rule: reconcile_any)
  case early
  then show ?thesis using growsD(1) assms(2,3) by blast
next
  case (pruning u d)
  have "defzone u = defzone s" using growsD(2) [OF pruning(1)] by (simp add: same_zones_def)
  then have d: "declaredFirewallPorts ports (defzone u) = Inr d" using pruning(3) by simp
  show ?thesis
    using pruning(2) open_both_pruned [OF _ _ d pruning(4)] by (simp add: list_all_iff)
qed

end

subsection \<open>A converged firewall\<close>

context firewalld begin

definition at :: "(slot \<Rightarrow> string list set) \<Rightarrow> string \<Rightarrow> 'x host_scheme \<Rightarrow> bool" where
  "at it dz s \<longleftrightarrow> items s = it \<and> defzone s = dz"

lemma at_log: "at it dz (s\<lparr>ho_log := l\<rparr>) = at it dz s"
  by (simp add: at_def log_frame)

lemma at_reads:
  assumes "\<And>s v t. db_call db p m a s = (Inr v, t) \<Longrightarrow> items t = items s"
  shows "io_keeps (at it dz) (call_store db p m a st)"
proof (rule io_keepsI)
  fix s r t assume "at it dz s" "call_store db p m a st s = (r, t)"
  then show "at it dz t"
    using assms call_failed call_frame unfolding at_def by (metis call_store_run)
qed

lemma at_runtime:
  assumes "x \<in> it (False, if z = [] then dz else z, k)" and rest: "io_keeps (at it dz) rest"
  shows "io_keeps (at it dz) (io_bind (io_wrap g
      (call_store db firewalldObjectPath (firewalldZoneInterface @ query_method k) (DStr z # map DStr x) rp_bool))
    (\<lambda>enabled. io_then (if \<not> enabled then m else io_ok ()) rest))"
proof (rule keeps_bind_value)
  show "io_keeps (at it dz) (io_wrap g
      (call_store db firewalldObjectPath (firewalldZoneInterface @ query_method k) (DStr z # map DStr x) rp_bool))"
    by (intro keeps_wrap at_reads) (blast dest: runtime_query)
next
  fix s b t assume s: "at it dz s" and run: "io_wrap g
      (call_store db firewalldObjectPath (firewalldZoneInterface @ query_method k) (DStr z # map DStr x) rp_bool) s = (Inr b, t)"
  obtain v where "db_call db firewalldObjectPath (firewalldZoneInterface @ query_method k) (DStr z # map DStr x) s = (Inr v, t)"
      "rp_bool v = Inr b"
    using run unfolding wrap_success call_store_ok by blast
  then have "b" using runtime_query assms(1) s unfolding at_def by fastforce
  then show "io_keeps (at it dz) (io_then (if \<not> b then m else io_ok ()) rest)"
    using rest by (simp add: keeps_then keeps_pure)
qed

lemma at_permanent:
  assumes "x \<in> it (True, if zone = [] then dz else zone, k)"
  shows "io_keeps (at it dz) (io_bind (permanent_zone_name db zone) (\<lambda>zn.
     io_bind (zone_path db zn) (\<lambda>zp.
     io_bind (io_wrap g (call_store db zp (firewalldConfigZoneInterface @ query_method k) (map DStr x) rp_bool)) (\<lambda>enabled.
     if enabled then io_ok () else m zn zp))))"
proof (rule keeps_bind_value)
  show "io_keeps (at it dz) (permanent_zone_name db zone)"
    unfolding permanent_zone_name_def getDefaultZone_def
    by (intro keeps_if keeps_wrap at_reads keeps_pure) (blast dest: default_zone)
next
  fix s zn s1 assume s: "at it dz s" and "permanent_zone_name db zone s = (Inr zn, s1)"
  then have zn: "zn = (if zone = [] then dz else zone)" using permanent_zone_run unfolding at_def by blast
  show "io_keeps (at it dz) (io_bind (zone_path db zn) (\<lambda>zp.
     io_bind (io_wrap g (call_store db zp (firewalldConfigZoneInterface @ query_method k) (map DStr x) rp_bool)) (\<lambda>enabled.
     if enabled then io_ok () else m zn zp)))"
  proof (rule keeps_bind_value)
    show "io_keeps (at it dz) (zone_path db zn)"
      unfolding zone_path_def by (intro keeps_wrap at_reads) (blast dest: zone_by_name)
  next
    fix s zp s1 assume "zone_path db zn s = (Inr zp, s1)"
    then have zp: "zp = zpath zn" using zone_path_run by blast
    show "io_keeps (at it dz) (io_bind (io_wrap g (call_store db zp (firewalldConfigZoneInterface @ query_method k) (map DStr x) rp_bool)) (\<lambda>enabled.
        if enabled then io_ok () else m zn zp))"
    proof (rule keeps_bind_value)
      show "io_keeps (at it dz) (io_wrap g (call_store db zp (firewalldConfigZoneInterface @ query_method k) (map DStr x) rp_bool))"
        unfolding zp by (intro keeps_wrap at_reads) (blast dest: permanent_query)
    next
      fix s b t assume s: "at it dz s" and run: "io_wrap g
          (call_store db zp (firewalldConfigZoneInterface @ query_method k) (map DStr x) rp_bool) s = (Inr b, t)"
      obtain v where "db_call db (zpath zn) (firewalldConfigZoneInterface @ query_method k) (map DStr x) s = (Inr v, t)"
          "rp_bool v = Inr b"
        using run unfolding wrap_success call_store_ok zp by blast
      then have b using permanent_query assms s zn unfolding at_def by fastforce
      then show "io_keeps (at it dz) (if b then io_ok () else m zn zp)" by (simp add: keeps_pure)
    qed
  qed
qed

lemma at_open:
  assumes "case port_item dz p of Inl _ \<Rightarrow> False | Inr (z, k, x) \<Rightarrow> x \<in> it (False, z, k) \<and> x \<in> it (True, z, k)"
  shows "io_keeps (at it dz) (openDeclaredFirewallPort db p)"
proof (cases "TrimSpace (fw_Source p) = []")
  case True
  show ?thesis
    using assms True
    unfolding openDeclaredFirewallPort_def Let_def openDeclaredPlainFirewallPort_def queryFirewallPort_def
      ensurePermanentFirewallPort_def
    by (auto simp: port_item_def zone_or_default_def Let_def
        intro!: keeps_wrap at_runtime [where k = KPort and x = "[_, _]", simplified]
          at_permanent [where k = KPort and x = "[_, _]", simplified])
next
  case False
  then obtain rule where r: "firewallRichRule (TrimSpace (fw_Source p)) (fw_Port p) (fw_Protocol p) = Inr rule"
    using assms by (cases "firewallRichRule (TrimSpace (fw_Source p)) (fw_Port p) (fw_Protocol p)") (auto simp: port_item_def)
  have lift: "io_bind (io_wrap g (io_lift (Inr rule))) f = f rule" for g and f :: "string \<Rightarrow> ('x host_scheme, unit) io"
    by (simp add: fun_eq_iff run_bind run_wrap)
  show ?thesis
    using assms False r
    unfolding openDeclaredFirewallPort_def Let_def openDeclaredSourceFirewallPort_def queryFirewallRichRule_def
      ensurePermanentFirewallRichRule_def
    by (auto simp: port_item_def zone_or_default_def Let_def lift
        intro!: keeps_wrap at_runtime [where k = KRule and x = "[_]", simplified]
          at_permanent [where k = KRule and x = "[_]", simplified])
qed

lemma pruned_all_kept:
  assumes "pruned K A s r t" "\<And>sl x. sl \<in> A \<Longrightarrow> x \<in> items s sl \<Longrightarrow> K sl x"
  shows "items t = items s"
proof
  fix sl
  show "items t sl = items s sl"
    using prunedD [OF assms(1)] assms(2) by (cases "sl \<in> A") blast+
qed

lemma reconcile_converged:
  assumes "reconcileFirewall db ports s = (r, t)" "enforced ports (defzone s) (items s) (zones s)"
  shows "items t = items s"
proof -
  let ?J = "at (items s) (defzone s)"
  have item: "case port_item (defzone s) p of Inl _ \<Rightarrow> False
      | Inr (z, k, x) \<Rightarrow> x \<in> items s (False, z, k) \<and> x \<in> items s (True, z, k)" if "p \<in> set ports" for p
    using assms(2) that unfolding enforced_def by blast
  obtain r1 s1 where 1: "getDefaultZone db s = (r1, s1)" by (cases "getDefaultZone db s")
  note g1 = getDefaultZone_run [OF 1]
  obtain r2 u where 2: "io_iter (openDeclaredFirewallPort db) ports s1 = (r2, u)"
    by (cases "io_iter (openDeclaredFirewallPort db) ports s1")
  have "?J s1" using g1 by (simp add: at_def grows_def same_zones_def)
  moreover have "io_keeps ?J (io_iter (openDeclaredFirewallPort db) ports)"
    by (rule keeps_iter [OF at_open [OF item]])
  ultimately have u: "?J u" using 2 by (blast dest: io_keepsD)
  have zu: "zones u = zones s" using g1 open_all [OF 2] by (simp add: grows_def same_zones_def)
  show ?thesis
  proof (cases "\<exists>dz v d. r1 = Inr dz \<and> r2 = Inr v \<and> declaredFirewallPorts ports dz = Inr d")
    case False
    then have "t = s1 \<or> t = u"
      using assms(1) 1 2 by (cases r1; cases r2; cases "declaredFirewallPorts ports (defzone s)")
        (use g1 in \<open>auto simp: reconcileFirewall_def run_bind run_then split: sum.splits\<close>)
    then show ?thesis using u \<open>?J s1\<close> by (auto simp: at_def)
  next
    case True
    then obtain d where d: "declaredFirewallPorts ports (defzone s) = Inr d"
      and "removeUnmanagedFirewallRules db d u = (r, t)"
      using assms(1) 1 2 g1 by (auto simp: reconcileFirewall_def run_bind run_then)
    from this(2) have pr: "pruned (keep_item d) (half_slots False (zones s False) \<union> half_slots True (zones s True)) u r t"
      using removeUnmanagedFirewallRules_run zu by metis
    have "keep_item d (b, z, k) x" if "z \<in> zones s b" "x \<in> items s (b, z, k)" for b z k x
      unfolding declared_keep [OF d] using assms(2) that unfolding enforced_def by (cases k) fastforce+
    then have "items t = items u"
      using u by (intro pruned_all_kept [OF pr]) (auto simp: at_def)
    then show ?thesis using u by (simp add: at_def)
  qed
qed

end

section \<open>An in-memory firewalld\<close>

text \<open>
  A firewalld that keeps the entries in memory and rejects what firewalld rejects: unknown
  zones, entries that are already enabled and entries that are not enabled.
\<close>

record fwd = host +
  fd_items :: "slot \<Rightarrow> string list list"
  fd_zones :: "string list"
  fd_default :: string

datatype fwop = Get | Query | Add | Remove

definition fw_ops :: "(string \<times> fwop \<times> fwkind) list" where
  "fw_ops = concat (map (\<lambda>k. [(get_method k, Get, k), (query_method k, Query, k),
     (add_method k, Add, k), (remove_method k, Remove, k)]) [KPort, KRule, KService])"

definition find_op :: "string \<Rightarrow> string \<Rightarrow> (fwop \<times> fwkind) option" where
  "find_op iface m = (if HasPrefix m iface then map_of fw_ops (drop (length iface) m) else None)"

definition well_shaped :: "fwkind \<Rightarrow> string list \<Rightarrow> bool" where
  "well_shaped k x \<longleftrightarrow> length x = (case k of KPort \<Rightarrow> 2 | _ \<Rightarrow> 1)"

definition arg_strings :: "dval list \<Rightarrow> string list" where
  "arg_strings a = concat (map (\<lambda>v. case v of DStr x \<Rightarrow> [x] | DInt _ \<Rightarrow> []) a)"

definition no_reply :: reply where
  "no_reply = \<lparr>rp_string = Inl (Outside ''signature''), rp_bool = Inl (Outside ''signature''),
     rp_path = Inl (Outside ''signature''), rp_strings = Inl (Outside ''signature''),
     rp_stringss = Inl (Outside ''signature''), rp_pairs = Inl (Outside ''signature'')\<rparr>"

definition open_items :: "fwd \<Rightarrow> slot \<Rightarrow> string list list" where
  "open_items s sl = filter (well_shaped (snd (snd sl))) (fd_items s sl)"

definition listing_reply :: "bool \<Rightarrow> fwkind \<Rightarrow> string list list \<Rightarrow> reply" where
  "listing_reply b k xs =
     (if k = KPort then
        if b then no_reply\<lparr>rp_pairs := Inr (map (\<lambda>x. (x ! 0, x ! 1)) xs)\<rparr>
        else no_reply\<lparr>rp_stringss := Inr xs\<rparr>
      else no_reply\<lparr>rp_strings := Inr (map (\<lambda>x. x ! 0) xs)\<rparr>)"

definition fwd_op :: "slot \<Rightarrow> fwop \<Rightarrow> string list \<Rightarrow> (fwd, reply) io" where
  "fwd_op sl op x = (\<lambda>s.
     case op of
       Get \<Rightarrow> (Inr (listing_reply (fst sl) (snd (snd sl)) (open_items s sl)), s)
     | Query \<Rightarrow> (Inr (no_reply\<lparr>rp_bool := Inr (x \<in> set (open_items s sl))\<rparr>), s)
     | Add \<Rightarrow>
         if x \<in> set (open_items s sl) then (Inl (Outside ''ALREADY_ENABLED''), s)
         else if \<not> well_shaped (snd (snd sl)) x then (Inl (Outside ''INVALID_ENTRY''), s)
         else (Inr (no_reply\<lparr>rp_string := Inr (fst (snd sl))\<rparr>), s\<lparr>fd_items := (fd_items s)(sl := x # fd_items s sl)\<rparr>)
     | Remove \<Rightarrow>
         if x \<notin> set (open_items s sl) then (Inl (Outside ''NOT_ENABLED''), s)
         else (Inr (no_reply\<lparr>rp_string := Inr (fst (snd sl))\<rparr>), s\<lparr>fd_items := (fd_items s)(sl := removeAll x (fd_items s sl))\<rparr>))"

definition fwd_zones :: "fwd \<Rightarrow> string list" where
  "fwd_zones s = filter (\<lambda>z. z \<noteq> []) (fd_zones s)"

definition fwd_path :: "string \<Rightarrow> string" where
  "fwd_path z = ''/zone/'' @ z"

definition fwd_call :: "string \<Rightarrow> string \<Rightarrow> dval list \<Rightarrow> (fwd, reply) io" where
  "fwd_call p m a = (\<lambda>s.
     if p = firewalldObjectPath then
       (if m = firewalldBusName @ ''.getDefaultZone'' then (Inr (no_reply\<lparr>rp_string := Inr (fd_default s)\<rparr>), s)
        else if m = firewalldZoneInterface @ ''.getZones'' then (Inr (no_reply\<lparr>rp_strings := Inr (fwd_zones s)\<rparr>), s)
        else case (find_op firewalldZoneInterface m, arg_strings a) of
               (Some (op, k), z # x) \<Rightarrow>
                 let zone = (if z = [] then fd_default s else z) in
                 if zone \<in> set (fd_zones s) then fwd_op (False, zone, k) op x s
                 else (Inl (Outside ''INVALID_ZONE''), s)
             | _ \<Rightarrow> (Inl (Outside ''unknown method''), s))
     else if p = firewalldConfigPath then
       (if m = firewalldConfigInterface @ ''.getZoneNames'' then (Inr (no_reply\<lparr>rp_strings := Inr (fwd_zones s)\<rparr>), s)
        else if m = firewalldConfigInterface @ ''.getZoneByName'' then
          (case a of [DStr z] \<Rightarrow>
             if z \<in> set (fd_zones s) then (Inr (no_reply\<lparr>rp_path := Inr (fwd_path z)\<rparr>), s)
             else (Inl (Outside ''INVALID_ZONE''), s)
           | _ \<Rightarrow> (Inl (Outside ''arguments''), s))
        else (Inl (Outside ''unknown method''), s))
     else case find_op firewalldConfigZoneInterface m of
            Some (op, k) \<Rightarrow> fwd_op (True, drop 6 p, k) op (arg_strings a) s
          | None \<Rightarrow> (Inl (Outside ''unknown method''), s))"

definition fwd_bus :: "fwd dbus" where
  "fwd_bus = \<lparr>db_connect = io_ok (), db_close = io_ok (), db_call = fwd_call\<rparr>"

definition fwd_items :: "fwd \<Rightarrow> slot \<Rightarrow> string list set" where
  "fwd_items s sl = set (open_items s sl)"

lemma find_op_simps [simp]:
  "find_op iface (iface @ get_method k) = Some (Get, k)"
  "find_op iface (iface @ query_method k) = Some (Query, k)"
  "find_op iface (iface @ add_method k) = Some (Add, k)"
  "find_op iface (iface @ remove_method k) = Some (Remove, k)"
  by (cases k; simp add: find_op_def fw_ops_def)+

lemma arg_strings_simps [simp]:
  "arg_strings (map DStr x) = x" "arg_strings (DStr z # a) = z # arg_strings a"
  "arg_strings (map DStr x @ [DInt n]) = x" "arg_strings [] = []"
  by (induction x) (simp_all add: arg_strings_def)

lemma fwd_op_frame: "fwd_op sl op x s = (r, t) \<Longrightarrow> fd_zones t = fd_zones s \<and> fd_default t = fd_default s"
  by (auto simp: fwd_op_def split: fwop.splits if_splits)

lemma fwd_op_failed: "fwd_op sl op x s = (Inl e, t) \<Longrightarrow> t = s"
  by (auto simp: fwd_op_def split: fwop.splits if_splits)

lemma fwd_call_frame: "fwd_call p m a s = (r, t) \<Longrightarrow> fd_zones t = fd_zones s \<and> fd_default t = fd_default s"
  by (auto simp: fwd_call_def Let_def split: if_splits option.splits prod.splits list.splits dval.splits
      dest: fwd_op_frame)

lemma fwd_call_failed: "fwd_call p m a s = (Inl e, t) \<Longrightarrow> t = s"
  by (auto simp: fwd_call_def Let_def split: if_splits option.splits prod.splits list.splits dval.splits
      dest: fwd_op_failed)

lemma listing_reply_set:
  assumes "listing b k (listing_reply b k (open_items s (b, z, k))) = Inr xs"
  shows "set xs = fwd_items s (b, z, k)"
proof -
  have shape: "list_all (\<lambda>x. length x = (case k of KPort \<Rightarrow> 2 | _ \<Rightarrow> 1)) (open_items s (b, z, k))"
    by (auto simp: open_items_def well_shaped_def list_all_iff)
  have one: "length x = 1 \<Longrightarrow> [x ! 0] = x" and two: "length x = 2 \<Longrightarrow> [x ! 0, x ! 1] = x" for x :: "string list"
    by (auto simp: length_Suc_conv numeral_2_eq_2)
  have "map (\<lambda>x. [x ! 0]) l = l" if "list_all (\<lambda>x. length x = 1) l" for l :: "string list list"
    using that one by (induction l) auto
  moreover have "map (\<lambda>x. [x ! 0, x ! 1]) l = l" if "list_all (\<lambda>x. length x = 2) l" for l :: "string list list"
    using that two by (induction l) auto
  ultimately show ?thesis
    using assms shape by (cases k; cases b) (auto simp: listing_reply_def no_reply_def fwd_items_def comp_def)
qed

lemma fwd_paths [simp]:
  "fwd_path z \<noteq> firewalldObjectPath" "fwd_path z \<noteq> firewalldConfigPath" "drop 6 (fwd_path z) = z"
  "firewalldConfigPath \<noteq> firewalldObjectPath"
  by (simp_all add: fwd_path_def firewalldObjectPath_def firewalldConfigPath_def)

lemma method_names [simp]:
  "firewalldZoneInterface @ get_method k \<noteq> firewalldBusName @ ''.getDefaultZone''"
  "firewalldZoneInterface @ query_method k \<noteq> firewalldBusName @ ''.getDefaultZone''"
  "firewalldZoneInterface @ add_method k \<noteq> firewalldBusName @ ''.getDefaultZone''"
  "firewalldZoneInterface @ remove_method k \<noteq> firewalldBusName @ ''.getDefaultZone''"
  "firewalldZoneInterface @ ''.getZones'' \<noteq> firewalldBusName @ ''.getDefaultZone''"
  "firewalldConfigInterface @ ''.getZoneByName'' \<noteq> firewalldConfigInterface @ ''.getZoneNames''"
  "get_method k \<noteq> ''.getZones''" "query_method k \<noteq> ''.getZones''"
  "add_method k \<noteq> ''.getZones''" "remove_method k \<noteq> ''.getZones''"
  by (cases k; simp add: firewalldZoneInterface_def firewalldBusName_def firewalldConfigInterface_def)+

interpretation fwd: firewalld fwd_bus fwd_items "\<lambda>s _. set (fwd_zones s)" fd_default fwd_path
proof (unfold_locales, goal_cases)
  case (7 p m a s r t)
  then show ?case by (auto simp: fwd_bus_def fwd_zones_def dest: fwd_call_frame)
next
  case (8 p m a s e t)
  then show ?case by (auto simp: fwd_bus_def dest: fwd_call_failed)
next
  case (13 k z s v t)
  then show ?case
    by (auto simp: fwd_bus_def fwd_call_def fwd_op_def Let_def listing_reply_set split: if_splits)
next
  case (14 k z x s v t)
  then show ?case
    by (auto simp: fwd_bus_def fwd_call_def fwd_op_def Let_def fwd_items_def no_reply_def split: if_splits)
next
  case (15 k z x s v t)
  then show ?case
    by (auto simp: fwd_bus_def fwd_call_def fwd_op_def Let_def fwd_items_def open_items_def fun_eq_iff split: if_splits)
next
  case (16 k z x s v t)
  then show ?case
    by (auto simp: fwd_bus_def fwd_call_def fwd_op_def Let_def fwd_items_def open_items_def fun_eq_iff split: if_splits)
next
  case (17 z k s v t)
  then show ?case
    by (auto simp: fwd_bus_def fwd_call_def fwd_op_def listing_reply_set split: if_splits)
next
  case (18 z k x s v t)
  then show ?case
    by (auto simp: fwd_bus_def fwd_call_def fwd_op_def fwd_items_def no_reply_def split: if_splits)
next
  case (19 z k x s v t)
  then show ?case
    by (auto simp: fwd_bus_def fwd_call_def fwd_op_def fwd_items_def open_items_def fun_eq_iff split: if_splits)
next
  case (20 z k x s v t)
  then show ?case
    by (auto simp: fwd_bus_def fwd_call_def fwd_op_def fwd_items_def open_items_def fun_eq_iff split: if_splits)
qed (auto simp: fwd_bus_def fwd_call_def fwd_zones_def fwd_items_def open_items_def no_reply_def fun_eq_iff
      split: if_splits)

section \<open>Properties\<close>

context firewalld begin

lemma configure_run:
  assumes "ensure s = (Inr v, s1)" "configureFirewallPorts ensure db ports s = (r, t)"
  shows "(\<not> is_ok r \<and> items t = items s1 \<and> same_zones s1 t) \<or>
    (\<exists>s2 u. items s2 = items s1 \<and> same_zones s1 s2 \<and> reconcileFirewall db ports s2 = (r, u) \<and>
       items t = items u \<and> same_zones u t)"
proof -
  obtain c s2 where c: "db_connect db s1 = (c, s2)" by (cases "db_connect db s1")
  note f2 = bus_frame(1) [OF c]
  show ?thesis
  proof (cases c)
    case (Inl e)
    with assms c f2 show ?thesis
      by (auto simp: configureFirewallPorts_def run_bind run_try run_then run_wrap same_zones_def)
  next
    case (Inr w)
    obtain r1 u where u: "reconcileFirewall db ports s2 = (r1, u)" by (cases "reconcileFirewall db ports s2")
    obtain r2 t2 where t2: "db_close db u = (r2, t2)" by (cases "db_close db u")
    from assms c Inr u t2 have "r = r1" "t = t2"
      by (auto simp: configureFirewallPorts_def run_bind run_try run_then run_wrap run_finally)
    with f2 u bus_frame(2) [OF t2] show ?thesis by (auto simp: same_zones_def)
  qed
qed

lemma configure_enforces:
  assumes "ensure s = (Inr (), s1)" "configureFirewallPorts ensure db ports s = (Inr (), t)"
  shows "enforced ports (defzone t) (items t) (zones t)"
  using configure_run [OF assms] reconcile_enforces by (auto simp: same_zones_def)

lemma configure_safe:
  assumes "ensure s = (Inr (), s1)" "configureFirewallPorts ensure db ports s = (r, t)"
    and "p \<in> set ports" "port_item (defzone s1) p = Inr (z, k, x)" "x \<in> items s1 (b, z, k)"
  shows "x \<in> items t (b, z, k)"
  using configure_run [OF assms(1,2)] assms(3-5) reconcile_safe by (auto simp: same_zones_def)

lemma configure_order:
  assumes "ensure s = (Inr (), s1)" "configureFirewallPorts ensure db ports s = (r, t)"
    and "x \<in> items s1 sl" "x \<notin> items t sl" "p \<in> set ports"
  shows "\<exists>z k y. port_item (defzone t) p = Inr (z, k, y) \<and> y \<in> items t (False, z, k) \<and> y \<in> items t (True, z, k)"
proof -
  obtain s2 u where "reconcileFirewall db ports s2 = (r, u)" "items s2 = items s1" "items t = items u" "same_zones u t"
    using configure_run [OF assms(1,2)] assms(3,4) by auto
  with reconcile_order [of ports s2 r u x sl] assms(3-5) have "open_both u p" by (simp add: list_all_iff)
  with \<open>items t = items u\<close> \<open>same_zones u t\<close> show ?thesis
    by (auto simp: open_both_def same_zones_def split: sum.splits)
qed

lemma configure_converged:
  assumes "ensure s = (Inr (), s1)" "enforced ports (defzone s1) (items s1) (zones s1)"
    and "configureFirewallPorts ensure db ports s = (r, t)"
  shows "items t = items s1"
  using configure_run [OF assms(1,3)] assms(2) reconcile_converged by (fastforce simp: same_zones_def)

end

definition sample_ports :: "FirewallPortConfig list" where
  "sample_ports =
     [\<lparr>fw_Zone = [], fw_Port = '' 22'', fw_Protocol = [], fw_Source = []\<rparr>,
      \<lparr>fw_Zone = ''trusted'', fw_Port = ''443'', fw_Protocol = ''TCP'', fw_Source = ''10.0.0.5/24''\<rparr>]"

definition sample_fwd :: fwd where
  "sample_fwd = \<lparr>ho_log = [], ho_stderr = [],
     fd_items = (\<lambda>_. [])(
       (False, ''public'', KPort) := [[''22'', ''tcp''], [''8080'', ''tcp'']],
       (True, ''public'', KPort) := [[''8080'', ''tcp'']],
       (True, ''public'', KService) := [[''ssh'']],
       (False, ''trusted'', KRule) := [[''rule accept'']]),
     fd_zones = [''public'', ''trusted''], fd_default = ''public''\<rparr>"

lemma sample_reconcile: "is_ok (fst (configureFirewallPorts (io_ok ()) fwd_bus sample_ports sample_fwd))"
  by code_simp

text \<open>C2: when a reconcile with a running firewalld succeeds, the declared ports are the whole
  firewall surface: every declared port or rule is open in the runtime and in the permanent
  configuration of its zone; in every zone of both, the rich rules are exactly the declared
  ones, no service is left, and every open port is a declared one.\<close>

theorem configureFirewallPorts_enforces:
  assumes "firewalld db items zones defzone zpath"
    and "ensure s = (Inr (), s1)"
    and "configureFirewallPorts ensure db ports s = (Inr (), t)"
  shows "enforced ports (defzone t) (items t) (zones t)"
  using assms by (rule firewalld.configure_enforces)

lemma configureFirewallPorts_enforces_witness:
  "\<exists>t. configureFirewallPorts (io_ok ()) fwd_bus sample_ports sample_fwd = (Inr (), t) \<and>
     enforced sample_ports (fd_default t) (fwd_items t) (\<lambda>_. set (fwd_zones t))"
proof -
  obtain r t where run: "configureFirewallPorts (io_ok ()) fwd_bus sample_ports sample_fwd = (r, t)"
    by (cases "configureFirewallPorts (io_ok ()) fwd_bus sample_ports sample_fwd")
  then have "r = Inr ()" using sample_reconcile by (cases r) simp_all
  with run configureFirewallPorts_enforces [OF fwd.firewalld_axioms _ run [unfolded \<open>r = Inr ()\<close>], of sample_fwd]
  show ?thesis by simp
qed

text \<open>C17: a reconcile never closes a declared port or rule that is open when firewalld is
  reached, also when it stops with an error half way.\<close>

theorem configureFirewallPorts_keeps_declared:
  assumes "firewalld db items zones defzone zpath"
    and "ensure s = (Inr (), s1)"
    and "configureFirewallPorts ensure db ports s = (r, t)"
    and "p \<in> set ports" "port_item (defzone s1) p = Inr (z, k, x)" "x \<in> items s1 (permanent, z, k)"
  shows "x \<in> items t (permanent, z, k)"
  using assms by (rule firewalld.configure_safe)

lemma configureFirewallPorts_keeps_declared_witness:
  "\<exists>t. configureFirewallPorts (io_ok ()) fwd_bus sample_ports sample_fwd = (Inr (), t) \<and>
     [''22'', ''tcp''] \<in> fwd_items t (False, ''public'', KPort)"
proof -
  obtain r t where run: "configureFirewallPorts (io_ok ()) fwd_bus sample_ports sample_fwd = (r, t)"
    by (cases "configureFirewallPorts (io_ok ()) fwd_bus sample_ports sample_fwd")
  then have r: "r = Inr ()" using sample_reconcile by (cases r) simp_all
  have item: "port_item (fd_default sample_fwd) (hd sample_ports) = Inr (''public'', KPort, [''22'', ''tcp''])"
    by code_simp
  have mem: "[''22'', ''tcp''] \<in> fwd_items sample_fwd (False, ''public'', KPort)"
    unfolding fwd_items_def by code_simp
  have "hd sample_ports \<in> set sample_ports" by (simp add: sample_ports_def)
  from configureFirewallPorts_keeps_declared [OF fwd.firewalld_axioms _ run this item mem] run r
  show ?thesis by simp
qed

text \<open>C7: opening comes before closing: when a reconcile, successful or not, has closed
  anything, every declared port and rule is open in both configurations.\<close>

theorem configureFirewallPorts_opens_first:
  assumes "firewalld db items zones defzone zpath"
    and "ensure s = (Inr (), s1)"
    and "configureFirewallPorts ensure db ports s = (r, t)"
    and "x \<in> items s1 sl" "x \<notin> items t sl"
    and "p \<in> set ports"
  shows "\<exists>z k y. port_item (defzone t) p = Inr (z, k, y) \<and> y \<in> items t (False, z, k) \<and> y \<in> items t (True, z, k)"
  using assms by (rule firewalld.configure_order)

lemma sample_closes:
  "[''8080'', ''tcp''] \<in> fwd_items sample_fwd (False, ''public'', KPort)"
  "[''8080'', ''tcp''] \<notin> fwd_items (snd (configureFirewallPorts (io_ok ()) fwd_bus sample_ports sample_fwd)) (False, ''public'', KPort)"
  unfolding fwd_items_def by code_simp+

lemma configureFirewallPorts_opens_first_witness:
  "\<exists>z k y. port_item (fd_default (snd (configureFirewallPorts (io_ok ()) fwd_bus sample_ports sample_fwd))) (hd sample_ports) = Inr (z, k, y) \<and>
     y \<in> fwd_items (snd (configureFirewallPorts (io_ok ()) fwd_bus sample_ports sample_fwd)) (True, z, k)"
proof -
  obtain r t where run: "configureFirewallPorts (io_ok ()) fwd_bus sample_ports sample_fwd = (r, t)"
    by (cases "configureFirewallPorts (io_ok ()) fwd_bus sample_ports sample_fwd")
  have "hd sample_ports \<in> set sample_ports" by (simp add: sample_ports_def)
  from configureFirewallPorts_opens_first [OF fwd.firewalld_axioms _ run sample_closes(1) _ this]
  show ?thesis using sample_closes(2) unfolding run by auto
qed



text \<open>C19: when firewalld cannot be started, no bus call is made: with no declared port the step
  is skipped with a log line, otherwise it fails with the error of the start.\<close>

theorem configureFirewallPorts_unavailable:
  assumes "ensure s = (Inl e, s1)"
  shows "configureFirewallPorts ensure db ports s =
    (if ports = [] then
       (Inr (), s1\<lparr>ho_log := ho_log s1 @ [(''skipping firewall reconcile, firewalld unavailable: %v'', [])]\<rparr>)
     else (Inl e, s1))"
  using assms by (simp add: configureFirewallPorts_def run_bind run_try run_logf)

lemma configureFirewallPorts_unavailable_witness:
  "configureFirewallPorts (io_fail (Outside ''no firewalld'')) fwd_bus sample_ports sample_fwd =
     (Inl (Outside ''no firewalld''), sample_fwd)"
proof -
  have "io_fail (Outside ''no firewalld'') sample_fwd = (Inl (Outside ''no firewalld'') :: unit res, sample_fwd)" by simp
  from configureFirewallPorts_unavailable [of "io_fail (Outside ''no firewalld'')", OF this, of fwd_bus sample_ports]
  show ?thesis by (simp add: sample_ports_def)
qed

text \<open>For ports that passed validation the declared set is always built: no source is
  rejected after anything has been opened.\<close>

lemma validated_ports_declared:
  assumes "validateFirewallPortConfigs ports = Inr ()"
  shows "is_ok (declaredFirewallPorts ports defaultZone) \<and> list_all (\<lambda>p. is_ok (port_item defaultZone p)) ports"
proof -
  have "is_ok (port_item defaultZone p)" if "is_ok (validateFirewallSource (fw_Source p))" for p
    using that unfolding validateFirewallSource_ok
    by (auto simp: port_item_def Let_def firewallRichRule_def firewallSourceFamily_def split: option.splits)
  then have "list_all (\<lambda>p. is_ok (port_item defaultZone p)) ports"
    using assms validateFirewallPortConfigs_ok [of ports] by (auto simp: list_all_iff)
  then show ?thesis by (simp add: declaredFirewallPorts_def declare_ports_ok)
qed

lemma validated_ports_declared_witness: "is_ok (declaredFirewallPorts sample_ports ''public'')"
proof -
  have "validateFirewallPortConfigs sample_ports = Inr ()" by code_simp
  then show ?thesis using validated_ports_declared by blast
qed


end
