(* ===== verification/Podman.thy ===== *)
theory Podman
  imports PodmanSpec Host "HOL-Library.AList"
begin

text \<open>
  The effects of \<open>podman.go\<close>: the requests to the libpod API and the convergence of the
  containers.  The Podman bindings are a parameter: a request gives an error or a response,
  and what \<open>Process\<close> makes of the response for each destination type is part of it.  The
  documented behaviour of the API that the code relies on is the locale \<open>libpod\<close>; an in-memory
  Podman shows that it can hold.
\<close>

section \<open>Requests\<close>

record preq =
  rq_method :: string
  rq_endpoint :: string
  rq_params :: "(string \<times> string) list"
  rq_target :: "string option"
  rq_spec :: "containerSpec option"

record presp =
  rsp_status :: nat
  rsp_success :: bool
  rsp_informational :: bool
  rsp_none :: "unit res"
  rsp_containers :: "listedContainer list res"
  rsp_inspect :: "containerInspectResponse res"
  rsp_created :: "string res"
  rsp_reports :: "(err + imagePullReport) list"
  rsp_body :: string

text \<open>
  \<open>pd_json\<close> and \<open>pd_sha256\<close> are the JSON encoding of a container configuration and the
  hexadecimal digest; \<open>pd_text\<close> is the text of an error.
\<close>

record 's podman =
  pd_GetClient :: "('s, unit) io"
  pd_DoRequest :: "preq \<Rightarrow> ('s, presp) io"
  pd_CloseBody :: "('s, unit) io"
  pd_NewConnection :: "string \<Rightarrow> ('s, unit) io"
  pd_json :: "ContainerConfig \<Rightarrow> string"
  pd_sha256 :: "string \<Rightarrow> string"
  pd_text :: "err \<Rightarrow> string"

type_synonym 'x hpodman = "'x host_scheme podman"

definition podmanSocketPath :: string where
  "podmanSocketPath = ''/run/podman/podman.sock''"

definition req :: "string \<Rightarrow> string \<Rightarrow> (string \<times> string) list \<Rightarrow> string option \<Rightarrow> preq" where
  "req meth endpoint params target =
     \<lparr>rq_method = meth, rq_endpoint = endpoint, rq_params = params, rq_target = target, rq_spec = None\<rparr>"

text \<open>Getting the client, sending the request and closing the body of the response at return.\<close>

definition request :: "'s podman \<Rightarrow> preq \<Rightarrow> (presp \<Rightarrow> ('s, 'a) io) \<Rightarrow> ('s, 'a) io" where
  "request pd rq k = io_then (pd_GetClient pd)
     (io_bind (pd_DoRequest pd rq) (\<lambda>response. io_finally (k response) (pd_CloseBody pd)))"

definition exists_result :: "presp \<Rightarrow> bool res" where
  "exists_result response =
     (if rsp_success response then Inr True
      else if rsp_status response = 404 then Inr False
      else res_bind (rsp_none response) (\<lambda>_. Inr False))"

definition imageExists :: "'s podman \<Rightarrow> string \<Rightarrow> ('s, bool) io" where
  "imageExists pd rawImage =
     request pd (req ''GET'' ''/images/%s/exists'' [] (Some rawImage)) (\<lambda>r. io_lift (exists_result r))"

definition containerExists :: "'s podman \<Rightarrow> string \<Rightarrow> ('s, bool) io" where
  "containerExists pd nameOrID =
     request pd (req ''GET'' ''/containers/%s/exists'' [] (Some nameOrID)) (\<lambda>r. io_lift (exists_result r))"

text \<open>The progress texts of the reports that are decoded before the loop ends.\<close>

fun pull_progress :: "(err + imagePullReport) list \<Rightarrow> string list" where
  "pull_progress [] = []"
| "pull_progress (Inl e # _) = []"
| "pull_progress (Inr report # rest) =
     (if pr_Stream report \<noteq> [] then pr_Stream report # pull_progress rest else pull_progress rest)"

definition pullImage :: "'x hpodman \<Rightarrow> string \<Rightarrow> ('x host_scheme, unit) io" where
  "pullImage pd rawImage =
     request pd (req ''POST'' ''/images/pull'' [(''reference'', rawImage)] None) (\<lambda>r.
       if \<not> rsp_success r then io_lift (rsp_none r)
       else io_then (io_iter eprint (pull_progress (rsp_reports r)))
              (io_lift (join_errors (pullErrors (rsp_reports r)))))"

definition listContainers :: "'s podman \<Rightarrow> ('s, listedContainer list) io" where
  "listContainers pd =
     request pd (req ''GET'' ''/containers/json'' [(''all'', ''true'')] None) (\<lambda>r. io_lift (rsp_containers r))"

definition inspectContainer :: "'s podman \<Rightarrow> string \<Rightarrow> ('s, containerInspectResponse) io" where
  "inspectContainer pd nameOrID =
     request pd (req ''GET'' ''/containers/%s/json'' [] (Some nameOrID)) (\<lambda>r. io_lift (rsp_inspect r))"

definition stopContainer :: "'s podman \<Rightarrow> string \<Rightarrow> ('s, unit) io" where
  "stopContainer pd nameOrID =
     request pd (req ''POST'' ''/containers/%s/stop'' [(''ignore'', ''true'')] (Some nameOrID)) (\<lambda>r. io_lift (rsp_none r))"

definition removeContainer :: "'s podman \<Rightarrow> string \<Rightarrow> ('s, unit) io" where
  "removeContainer pd nameOrID =
     request pd (req ''DELETE'' ''/containers/%s'' [(''force'', ''true'')] (Some nameOrID)) (\<lambda>r. io_lift (rsp_none r))"

definition create_req :: "containerSpec \<Rightarrow> preq" where
  "create_req spec = (req ''POST'' ''/containers/create'' [] None)\<lparr>rq_spec := Some spec\<rparr>"

definition createContainer :: "'s podman \<Rightarrow> containerSpec \<Rightarrow> ('s, string) io" where
  "createContainer pd spec = request pd (create_req spec) (\<lambda>r. io_lift (rsp_created r))"

definition startContainer :: "'s podman \<Rightarrow> string \<Rightarrow> ('s, unit) io" where
  "startContainer pd nameOrID =
     request pd (req ''POST'' ''/containers/%s/start'' [] (Some nameOrID)) (\<lambda>r. io_lift (rsp_none r))"

definition containerLogLines :: "'s podman \<Rightarrow> string \<Rightarrow> nat \<Rightarrow> ('s, string list) io" where
  "containerLogLines pd nameOrID tail_n =
     request pd (req ''GET'' ''/containers/%s/logs''
         [(''stdout'', ''true''), (''stderr'', ''true''), (''tail'', nat_string 10 tail_n)] (Some nameOrID)) (\<lambda>r.
       if \<not> rsp_success r \<and> \<not> rsp_informational r then io_lift (res_bind (rsp_none r) (\<lambda>_. Inr []))
       else io_lift (containerLogLines_body (rsp_body r) tail_n))"

section \<open>Convergence\<close>

definition containerIsCurrent :: "'s podman \<Rightarrow> string \<Rightarrow> bool \<Rightarrow> string \<Rightarrow> ('s, bool) io" where
  "containerIsCurrent pd name exists desiredHash =
     (if \<not> exists then io_ok False
      else io_bind (io_wrap (Wrapf ''inspect container %q failed: %w'' [name]) (inspectContainer pd name)) (\<lambda>inspect.
           io_ok (containerUpToDate inspect desiredHash)))"

definition labelled :: "containerSpec \<Rightarrow> string \<Rightarrow> containerSpec" where
  "labelled spec desiredHash = spec\<lparr>sp_Labels := AList.update configHashLabel desiredHash (sp_Labels spec)\<rparr>"

definition reconcileContainer :: "'x hpodman \<Rightarrow> ContainerConfig \<Rightarrow> ('x host_scheme, unit) io" where
  "reconcileContainer pd c =
     io_bind (io_lift (createSpec c)) (\<lambda>spec0.
     let desiredHash = configHash (pd_json pd) (pd_sha256 pd) c; spec = labelled spec0 desiredHash in
     io_bind (io_wrap (Wrapf ''check container %q failed: %w'' [co_Name c]) (containerExists pd (co_Name c))) (\<lambda>exists.
     io_bind (containerIsCurrent pd (co_Name c) exists desiredHash) (\<lambda>current.
     if current then logf ''container %s unchanged, leaving it running'' [co_Name c]
     else
       io_bind (io_wrap (Wrapf ''check image %q failed: %w'' [co_Image c]) (imageExists pd (co_Image c))) (\<lambda>present.
       io_then (if \<not> present then
           io_wrap (Wrapf ''pull image %q failed: %w'' [co_Image c]) (pullImage pd (co_Image c))
         else io_ok ())
       (io_then (if exists then
           io_wrap (Wrapf ''remove container %q failed: %w'' [co_Name c]) (removeContainer pd (co_Name c))
         else io_ok ())
       (io_bind (io_wrap (Wrapf ''create container %q failed: %w'' [co_Name c]) (createContainer pd spec)) (\<lambda>created_id.
       io_then (io_wrap (Wrapf ''start container %q failed: %w'' [co_Name c]) (startContainer pd created_id))
         (logf ''started container %s'' [co_Name c]))))))))"

definition stop_unmanaged :: "'x hpodman \<Rightarrow> string list \<Rightarrow> listedContainer \<Rightarrow> ('x host_scheme, unit) io" where
  "stop_unmanaged pd configuredNames container =
     (if containerIsConfigured container configuredNames \<or> \<not> containerNeedsStop (lc_State container) then io_ok ()
      else if lc_ID container = [] then
        io_fail (Errf ''cannot stop unmanaged container %q: missing id'' [containerDisplayName container])
      else io_then (io_wrap (Wrapf ''stop unmanaged container %q failed: %w'' [containerDisplayName container])
             (stopContainer pd (lc_ID container)))
           (logf ''stopped unmanaged container %s'' [containerDisplayName container]))"

definition stopUnmanagedContainers :: "'x hpodman \<Rightarrow> ContainerConfig list \<Rightarrow> ('x host_scheme, unit) io" where
  "stopUnmanagedContainers pd configured =
     io_bind (io_wrap (Wrapf ''list containers failed: %w'' []) (listContainers pd)) (\<lambda>existing.
     io_iter (stop_unmanaged pd (map co_Name configured)) existing)"

section \<open>Status\<close>

definition buildRunningContainerStatus ::
    "'s podman \<Rightarrow> nat \<Rightarrow> listedContainer \<Rightarrow> ('s, runningContainerStatus) io" where
  "buildRunningContainerStatus pd logTail container =
     (let status = \<lparr>rs_ID = lc_ID container, rs_Name = containerDisplayName container,
          rs_Names = lc_Names container, rs_State = lc_State container, rs_Image = lc_Image container,
          rs_ImageID = [], rs_ImageDigest = [], rs_Version = [], rs_Logs = [], rs_Error = []\<rparr> in
      io_bind (io_try (inspectContainer pd (lc_ID container))) (\<lambda>ri.
      let status1 = (case ri of
            Inl e \<Rightarrow> status\<lparr>rs_Error := appendStatusError (rs_Error status) (''inspect: '' @ pd_text pd e)\<rparr>
          | Inr inspect \<Rightarrow> applyInspectToStatus status inspect) in
      io_bind (io_try (containerLogLines pd (lc_ID container) logTail)) (\<lambda>rl.
      io_ok (case rl of
            Inl e \<Rightarrow> status1\<lparr>rs_Error := appendStatusError (rs_Error status1) (''logs: '' @ pd_text pd e)\<rparr>
          | Inr logs \<Rightarrow> status1\<lparr>rs_Logs := logs\<rparr>))))"

primrec collect_running ::
    "'s podman \<Rightarrow> nat \<Rightarrow> listedContainer list \<Rightarrow> ('s, runningContainerStatus list) io" where
  "collect_running pd logTail [] = io_ok []"
| "collect_running pd logTail (container # existing) =
     (if \<not> containerIsRunning (lc_State container) then collect_running pd logTail existing
      else io_bind (buildRunningContainerStatus pd logTail container) (\<lambda>st.
           io_bind (collect_running pd logTail existing) (\<lambda>sts. io_ok (st # sts))))"

definition collectRunningContainerStatuses :: "'s podman \<Rightarrow> nat \<Rightarrow> ('s, runningContainerStatus list) io" where
  "collectRunningContainerStatuses pd logTail =
     io_then (pd_NewConnection pd (''unix:'' @ podmanSocketPath))
       (io_bind (listContainers pd) (collect_running pd logTail))"

section \<open>What Podman promises\<close>

text \<open>The view of Podman: its containers by name and the images in local storage.\<close>

record pctr =
  pc_id :: string
  pc_running :: bool
  pc_image :: string
  pc_labels :: "string \<rightharpoonup> string"

text \<open>
  The documented libpod API.  A \<open>GET\<close> changes nothing.  A request that changes something names
  what it changes, also when it fails half way; when it succeeds the change is complete.  A
  container has one name and an identifier of its own.
\<close>

locale libpod =
  fixes pd :: "'x hpodman"
    and ctrs :: "'x host_scheme \<Rightarrow> string \<rightharpoonup> pctr"
    and images :: "'x host_scheme \<Rightarrow> string set"
  assumes output_frame: "ctrs (s\<lparr>ho_log := l\<rparr>) = ctrs s" "images (s\<lparr>ho_log := l\<rparr>) = images s"
      "ctrs (s\<lparr>ho_stderr := l'\<rparr>) = ctrs s" "images (s\<lparr>ho_stderr := l'\<rparr>) = images s"
    and client_frame: "pd_GetClient pd s = (r, t) \<Longrightarrow> ctrs t = ctrs s \<and> images t = images s"
      "pd_CloseBody pd s = (r, t) \<Longrightarrow> ctrs t = ctrs s \<and> images t = images s"
    and unique_id: "ctrs s n = Some c \<Longrightarrow> ctrs s n' = Some c' \<Longrightarrow> pc_id c = pc_id c' \<Longrightarrow> n = n'"
    and get_frame: "rq_method rq = ''GET'' \<Longrightarrow> pd_DoRequest pd rq s = (r', t) \<Longrightarrow>
      ctrs t = ctrs s \<and> images t = images s"
    and container_exists:
      "pd_DoRequest pd (req ''GET'' ''/containers/%s/exists'' [] (Some n)) s = (Inr v, t) \<Longrightarrow>
        (rsp_success v \<longrightarrow> ctrs s n \<noteq> None) \<and> (rsp_status v = 404 \<longrightarrow> ctrs s n = None) \<and>
        (\<not> rsp_success v \<longrightarrow> rsp_status v \<noteq> 404 \<longrightarrow> \<not> is_ok (rsp_none v))"
    and image_exists:
      "pd_DoRequest pd (req ''GET'' ''/images/%s/exists'' [] (Some i)) s = (Inr v, t) \<Longrightarrow>
        (rsp_success v \<longrightarrow> i \<in> images s) \<and> (\<not> rsp_success v \<longrightarrow> rsp_status v \<noteq> 404 \<longrightarrow> \<not> is_ok (rsp_none v))"
    and inspect:
      "pd_DoRequest pd (req ''GET'' ''/containers/%s/json'' [] (Some n)) s = (Inr v, t) \<Longrightarrow>
        rsp_inspect v = Inr ins \<Longrightarrow>
        \<exists>c. ctrs s n = Some c \<and> in_Running ins = Some (pc_running c) \<and> in_Labels ins = Some (pc_labels c)"
    and container_list:
      "pd_DoRequest pd (req ''GET'' ''/containers/json'' [(''all'', ''true'')] None) s = (Inr v, t) \<Longrightarrow>
        rsp_containers v = Inr ls \<Longrightarrow>
        (\<forall>n c. ctrs s n = Some c \<longrightarrow> (\<exists>l \<in> set ls. lc_Names l = [n] \<and> lc_ID l = pc_id c \<and>
           (pc_running c \<longrightarrow> containerNeedsStop (lc_State l)))) \<and>
        (\<forall>l \<in> set ls. \<exists>n c. ctrs s n = Some c \<and> lc_Names l = [n] \<and> lc_ID l = pc_id c)"
    and pull:
      "pd_DoRequest pd (req ''POST'' ''/images/pull'' [(''reference'', i)] None) s = (r', t) \<Longrightarrow>
        ctrs t = ctrs s \<and> images s \<subseteq> images t \<and>
        (\<forall>v. r' = Inr v \<longrightarrow> (if rsp_success v then pullErrors (rsp_reports v) = [] else is_ok (rsp_none v)) \<longrightarrow>
           i \<in> images t)"
    and remove:
      "pd_DoRequest pd (req ''DELETE'' ''/containers/%s'' [(''force'', ''true'')] (Some n)) s = (r', t) \<Longrightarrow>
        images t = images s \<and> (\<forall>m. m \<noteq> n \<longrightarrow> ctrs t m = ctrs s m) \<and>
        (\<forall>v. r' = Inr v \<longrightarrow> is_ok (rsp_none v) \<longrightarrow> ctrs t n = None)"
    and create:
      "sp_Name spec \<noteq> [] \<Longrightarrow> pd_DoRequest pd (create_req spec) s = (r', t) \<Longrightarrow>
        images t = images s \<and> (\<forall>m. m \<noteq> sp_Name spec \<longrightarrow> ctrs t m = ctrs s m) \<and>
        (\<forall>v i. r' = Inr v \<longrightarrow> rsp_created v = Inr i \<longrightarrow> (\<exists>c. ctrs t (sp_Name spec) = Some c \<and> pc_id c = i \<and>
           pc_image c = sp_Image spec \<and> pc_labels c = map_of (sp_Labels spec)))"
    and start:
      "pd_DoRequest pd (req ''POST'' ''/containers/%s/start'' [] (Some i)) s = (r', t) \<Longrightarrow>
        images t = images s \<and> (\<forall>m. (\<forall>c. ctrs s m = Some c \<longrightarrow> pc_id c \<noteq> i) \<longrightarrow> ctrs t m = ctrs s m) \<and>
        (\<forall>m c v. ctrs s m = Some c \<longrightarrow> pc_id c = i \<longrightarrow> r' = Inr v \<longrightarrow> is_ok (rsp_none v) \<longrightarrow>
           ctrs t m = Some (c\<lparr>pc_running := True\<rparr>))"
    and stop:
      "pd_DoRequest pd (req ''POST'' ''/containers/%s/stop'' [(''ignore'', ''true'')] (Some i)) s = (r', t) \<Longrightarrow>
        images t = images s \<and> (\<forall>m. (\<forall>c. ctrs s m = Some c \<longrightarrow> pc_id c \<noteq> i) \<longrightarrow> ctrs t m = ctrs s m) \<and>
        (\<forall>m c. ctrs s m = Some c \<longrightarrow> pc_id c = i \<longrightarrow> (\<exists>b. ctrs t m = Some (c\<lparr>pc_running := b\<rparr>)) \<and>
           (\<forall>v. r' = Inr v \<longrightarrow> is_ok (rsp_none v) \<longrightarrow> ctrs t m = Some (c\<lparr>pc_running := False\<rparr>)))"
begin

definition same :: "'x host_scheme \<Rightarrow> 'x host_scheme \<Rightarrow> bool" where
  "same s t \<longleftrightarrow> ctrs t = ctrs s \<and> images t = images s"

lemma same_refl [simp]: "same s s"
  by (simp add: same_def)

lemma same_log [simp]: "same s (t\<lparr>ho_log := l\<rparr>) = same s t" "same s (t\<lparr>ho_stderr := m\<rparr>) = same s t"
  by (simp_all add: same_def output_frame)

text \<open>A request either fails before it is sent, or runs between two steps that change nothing.\<close>

lemma same_trans: "same s t \<Longrightarrow> same t u \<Longrightarrow> same s u"
  by (simp add: same_def)

lemma request_run_quiet:
  assumes "request pd rq k s = (r, t)" and quiet: "\<And>v s r t. k v s = (r, t) \<Longrightarrow> r = f v \<and> same s t"
  obtains (unsent) e where "r = Inl e" "same s t"
  | (failed) e u where "same s u" "pd_DoRequest pd rq u = (Inl e, t)" "r = Inl e"
  | (sent) u v w where "same s u" "pd_DoRequest pd rq u = (Inr v, w)" "r = f v" "same w t"
proof -
  obtain r1 u where 1: "pd_GetClient pd s = (r1, u)" by (cases "pd_GetClient pd s")
  note g = client_frame(1) [OF 1]
  show ?thesis
  proof (cases r1)
    case (Inl e)
    with assms(1) 1 g show ?thesis by (intro unsent) (auto simp: request_def run_then same_def)
  next
    case (Inr x)
    obtain r2 w where 2: "pd_DoRequest pd rq u = (r2, w)" by (cases "pd_DoRequest pd rq u")
    show ?thesis
    proof (cases r2)
      case inl: (Inl e)
      with assms(1) 1 2 g Inr show ?thesis
        by (intro failed [of u e]) (auto simp: request_def run_then run_bind same_def)
    next
      case inr: (Inr v)
      obtain r3 x3 where 3: "k v w = (r3, x3)" by (cases "k v w")
      obtain r4 t4 where 4: "pd_CloseBody pd x3 = (r4, t4)" by (cases "pd_CloseBody pd x3")
      from assms(1) 1 2 3 4 Inr inr have "r = r3" "t = t4"
        by (auto simp: request_def run_then run_bind run_finally)
      with 2 g inr quiet [OF 3] client_frame(2) [OF 4] show ?thesis
        by (intro sent [of u v w]) (auto simp: same_def)
    qed
  qed
qed

lemma request_run:
  assumes "request pd rq (\<lambda>r. io_lift (f r)) s = (r, t)"
  obtains (unsent) e where "r = Inl e" "same s t"
  | (failed) e u where "same s u" "pd_DoRequest pd rq u = (Inl e, t)" "r = Inl e"
  | (sent) u v w where "same s u" "pd_DoRequest pd rq u = (Inr v, w)" "r = f v" "same w t"
  by (rule request_run_quiet [OF assms, of f]) (simp, blast+)

lemma get_run:
  assumes "request pd rq (\<lambda>r. io_lift (f r)) s = (r, t)" "rq_method rq = ''GET''"
  shows "same s t"
  using assms(1)
  by (cases rule: request_run) (use get_frame [OF assms(2)] in \<open>force simp: same_def\<close>)+

lemma req_method [simp]: "rq_method (req m e p a) = m"
  by (simp add: req_def)

lemma containerExists_run:
  assumes "containerExists pd n s = (r, t)"
  shows "same s t \<and> (\<forall>b. r = Inr b \<longrightarrow> b = (ctrs s n \<noteq> None))"
proof -
  have "same s t" using assms unfolding containerExists_def by (rule get_run) simp
  moreover have "b = (ctrs s n \<noteq> None)" if "r = Inr b" for b
    using assms unfolding containerExists_def
  proof (cases rule: request_run)
    case (sent u v w)
    with container_exists [OF sent(2)] that show ?thesis
      by (auto simp: exists_result_def same_def res_bind_Inr_iff is_ok_iff split: if_splits)
  qed (use that in auto)
  ultimately show ?thesis by blast
qed

lemma imageExists_run:
  assumes "imageExists pd i s = (r, t)"
  shows "same s t \<and> (r = Inr True \<longrightarrow> i \<in> images s)"
proof -
  have "same s t" using assms unfolding imageExists_def by (rule get_run) simp
  moreover have "i \<in> images s" if "r = Inr True"
    using assms unfolding imageExists_def
  proof (cases rule: request_run)
    case (sent u v w)
    with image_exists [OF sent(2)] that show ?thesis
      by (auto simp: exists_result_def same_def res_bind_Inr_iff split: if_splits)
  qed (use that in auto)
  ultimately show ?thesis by blast
qed

lemma inspectContainer_run:
  assumes "inspectContainer pd n s = (r, t)"
  shows "same s t \<and> (\<forall>i. r = Inr i \<longrightarrow> (\<exists>c. ctrs s n = Some c \<and> in_Running i = Some (pc_running c) \<and>
    in_Labels i = Some (pc_labels c)))"
proof -
  have "same s t" using assms unfolding inspectContainer_def by (rule get_run) simp
  moreover have "\<exists>c. ctrs s n = Some c \<and> in_Running i = Some (pc_running c) \<and> in_Labels i = Some (pc_labels c)"
    if "r = Inr i" for i
    using assms unfolding inspectContainer_def
  proof (cases rule: request_run)
    case (sent u v w)
    with inspect [OF sent(2), of i] that show ?thesis by (simp add: same_def)
  qed (use that in auto)
  ultimately show ?thesis by blast
qed

end

context libpod begin

lemma eprint_iter: "io_iter eprint msgs s = (r, t) \<Longrightarrow> r = Inr () \<and> same s t"
proof (induction msgs arbitrary: s)
  case (Cons m msgs)
  have "io_iter eprint msgs (s\<lparr>ho_stderr := ho_stderr s @ [m]\<rparr>) = (r, t)"
    using Cons.prems by (simp only: io_iter.simps run_then run_eprint [of m s] prod.case sum.case)
  from Cons.IH [OF this] show ?case by (auto simp: same_def output_frame)
qed simp

lemma pullImage_run:
  assumes "pullImage pd i s = (r, t)"
  shows "ctrs t = ctrs s \<and> images s \<subseteq> images t \<and> (is_ok r \<longrightarrow> i \<in> images t)"
proof -
  let ?f = "\<lambda>v. if \<not> rsp_success v then rsp_none v else join_errors (pullErrors (rsp_reports v))"
  have quiet: "r = ?f v \<and> same s t" if "(if \<not> rsp_success v then io_lift (rsp_none v)
       else io_then (io_iter eprint (pull_progress (rsp_reports v)))
              (io_lift (join_errors (pullErrors (rsp_reports v))))) s = (r, t)" for v s r t
  proof (cases "rsp_success v")
    case False
    with that show ?thesis by simp
  next
    case True
    obtain r1 u where 1: "io_iter eprint (pull_progress (rsp_reports v)) s = (r1, u)" by (metis prod.collapse)
    with True that eprint_iter [OF 1] show ?thesis by (simp add: run_then)
  qed
  show ?thesis
  proof (rule request_run_quiet [OF assms [unfolded pullImage_def], where f = ?f], goal_cases)
    case (1 v s r t)
    then show ?case by (rule quiet)
  next
    case (2 e)
    then show ?case by (auto simp: same_def)
  next
    case (3 e u)
    then show ?case using pull [OF 3(2)] by (auto simp: same_def)
  next
    case (4 u v w)
    have "is_ok r \<Longrightarrow> if rsp_success v then pullErrors (rsp_reports v) = [] else is_ok (rsp_none v)"
      using 4(3) by (auto simp: join_errors_def split: if_splits)
    then show ?case using pull [OF 4(2)] 4(1,4) by (auto simp: same_def)
  qed
qed

lemma removeContainer_run:
  assumes "removeContainer pd n s = (r, t)"
  shows "images t = images s \<and> (\<forall>m. m \<noteq> n \<longrightarrow> ctrs t m = ctrs s m) \<and> (is_ok r \<longrightarrow> ctrs t n = None)"
  using assms unfolding removeContainer_def
proof (cases rule: request_run)
  case (sent u v w)
  then show ?thesis using remove [OF sent(2)] by (auto simp: same_def)
qed (use remove in \<open>force simp: same_def\<close>)+

lemma createContainer_run:
  assumes "createContainer pd spec s = (r, t)" "sp_Name spec \<noteq> []"
  shows "images t = images s \<and> (\<forall>m. m \<noteq> sp_Name spec \<longrightarrow> ctrs t m = ctrs s m) \<and>
    (\<forall>i. r = Inr i \<longrightarrow> (\<exists>c. ctrs t (sp_Name spec) = Some c \<and> pc_id c = i \<and> pc_image c = sp_Image spec \<and>
       pc_labels c = map_of (sp_Labels spec)))"
  using assms(1) unfolding createContainer_def
proof (cases rule: request_run)
  case (sent u v w)
  then show ?thesis using create [OF assms(2) sent(2)] by (auto simp: same_def)
qed (use create [OF assms(2)] in \<open>force simp: same_def\<close>)+

lemma startContainer_run:
  assumes "startContainer pd i s = (r, t)"
  shows "images t = images s \<and> (\<forall>m. (\<forall>c. ctrs s m = Some c \<longrightarrow> pc_id c \<noteq> i) \<longrightarrow> ctrs t m = ctrs s m) \<and>
    (\<forall>m c. ctrs s m = Some c \<longrightarrow> pc_id c = i \<longrightarrow> is_ok r \<longrightarrow> ctrs t m = Some (c\<lparr>pc_running := True\<rparr>))"
  using assms unfolding startContainer_def
proof (cases rule: request_run)
  case (sent u v w)
  then show ?thesis using start [OF sent(2)] by (auto simp: same_def)
qed (use start in \<open>force simp: same_def\<close>)+

lemma stopContainer_run:
  assumes "stopContainer pd i s = (r, t)"
  shows "images t = images s \<and> (\<forall>m. (\<forall>c. ctrs s m = Some c \<longrightarrow> pc_id c \<noteq> i) \<longrightarrow> ctrs t m = ctrs s m) \<and>
    (\<forall>m c. ctrs s m = Some c \<longrightarrow> pc_id c = i \<longrightarrow> (\<exists>b. ctrs t m = Some (c\<lparr>pc_running := b\<rparr>)) \<and>
       (is_ok r \<longrightarrow> ctrs t m = Some (c\<lparr>pc_running := False\<rparr>)))"
  using assms unfolding stopContainer_def
proof (cases rule: request_run)
  case (sent u v w)
  then show ?thesis using stop [OF sent(2)] by (auto simp: same_def)
next
  case (unsent e)
  have "c\<lparr>pc_running := pc_running c\<rparr> = c" for c :: pctr by simp
  with unsent show ?thesis unfolding same_def by (metis is_ok_simps(2))
next
  case (failed e u)
  then show ?thesis using stop [OF failed(2)] by (auto simp: same_def)
qed

lemma containerIsCurrent_run:
  assumes "containerIsCurrent pd n ex h s = (r, t)" and ex: "\<not> ex \<longrightarrow> ctrs s n = None"
  shows "same s t \<and> (r = Inr True \<longrightarrow> (\<exists>k. ctrs s n = Some k \<and> pc_running k \<and>
      (case pc_labels k configHashLabel of None \<Rightarrow> [] | Some v \<Rightarrow> v) = h)) \<and>
    (r = Inr False \<longrightarrow> (\<forall>k. ctrs s n = Some k \<longrightarrow> \<not> (pc_running k \<and> pc_labels k configHashLabel = Some h)))"
proof (cases ex)
  case False
  with assms show ?thesis by (auto simp: containerIsCurrent_def)
next
  case True
  obtain r1 u where 1: "inspectContainer pd n s = (r1, u)" by (cases "inspectContainer pd n s")
  with assms(1) True have "t = u" "r = res_bind (res_wrap (Wrapf ''inspect container %q failed: %w'' [n]) r1) (\<lambda>i. Inr (containerUpToDate i h))"
    by (auto simp: containerIsCurrent_def run_bind run_wrap res_bind_def split: sum.splits)
  with inspectContainer_run [OF 1] show ?thesis
    by (cases r1) (auto simp: containerUpToDate_def split: option.splits)
qed

definition recreate :: "ContainerConfig \<Rightarrow> containerSpec \<Rightarrow> bool \<Rightarrow> ('x host_scheme, unit) io" where
  "recreate c spec ex =
     io_then (if ex then
         io_wrap (Wrapf ''remove container %q failed: %w'' [co_Name c]) (removeContainer pd (co_Name c))
       else io_ok ())
     (io_bind (io_wrap (Wrapf ''create container %q failed: %w'' [co_Name c]) (createContainer pd spec)) (\<lambda>created_id.
      io_then (io_wrap (Wrapf ''start container %q failed: %w'' [co_Name c]) (startContainer pd created_id))
        (logf ''started container %s'' [co_Name c])))"

lemma recreate_run:
  assumes run: "recreate c spec ex s = (r, t)" and name: "sp_Name spec = co_Name c" "co_Name c \<noteq> []"
  shows "images t = images s \<and> (\<forall>m. m \<noteq> co_Name c \<longrightarrow> ctrs t m = ctrs s m) \<and>
    (is_ok r \<longrightarrow> (\<exists>k. ctrs t (co_Name c) = Some k \<and> pc_running k \<and> pc_image k = sp_Image spec \<and>
       pc_labels k = map_of (sp_Labels spec)))"
proof -
  let ?n = "co_Name c"
  obtain r1 s1 where 1: "(if ex then
      io_wrap (Wrapf ''remove container %q failed: %w'' [?n]) (removeContainer pd ?n) else io_ok ()) s = (r1, s1)"
    by (metis prod.collapse)
  have e1: "images s1 = images s \<and> (\<forall>m. m \<noteq> ?n \<longrightarrow> ctrs s1 m = ctrs s m)"
  proof (cases ex)
    case True
    then obtain r2 where "removeContainer pd ?n s = (r2, s1)" using 1 by (auto simp: run_wrap split: prod.splits)
    then show ?thesis using removeContainer_run by blast
  qed (use 1 in auto)
  obtain r2 s2 where 2: "createContainer pd spec s1 = (r2, s2)" by (cases "createContainer pd spec s1")
  note e2 = createContainer_run [OF 2, unfolded name(1), OF name(2)]
  show ?thesis
  proof (cases "is_ok r1 \<and> is_ok r2")
    case False
    with run 1 2 have "t = s1 \<or> t = s2" "\<not> is_ok r"
      by (cases r1; cases r2; auto simp: recreate_def run_then run_bind run_wrap)+
    then show ?thesis using e1 e2 by auto
  next
    case True
    then obtain u i where ri: "r1 = Inr u" "r2 = Inr i" by (auto simp: is_ok_iff)
    then obtain k where k: "ctrs s2 ?n = Some k" "pc_id k = i" "pc_image k = sp_Image spec"
        "pc_labels k = map_of (sp_Labels spec)" using e2 by blast
    obtain r3 s3 where 3: "startContainer pd i s2 = (r3, s3)" by (cases "startContainer pd i s2")
    note e3 = startContainer_run [OF 3]
    have others: "ctrs s3 m = ctrs s2 m" if "m \<noteq> ?n" for m
      using e3 k unique_id [of s2] that by metis
    have t: "ctrs t = ctrs s3" "images t = images s3" "is_ok r = is_ok r3"
      using run 1 2 3 ri by (cases r3; auto simp: recreate_def run_then run_bind run_wrap run_logf output_frame)+
    have "is_ok r \<longrightarrow> ctrs t ?n = Some (k\<lparr>pc_running := True\<rparr>)" using e3 k t by metis
    then show ?thesis using e1 e2 e3 others t k by auto
  qed
qed

text \<open>
  What a run of \<open>reconcileContainer\<close> may do to a container that is not current: nothing before
  the image is present, then only to the container of that name.
\<close>

lemma reconcileContainer_run:
  assumes run: "reconcileContainer pd c s = (r, t)" and name: "co_Name c \<noteq> []"
  obtains (untouched) "ctrs t = ctrs s" "images s \<subseteq> images t" "\<not> is_ok r"
  | (current) k where "same s t" "ctrs s (co_Name c) = Some k" "pc_running k"
      "(case pc_labels k configHashLabel of None \<Rightarrow> [] | Some v \<Rightarrow> v) = configHash (pd_json pd) (pd_sha256 pd) c"
  | (recreated) "co_Image c \<in> images t" "images s \<subseteq> images t" "\<forall>m. m \<noteq> co_Name c \<longrightarrow> ctrs t m = ctrs s m"
      "\<forall>k. ctrs s (co_Name c) = Some k \<longrightarrow> \<not> (pc_running k \<and>
        pc_labels k configHashLabel = Some (configHash (pd_json pd) (pd_sha256 pd) c))"
      "is_ok r \<longrightarrow> (\<exists>k. ctrs t (co_Name c) = Some k \<and> pc_running k \<and> pc_image k = co_Image c \<and>
        pc_labels k configHashLabel = Some (configHash (pd_json pd) (pd_sha256 pd) c))"
proof -
  let ?n = "co_Name c" and ?h = "configHash (pd_json pd) (pd_sha256 pd) c"
  obtain spec0 where spec0: "createSpec c = Inr spec0" using createSpec_total [of c] by (auto simp: is_ok_iff)
  let ?spec = "labelled spec0 ?h"
  have spec: "sp_Name ?spec = ?n" "sp_Image ?spec = co_Image c" "map_of (sp_Labels ?spec) configHashLabel = Some ?h"
    using createSpec_fields [OF spec0] by (simp_all add: labelled_def update_conv)
  obtain r1 s1 where 1: "containerExists pd ?n s = (r1, s1)" by (cases "containerExists pd ?n s")
  note e1 = containerExists_run [OF 1]
  show ?thesis
  proof (cases r1)
    case (Inl e)
    with run 1 e1 spec0 show ?thesis
      by (intro untouched) (auto simp: reconcileContainer_def run_bind run_wrap Let_def same_def)
  next
    case r1: (Inr ex)
    obtain r2 s2 where 2: "containerIsCurrent pd ?n ex ?h s1 = (r2, s2)" by (cases "containerIsCurrent pd ?n ex ?h s1")
    have e2: "same s s2 \<and> (r2 = Inr True \<longrightarrow> (\<exists>k. ctrs s ?n = Some k \<and> pc_running k \<and>
        (case pc_labels k configHashLabel of None \<Rightarrow> [] | Some v \<Rightarrow> v) = ?h)) \<and>
        (r2 = Inr False \<longrightarrow> (\<forall>k. ctrs s ?n = Some k \<longrightarrow> \<not> (pc_running k \<and> pc_labels k configHashLabel = Some ?h)))"
      using containerIsCurrent_run [OF 2] e1 r1 by (auto simp: same_def)
    show ?thesis
    proof (cases r2)
      case (Inl e)
      with run 1 2 e2 r1 spec0 show ?thesis
        by (intro untouched) (auto simp: reconcileContainer_def run_bind run_wrap Let_def same_def)
    next
      case r2: (Inr cur)
      show ?thesis
      proof (cases cur)
        case True
        with run 1 2 r1 r2 spec0 have "t = s2\<lparr>ho_log := ho_log s2 @ [(''container %s unchanged, leaving it running'', [?n])]\<rparr>"
          by (auto simp: reconcileContainer_def run_bind run_wrap Let_def run_logf)
        then show ?thesis using e2 r2 True current by auto
      next
        case False
        obtain r3 s3 where 3: "imageExists pd (co_Image c) s2 = (r3, s3)" by (cases "imageExists pd (co_Image c) s2")
        note e3 = imageExists_run [OF 3]
        show ?thesis
        proof (cases r3)
          case (Inl e)
          with run 1 2 3 e2 e3 r1 r2 False spec0 show ?thesis
            by (intro untouched) (auto simp: reconcileContainer_def run_bind run_wrap Let_def same_def)
        next
          case r3: (Inr present)
          obtain r4 s4 where 4: "(if \<not> present then
              io_wrap (Wrapf ''pull image %q failed: %w'' [co_Image c]) (pullImage pd (co_Image c)) else io_ok ()) s3 = (r4, s4)"
            by (metis prod.collapse)
          have e4: "ctrs s4 = ctrs s3 \<and> images s3 \<subseteq> images s4 \<and> (is_ok r4 \<longrightarrow> co_Image c \<in> images s4)"
          proof (cases present)
            case True
            with 4 e3 r3 show ?thesis by (auto simp: same_def)
          next
            case False
            then obtain r5 where "pullImage pd (co_Image c) s3 = (r5, s4)" "is_ok r5 = is_ok r4"
              using 4 by (auto simp: run_wrap split: prod.splits)
            then show ?thesis using pullImage_run by metis
          qed
          show ?thesis
          proof (cases r4)
            case (Inl e)
            with run 1 2 3 4 e2 e3 e4 r1 r2 r3 False spec0 show ?thesis
              by (intro untouched) (auto simp: reconcileContainer_def run_bind run_wrap run_then Let_def same_def)
          next
            case r4: (Inr u4)
            have tail: "recreate c ?spec ex s4 = (r, t)"
              using run 1 2 3 4 r1 r2 r3 r4 False spec0
              by (simp add: reconcileContainer_def recreate_def run_bind run_wrap run_then Let_def)
            have old: "\<forall>k. ctrs s ?n = Some k \<longrightarrow> \<not> (pc_running k \<and> pc_labels k configHashLabel = Some ?h)"
              using e2 r2 False by blast
            have base: "images s \<subseteq> images s4" "co_Image c \<in> images s4" "ctrs s4 = ctrs s"
              using e2 e3 e4 r4 by (auto simp: same_def)
            show ?thesis
              by (rule recreated) (use recreate_run [OF tail spec(1) name] base old spec in auto)
          qed
        qed
      qed
    qed
  qed
qed

end

context libpod begin

definition up_to_date :: "ContainerConfig \<Rightarrow> 'x host_scheme \<Rightarrow> bool" where
  "up_to_date c s \<longleftrightarrow> (\<exists>k. ctrs s (co_Name c) = Some k \<and> pc_running k \<and>
     pc_labels k configHashLabel = Some (configHash (pd_json pd) (pd_sha256 pd) c))"

lemma reconcile_converges:
  assumes "reconcileContainer pd c s = (Inr u, t)" "co_Name c \<noteq> []"
    and "configHash (pd_json pd) (pd_sha256 pd) c \<noteq> []"
  shows "up_to_date c t"
  using assms(1,2)
proof (cases rule: reconcileContainer_run)
  case (current k)
  then show ?thesis using assms(3) by (auto simp: up_to_date_def same_def split: option.splits)
qed (auto simp: up_to_date_def)

lemma reconcile_current:
  assumes "reconcileContainer pd c s = (r, t)" "co_Name c \<noteq> []" "up_to_date c s"
  shows "ctrs t = ctrs s \<and> images s \<subseteq> images t \<and> (is_ok r \<longrightarrow> images t = images s)"
  using assms(1,2)
proof (cases rule: reconcileContainer_run)
  case recreated
  then show ?thesis using assms(3) by (auto simp: up_to_date_def)
qed (auto simp: same_def)

lemma reconcile_frame:
  assumes "reconcileContainer pd c s = (r, t)" "co_Name c \<noteq> []"
  shows "(\<forall>n. n \<noteq> co_Name c \<longrightarrow> ctrs t n = ctrs s n) \<and>
    (ctrs t (co_Name c) = ctrs s (co_Name c) \<or> co_Image c \<in> images t)"
  using assms by (cases rule: reconcileContainer_run) (auto simp: same_def)

subsection \<open>Stopping what is not declared\<close>

lemma listContainers_run:
  assumes "listContainers pd s = (r, t)"
  shows "same s t \<and> (\<forall>ls. r = Inr ls \<longrightarrow>
    (\<forall>n c. ctrs s n = Some c \<longrightarrow> (\<exists>l \<in> set ls. lc_Names l = [n] \<and> lc_ID l = pc_id c \<and>
       (pc_running c \<longrightarrow> containerNeedsStop (lc_State l)))) \<and>
    (\<forall>l \<in> set ls. \<exists>n c. ctrs s n = Some c \<and> lc_Names l = [n] \<and> lc_ID l = pc_id c))"
proof -
  have "same s t" using assms unfolding listContainers_def by (rule get_run) simp
  moreover have "(\<forall>n c. ctrs s n = Some c \<longrightarrow> (\<exists>l \<in> set ls. lc_Names l = [n] \<and> lc_ID l = pc_id c \<and>
       (pc_running c \<longrightarrow> containerNeedsStop (lc_State l)))) \<and>
    (\<forall>l \<in> set ls. \<exists>n c. ctrs s n = Some c \<and> lc_Names l = [n] \<and> lc_ID l = pc_id c)" if "r = Inr ls" for ls
    using assms unfolding listContainers_def
  proof (cases rule: request_run)
    case (sent u v w)
    with container_list [OF sent(2), of ls] that show ?thesis by (simp add: same_def)
  qed (use that in auto)
  ultimately show ?thesis by blast
qed

text \<open>One step of the loop only touches the container it was listed for, and only its running state.\<close>

definition only_stops :: "string set \<Rightarrow> 'x host_scheme \<Rightarrow> 'x host_scheme \<Rightarrow> bool" where
  "only_stops kept s t \<longleftrightarrow> images t = images s \<and>
     (\<forall>n. n \<in> kept \<longrightarrow> ctrs t n = ctrs s n) \<and>
     (\<forall>n. ctrs t n = ctrs s n \<or> (\<exists>c b. ctrs s n = Some c \<and> ctrs t n = Some (c\<lparr>pc_running := b\<rparr>)))"

lemma only_stops_refl: "same s t \<Longrightarrow> only_stops kept s t"
  by (simp add: only_stops_def same_def)

lemma only_stops_trans:
  assumes "only_stops kept s t" "only_stops kept t u"
  shows "only_stops kept s u"
proof -
  have "ctrs u n = ctrs s n \<or> (\<exists>c b. ctrs s n = Some c \<and> ctrs u n = Some (c\<lparr>pc_running := b\<rparr>))" for n
  proof -
    from assms have "ctrs t n = ctrs s n \<or> (\<exists>c b. ctrs s n = Some c \<and> ctrs t n = Some (c\<lparr>pc_running := b\<rparr>))"
      "ctrs u n = ctrs t n \<or> (\<exists>c b. ctrs t n = Some c \<and> ctrs u n = Some (c\<lparr>pc_running := b\<rparr>))"
      unfolding only_stops_def by blast+
    then show ?thesis by (elim disjE exE conjE) auto
  qed
  then show ?thesis using assms unfolding only_stops_def by auto
qed

lemma only_stops_id: "only_stops kept s t \<Longrightarrow> map_option pc_id (ctrs t n) = map_option pc_id (ctrs s n)"
proof -
  assume "only_stops kept s t"
  then consider "ctrs t n = ctrs s n" | c b where "ctrs s n = Some c" "ctrs t n = Some (c\<lparr>pc_running := b\<rparr>)"
    unfolding only_stops_def by blast
  then show ?thesis by cases simp_all
qed

definition stopped :: "'x host_scheme \<Rightarrow> string \<Rightarrow> bool" where
  "stopped s n \<longleftrightarrow> map_option pc_running (ctrs s n) = Some False"

lemma stop_unmanaged_run:
  assumes "stop_unmanaged pd names l s = (r, t)"
    and "lc_Names l = [n]" "map_option pc_id (ctrs s n) = Some (lc_ID l)"
  shows "only_stops (set names) s t \<and> (\<forall>m. m \<noteq> n \<longrightarrow> ctrs t m = ctrs s m) \<and>
    (is_ok r \<longrightarrow> n \<notin> set names \<longrightarrow> containerNeedsStop (lc_State l) \<longrightarrow> stopped t n) \<and>
    (is_ok r \<longrightarrow> (\<forall>m. stopped s m \<longrightarrow> stopped t m))"
proof (cases "containerIsConfigured l names \<or> \<not> containerNeedsStop (lc_State l) \<or> lc_ID l = []")
  case True
  have conf: "containerIsConfigured l names \<longleftrightarrow> n \<in> set names"
    using assms(2) by (simp add: containerIsConfigured_def)
  from assms(1) True have "t = s" "is_ok r \<longrightarrow> containerIsConfigured l names \<or> \<not> containerNeedsStop (lc_State l)"
    by (auto simp: stop_unmanaged_def split: if_splits)
  then show ?thesis using conf by (auto intro: only_stops_refl)
next
  case False
  then have n: "n \<notin> set names" using assms(2) by (simp add: containerIsConfigured_def)
  obtain r1 u where 1: "stopContainer pd (lc_ID l) s = (r1, u)" by (cases "stopContainer pd (lc_ID l) s")
  note st = stopContainer_run [OF 1]
  have r: "is_ok r = is_ok r1" "ctrs t = ctrs u" "images t = images u"
    using assms(1) False 1 by (cases r1; auto simp: stop_unmanaged_def run_then run_wrap run_logf output_frame)+
  obtain c where c: "ctrs s n = Some c" "pc_id c = lc_ID l" using assms(3) by auto
  have others: "ctrs u m = ctrs s m" if "m \<noteq> n" for m
    using st c unique_id [of s] that by metis
  have self: "\<exists>b. ctrs u n = Some (c\<lparr>pc_running := b\<rparr>)" "is_ok r1 \<longrightarrow> ctrs u n = Some (c\<lparr>pc_running := False\<rparr>)"
    using st c by blast+
  have "only_stops (set names) s u"
    unfolding only_stops_def using st others self(1) n c by metis
  then have "only_stops (set names) s t" using r by (simp add: only_stops_def)
  moreover have "is_ok r \<longrightarrow> stopped t n" using self(2) r by (simp add: stopped_def)
  moreover have "stopped s m \<longrightarrow> stopped t m" if "is_ok r" for m
    using self(2) others [of m] r that by (cases "m = n") (simp_all add: stopped_def)
  ultimately show ?thesis using others r by auto
qed

lemma stop_loop:
  assumes "io_iter (stop_unmanaged pd names) ls s = (r, t)"
    and "\<forall>l \<in> set ls. \<exists>n. lc_Names l = [n] \<and> map_option pc_id (ctrs s n) = Some (lc_ID l)"
  shows "only_stops (set names) s t \<and> (is_ok r \<longrightarrow> (\<forall>m. stopped s m \<longrightarrow> stopped t m) \<and>
    (\<forall>l \<in> set ls. \<forall>n. lc_Names l = [n] \<longrightarrow> n \<notin> set names \<longrightarrow> containerNeedsStop (lc_State l) \<longrightarrow> stopped t n))"
  using assms
proof (induction ls arbitrary: s)
  case Nil
  then show ?case by (auto intro: only_stops_refl)
next
  case (Cons l ls)
  obtain r1 u where 1: "stop_unmanaged pd names l s = (r1, u)" by (cases "stop_unmanaged pd names l s")
  obtain n where n: "lc_Names l = [n]" "map_option pc_id (ctrs s n) = Some (lc_ID l)" using Cons.prems(2) by auto
  note step = stop_unmanaged_run [OF 1 n]
  show ?case
  proof (cases r1)
    case (Inl e)
    with Cons.prems(1) 1 step show ?thesis by (auto simp: run_then)
  next
    case (Inr v)
    then have rest: "io_iter (stop_unmanaged pd names) ls u = (r, t)" using Cons.prems(1) 1 by (simp add: run_then)
    have "\<forall>l \<in> set ls. \<exists>n. lc_Names l = [n] \<and> map_option pc_id (ctrs u n) = Some (lc_ID l)"
      using Cons.prems(2) only_stops_id step by (metis list.set_intros(2))
    note ih = Cons.IH [OF rest this]
    have "only_stops (set names) s t" using step ih only_stops_trans by blast
    moreover have "is_ok r1" using Inr by simp
    ultimately show ?thesis using step ih n by auto
  qed
qed

lemma stopUnmanaged_run:
  assumes "stopUnmanagedContainers pd configured s = (r, t)"
  shows "only_stops (co_Name ` set configured) s t \<and>
    (is_ok r \<longrightarrow> (\<forall>n c. ctrs t n = Some c \<longrightarrow> pc_running c \<longrightarrow> n \<in> co_Name ` set configured))"
proof -
  obtain r1 u where 1: "listContainers pd s = (r1, u)" by (cases "listContainers pd s")
  note ls = listContainers_run [OF 1]
  show ?thesis
  proof (cases r1)
    case (Inl e)
    with assms 1 ls show ?thesis
      by (auto simp: stopUnmanagedContainers_def run_bind run_wrap intro: only_stops_refl)
  next
    case (Inr existing)
    then have loop: "io_iter (stop_unmanaged pd (map co_Name configured)) existing u = (r, t)"
      using assms 1 by (simp add: stopUnmanagedContainers_def run_bind run_wrap)
    have "ctrs u = ctrs s" using ls by (simp add: same_def)
    have "\<forall>l \<in> set existing. \<exists>n. lc_Names l = [n] \<and> map_option pc_id (ctrs u n) = Some (lc_ID l)"
      using ls Inr unfolding \<open>ctrs u = ctrs s\<close> by (metis option.simps(9))
    note sl = stop_loop [OF loop this]
    have all: "only_stops (co_Name ` set configured) s t"
      using only_stops_trans [OF only_stops_refl, of s u] sl ls by (metis list.set_map)
    have "n \<in> co_Name ` set configured" if h: "is_ok r" "ctrs t n = Some c" "pc_running c" for n c
    proof (rule ccontr)
      assume n: "n \<notin> co_Name ` set configured"
      have notstopped: "\<not> stopped t n" using h(2,3) by (simp add: stopped_def)
      have "\<not> stopped s n" using notstopped sl h(1) \<open>ctrs u = ctrs s\<close> by (auto simp: stopped_def)
      moreover have "map_option pc_id (ctrs t n) = map_option pc_id (ctrs s n)" by (rule only_stops_id [OF all])
      ultimately obtain c0 where c0: "ctrs s n = Some c0" "pc_running c0"
        using h(2) by (cases "ctrs s n") (auto simp: stopped_def)
      then obtain l where "l \<in> set existing" "lc_Names l = [n]" "containerNeedsStop (lc_State l)"
        using ls Inr by blast
      then show False using sl h(1) n notstopped by auto
    qed
    with all show ?thesis by blast
  qed
qed

end

section \<open>An in-memory Podman\<close>

text \<open>
  A Podman that keeps its containers in memory.  The identifier of a container is made from its
  name; creating a container whose name is taken fails; \<open>pm_pullable\<close> are the images the
  registry has.
\<close>

record pdm = host +
  pm_ctrs :: "(string \<times> bool \<times> string \<times> (string \<rightharpoonup> string)) list"
  pm_images :: "string list"
  pm_pullable :: "string list"

definition pdm_id :: "string \<Rightarrow> string" where
  "pdm_id n = ''id:'' @ n"

definition pdm_ctrs :: "pdm \<Rightarrow> string \<rightharpoonup> pctr" where
  "pdm_ctrs s n = map_option (\<lambda>(running, image, labels).
     \<lparr>pc_id = pdm_id n, pc_running = running, pc_image = image, pc_labels = labels\<rparr>) (map_of (pm_ctrs s) n)"

definition blank :: presp where
  "blank = \<lparr>rsp_status = 200, rsp_success = True, rsp_informational = False, rsp_none = Inr (),
     rsp_containers = Inl (Outside ''body''), rsp_inspect = Inl (Outside ''body''),
     rsp_created = Inl (Outside ''body''), rsp_reports = [], rsp_body = []\<rparr>"

definition refused :: "nat \<Rightarrow> presp" where
  "refused status = blank\<lparr>rsp_status := status, rsp_success := False, rsp_none := Inl (Outside ''refused'')\<rparr>"

definition set_running :: "string \<Rightarrow> bool \<Rightarrow> pdm \<Rightarrow> pdm" where
  "set_running i b s = s\<lparr>pm_ctrs := map (\<lambda>(n, v). (n, if pdm_id n = i then (b, snd v) else v)) (pm_ctrs s)\<rparr>"

definition pdm_list :: "pdm \<Rightarrow> listedContainer list" where
  "pdm_list s = concat (map (\<lambda>n. case pdm_ctrs s n of None \<Rightarrow> []
     | Some c \<Rightarrow> [\<lparr>lc_ID = pc_id c, lc_Names = [n], lc_Image = pc_image c,
                 lc_State = (if pc_running c then ''running'' else ''exited'')\<rparr>]) (map fst (pm_ctrs s)))"

definition pdm_GET :: "string \<Rightarrow> string option \<Rightarrow> pdm \<Rightarrow> presp" where
  "pdm_GET endpoint target s =
     (if endpoint = ''/containers/json'' then blank\<lparr>rsp_containers := Inr (pdm_list s)\<rparr>
      else case target of
        None \<Rightarrow> refused 400
      | Some n \<Rightarrow>
          if endpoint = ''/containers/%s/exists'' then
            (if pdm_ctrs s n = None then refused 404 else blank\<lparr>rsp_status := 204\<rparr>)
          else if endpoint = ''/images/%s/exists'' then
            (if n \<in> set (pm_images s) then blank\<lparr>rsp_status := 204\<rparr> else refused 404)
          else if endpoint = ''/containers/%s/json'' then
            (case pdm_ctrs s n of
               None \<Rightarrow> refused 404
             | Some c \<Rightarrow> blank\<lparr>rsp_inspect := Inr \<lparr>in_Name = n, in_Image = pc_id c, in_ImageName = pc_image c,
                 in_ImageDigest = [], in_Running = Some (pc_running c), in_Labels = Some (pc_labels c)\<rparr>\<rparr>)
          else refused 400)"

definition pdm_POST :: "string \<Rightarrow> (string \<times> string) list \<Rightarrow> string option \<Rightarrow> containerSpec option \<Rightarrow> pdm \<Rightarrow> presp \<times> pdm" where
  "pdm_POST endpoint params target spec s =
     (if endpoint = ''/images/pull'' then
        (case map_of params ''reference'' of
           None \<Rightarrow> (refused 400, s)
         | Some i \<Rightarrow>
             if i \<in> set (pm_pullable s)
             then (blank\<lparr>rsp_reports := [Inr \<lparr>pr_Stream = [], pr_Error = [], pr_Images = [i], pr_ID = i\<rparr>]\<rparr>,
                   s\<lparr>pm_images := i # pm_images s\<rparr>)
             else (blank\<lparr>rsp_reports := [Inr \<lparr>pr_Stream = [], pr_Error = ''not found'', pr_Images = [], pr_ID = []\<rparr>]\<rparr>, s))
      else if endpoint = ''/containers/create'' then
        (case spec of
           None \<Rightarrow> (refused 400, s)
         | Some sp \<Rightarrow>
             if pdm_ctrs s (sp_Name sp) \<noteq> None then (refused 409, s)
             else (blank\<lparr>rsp_created := Inr (pdm_id (sp_Name sp))\<rparr>,
                   s\<lparr>pm_ctrs := (sp_Name sp, False, sp_Image sp, map_of (sp_Labels sp)) # pm_ctrs s\<rparr>))
      else case target of
        None \<Rightarrow> (refused 400, s)
      | Some i \<Rightarrow>
          if endpoint = ''/containers/%s/start'' then (blank, set_running i True s)
          else if endpoint = ''/containers/%s/stop'' then (blank, set_running i False s)
          else (refused 400, s))"

definition pdm_request :: "preq \<Rightarrow> (pdm, presp) io" where
  "pdm_request rq = (\<lambda>s.
     if rq_method rq = ''GET'' then (Inr (pdm_GET (rq_endpoint rq) (rq_target rq) s), s)
     else if rq_method rq = ''POST'' then
       (case pdm_POST (rq_endpoint rq) (rq_params rq) (rq_target rq) (rq_spec rq) s of (v, t) \<Rightarrow> (Inr v, t))
     else case rq_target rq of
       None \<Rightarrow> (Inr (refused 400), s)
     | Some n \<Rightarrow> (Inr blank, s\<lparr>pm_ctrs := filter (\<lambda>(m, _). m \<noteq> n) (pm_ctrs s)\<rparr>))"

text \<open>For the digest any function does that never gives the empty text.\<close>

definition pdm_podman :: "pdm podman" where
  "pdm_podman = \<lparr>pd_GetClient = io_ok (), pd_DoRequest = pdm_request, pd_CloseBody = io_ok (),
     pd_NewConnection = (\<lambda>_. io_ok ()), pd_json = (\<lambda>c. co_Name c @ co_Image c),
     pd_sha256 = (\<lambda>x. CHR ''h'' # x), pd_text = (\<lambda>_. ''error'')\<rparr>"

lemma pdm_id_inj [simp]: "pdm_id n = pdm_id m \<longleftrightarrow> n = m"
  by (simp add: pdm_id_def)

lemma map_of_set_running:
  "map_of (map (\<lambda>(n, v). (n, if pdm_id n = i then (b, snd v) else v)) xs) n =
     map_option (\<lambda>v. if pdm_id n = i then (b, snd v) else v) (map_of xs n)"
  by (induction xs) auto

lemma pdm_ctrs_set_running:
  "pdm_ctrs (set_running i b s) n =
     map_option (\<lambda>c. if pc_id c = i then c\<lparr>pc_running := b\<rparr> else c) (pdm_ctrs s n)"
  by (cases "map_of (pm_ctrs s) n") (auto simp: pdm_ctrs_def set_running_def map_of_set_running)

lemma map_of_drop: "map_of (filter (\<lambda>(m, _). m \<noteq> n) xs) k = (if k = n then None else map_of xs k)"
  by (induction xs) auto

lemma pdm_list_set:
  "l \<in> set (pdm_list s) \<longleftrightarrow> (\<exists>n c. pdm_ctrs s n = Some c \<and> l = \<lparr>lc_ID = pc_id c, lc_Names = [n],
     lc_Image = pc_image c, lc_State = (if pc_running c then ''running'' else ''exited'')\<rparr>)"
proof -
  have dom: "n \<in> fst ` set (pm_ctrs s)" if "pdm_ctrs s n = Some c" for n c
    using that unfolding pdm_ctrs_def by (cases "map_of (pm_ctrs s) n") (auto dest: map_of_SomeD intro: rev_image_eqI)
  let ?entry = "\<lambda>n c. \<lparr>lc_ID = pc_id c, lc_Names = [n], lc_Image = pc_image c,
     lc_State = (if pc_running c then ''running'' else ''exited'')\<rparr>"
  have "l \<in> set (pdm_list s) \<longleftrightarrow> (\<exists>n \<in> fst ` set (pm_ctrs s). \<exists>c. pdm_ctrs s n = Some c \<and> l = ?entry n c)"
    unfolding pdm_list_def by (auto simp: split: option.splits) force+
  then show ?thesis using dom by blast
qed

lemma pm_images_set_running [simp]: "pm_images (set_running i b s) = pm_images s"
  by (simp add: set_running_def)

lemma map_option_unchanged: "\<forall>c. x = Some c \<longrightarrow> \<not> P c \<Longrightarrow> map_option (\<lambda>c. if P c then f c else c) x = x"
  by (cases x) simp_all

lemma pdm_ctrs_cons:
  "pdm_ctrs (s\<lparr>pm_ctrs := (n, b, i, ls) # pm_ctrs s\<rparr>) m =
     (if m = n then Some \<lparr>pc_id = pdm_id n, pc_running = b, pc_image = i, pc_labels = ls\<rparr> else pdm_ctrs s m)"
  by (simp add: pdm_ctrs_def)

lemma running_needs_stop [simp]: "containerNeedsStop ''running''"
  by code_simp

interpretation pdm: libpod pdm_podman pdm_ctrs "\<lambda>s. set (pm_images s)"
proof (unfold_locales, goal_cases)
  case (9 n s v t)
  then show ?case by (auto simp: pdm_podman_def pdm_request_def req_def pdm_GET_def blank_def refused_def split: if_splits)
next
  case (10 i s v t)
  then show ?case by (auto simp: pdm_podman_def pdm_request_def req_def pdm_GET_def blank_def refused_def split: if_splits)
next
  case (11 n s v t ins)
  then have st: "t = s" and v: "v = pdm_GET ''/containers/%s/json'' (Some n) s"
    by (auto simp: pdm_podman_def pdm_request_def req_def)
  show ?case
  proof (cases "pdm_ctrs s n")
    case None
    with 11(2) v show ?thesis by (simp add: pdm_GET_def blank_def refused_def)
  next
    case (Some c)
    with 11(2) v show ?thesis by (auto simp: pdm_GET_def blank_def)
  qed
next
  case (12 s v t ls)
  then have "ls = pdm_list s"
    by (auto simp: pdm_podman_def pdm_request_def req_def pdm_GET_def blank_def)
  show ?case
  proof (intro conjI allI impI ballI)
    fix n c assume "pdm_ctrs s n = Some c"
    with \<open>ls = pdm_list s\<close> show "\<exists>l \<in> set ls. lc_Names l = [n] \<and> lc_ID l = pc_id c \<and>
        (pc_running c \<longrightarrow> containerNeedsStop (lc_State l))"
      by (intro bexI [of _ "\<lparr>lc_ID = pc_id c, lc_Names = [n], lc_Image = pc_image c,
           lc_State = (if pc_running c then ''running'' else ''exited'')\<rparr>"]) (auto simp: pdm_list_set)
  next
    fix l assume "l \<in> set ls"
    with \<open>ls = pdm_list s\<close> obtain n c where "pdm_ctrs s n = Some c" "lc_Names l = [n]" "lc_ID l = pc_id c"
      by (auto simp: pdm_list_set)
    then show "\<exists>n c. pdm_ctrs s n = Some c \<and> lc_Names l = [n] \<and> lc_ID l = pc_id c" by blast
  qed
next
  case (13 i s r' t)
  then show ?case
    by (auto simp: pdm_podman_def pdm_request_def req_def pdm_POST_def blank_def pdm_ctrs_def pullReportError_def
        split: if_splits option.splits)
next
  case (14 n s r' t)
  then show ?case
    by (auto simp: pdm_podman_def pdm_request_def req_def blank_def pdm_ctrs_def map_of_drop)
next
  case (15 spec s r' t)
  then show ?case
    by (auto simp: pdm_podman_def pdm_request_def req_def create_req_def pdm_POST_def blank_def refused_def
        pdm_ctrs_cons split: if_splits)
next
  case (16 i s r' t)
  then show ?case
    by (auto simp: pdm_podman_def pdm_request_def req_def pdm_POST_def blank_def pdm_ctrs_set_running map_option_unchanged
        split: if_splits option.splits)
next
  case (17 i s r' t)
  then show ?case
    by (auto simp: pdm_podman_def pdm_request_def req_def pdm_POST_def blank_def pdm_ctrs_set_running map_option_unchanged
        split: if_splits option.splits)
qed (auto simp: pdm_podman_def pdm_request_def pdm_ctrs_def split: option.splits)

section \<open>Properties\<close>

definition sample_pdm :: pdm where
  "sample_pdm = \<lparr>ho_log = [], ho_stderr = [],
     pm_ctrs = [(''web'', True, ''docker.io/library/nginx:1.26'', \<lambda>_. None), (''stray'', True, ''x'', \<lambda>_. None),
       (''db'', True, ''postgres'', \<lambda>_. None)],
     pm_images = [], pm_pullable = [''docker.io/library/nginx:1.27'']\<rparr>"

lemma sample_reconcileContainer:
  "is_ok (fst (reconcileContainer pdm_podman sample_container sample_pdm))"
  by code_simp

lemma sample_hash: "configHash (pd_json pdm_podman) (pd_sha256 pdm_podman) c \<noteq> []"
  by (simp add: configHash_def pdm_podman_def)

lemma pdm_name: "co_Name sample_container = ''web''"
  by (simp add: sample_container_def)

text \<open>C5: a successful reconcile of a container leaves it running with the label of its
  configuration, whatever container of that name was there before.\<close>

theorem reconcileContainer_converges:
  assumes "libpod pd ctrs images"
    and "co_Name c \<noteq> []" and "configHash (pd_json pd) (pd_sha256 pd) c \<noteq> []"
    and "reconcileContainer pd c s = (Inr u, t)"
  shows "\<exists>k. ctrs t (co_Name c) = Some k \<and> pc_running k \<and>
    pc_labels k configHashLabel = Some (configHash (pd_json pd) (pd_sha256 pd) c)"
  using libpod.reconcile_converges [OF assms(1,4,2,3)] unfolding libpod.up_to_date_def [OF assms(1)] .

lemma reconcileContainer_converges_witness:
  "\<exists>k t. reconcileContainer pdm_podman sample_container sample_pdm = (Inr (), t) \<and> pdm_ctrs t ''web'' = Some k \<and> pc_running k"
proof -
  obtain r t where run: "reconcileContainer pdm_podman sample_container sample_pdm = (r, t)"
    by (cases "reconcileContainer pdm_podman sample_container sample_pdm")
  then have r: "r = Inr ()" using sample_reconcileContainer by (cases r) simp_all
  from reconcileContainer_converges [OF pdm.libpod_axioms _ sample_hash run [unfolded r]]
  show ?thesis using run r by (auto simp: pdm_name)
qed

text \<open>C22: a container that already runs with the label of its configuration is neither removed,
  recreated nor restarted by another reconcile, and a successful one pulls no image.\<close>

theorem reconcileContainer_leaves_current:
  assumes "libpod pd ctrs images"
    and "co_Name c \<noteq> []"
    and "ctrs s (co_Name c) = Some k" and "pc_running k"
    and "pc_labels k configHashLabel = Some (configHash (pd_json pd) (pd_sha256 pd) c)"
    and "reconcileContainer pd c s = (r, t)"
  shows "ctrs t = ctrs s \<and> (is_ok r \<longrightarrow> images t = images s)"
proof -
  have "libpod.up_to_date pd ctrs c s"
    unfolding libpod.up_to_date_def [OF assms(1)] using assms(3-5) by blast
  from libpod.reconcile_current [OF assms(1,6,2) this] show ?thesis by blast
qed

lemma reconcileContainer_leaves_current_witness:
  "\<exists>t. reconcileContainer pdm_podman sample_container sample_pdm = (Inr (), t) \<and>
     pdm_ctrs (snd (reconcileContainer pdm_podman sample_container t)) = pdm_ctrs t"
proof -
  obtain r t where run: "reconcileContainer pdm_podman sample_container sample_pdm = (r, t)"
    by (cases "reconcileContainer pdm_podman sample_container sample_pdm")
  then have r: "r = Inr ()" using sample_reconcileContainer by (cases r) simp_all
  have "pdm.up_to_date sample_container t"
    by (rule pdm.reconcile_converges [OF run [unfolded r] _ sample_hash]) (simp add: pdm_name)
  then obtain k where k: "pdm_ctrs t (co_Name sample_container) = Some k" "pc_running k"
      "pc_labels k configHashLabel = Some (configHash (pd_json pdm_podman) (pd_sha256 pdm_podman) sample_container)"
    unfolding pdm.up_to_date_def by blast
  obtain r2 u where run2: "reconcileContainer pdm_podman sample_container t = (r2, u)"
    by (cases "reconcileContainer pdm_podman sample_container t")
  from reconcileContainer_leaves_current [OF pdm.libpod_axioms _ k run2]
  show ?thesis using run r run2 by (simp add: pdm_name)
qed

text \<open>C8: a reconcile touches no container of another name, and it removes or replaces the
  container of that name only once the image is in local storage, so that a missing image never
  takes a running container down; this holds also when it fails.\<close>

theorem reconcileContainer_image_first:
  assumes "libpod pd ctrs images" and "co_Name c \<noteq> []"
    and "reconcileContainer pd c s = (r, t)"
  shows "(\<forall>n. n \<noteq> co_Name c \<longrightarrow> ctrs t n = ctrs s n) \<and>
    (ctrs t (co_Name c) = ctrs s (co_Name c) \<or> co_Image c \<in> images t)"
  by (rule libpod.reconcile_frame [OF assms(1,3,2)])

lemma reconcileContainer_image_first_witness:
  "pdm_ctrs (snd (reconcileContainer pdm_podman sample_container (sample_pdm\<lparr>pm_pullable := []\<rparr>))) ''db'' =
   pdm_ctrs (sample_pdm\<lparr>pm_pullable := []\<rparr>) ''db''"
proof -
  obtain r t where run: "reconcileContainer pdm_podman sample_container (sample_pdm\<lparr>pm_pullable := []\<rparr>) = (r, t)"
    by (cases "reconcileContainer pdm_podman sample_container (sample_pdm\<lparr>pm_pullable := []\<rparr>)")
  from reconcileContainer_image_first [OF pdm.libpod_axioms _ run] run show ?thesis
    by (simp add: pdm_name)
qed



end
