(* ===== verification/Filesys.thy ===== *)
theory Filesys
  imports Host GoStrings "HOL-Library.AList"
begin

text \<open>
  What the program uses of the \<open>os\<close> package: names, directories, the contents and attributes of
  files, and what of them the disk is sure to hold.

  A path is resolved to the list of its elements; there are no symbolic links.  Every call takes
  the next entry of a schedule of faults, so that any call may fail, and the power may go at any
  call: from then on nothing changes any more.  A failing call may still have done a part of its
  work.
\<close>

unbundle bit_operations_syntax

section \<open>The state\<close>

type_synonym loc = "string list"

datatype kind = File | Folder | Socket

record inode =
  ino_kind :: kind
  ino_data :: string
  ino_mode :: nat
  ino_uid :: int
  ino_gid :: int
  ino_synced :: bool

datatype fault = Fine | Fails nat string | PowerOff nat

text \<open>
  \<open>fs_names\<close> are the names as a running program sees them.  \<open>fs_disk p\<close> are the values the name
  \<open>p\<close> may have after a power loss: every value it had since its directory was last flushed.  The
  data and attributes of a file that is not \<open>ino_synced\<close> may be anything after a power loss.
  \<open>fs_random\<close> are the random numbers of temporary names.
\<close>

record fs = host +
  fs_inodes :: "nat \<Rightarrow> inode option"
  fs_names :: "(loc \<times> nat) list"
  fs_disk :: "loc \<Rightarrow> nat option list"
  fs_next :: nat
  fs_umask :: nat
  fs_random :: "nat \<Rightarrow> nat"
  fs_drawn :: nat
  fs_faults :: "fault list"
  fs_off :: bool

definition ErrNotExist :: err where "ErrNotExist = Outside ''no such file or directory''"
definition ErrExist :: err where "ErrExist = Outside ''file exists''"
definition ErrNotDir :: err where "ErrNotDir = Outside ''not a directory''"
definition ErrIsDir :: err where "ErrIsDir = Outside ''is a directory''"
definition ErrNotEmpty :: err where "ErrNotEmpty = Outside ''directory not empty''"
definition power_lost :: err where "power_lost = Outside ''power lost''"

lemmas errno_defs = ErrNotExist_def ErrExist_def ErrNotDir_def ErrIsDir_def ErrNotEmpty_def power_lost_def

text \<open>An injected error is none of the errors the program asks for.\<close>

definition injected :: "string \<Rightarrow> err" where
  "injected e = Outside (''fault: '' @ e)"

lemma injected_other [simp]: "injected e \<noteq> ErrNotExist" "injected e \<noteq> ErrExist" "power_lost \<noteq> ErrNotExist"
    "power_lost \<noteq> ErrExist" "ErrNotDir \<noteq> ErrNotExist" "ErrIsDir \<noteq> ErrNotExist" "ErrNotEmpty \<noteq> ErrNotExist"
    "ErrExist \<noteq> ErrNotExist"
  by (simp_all add: injected_def errno_defs)

definition resolve :: "string \<Rightarrow> loc" where
  "resolve path = clean_elems True (Split path CHR ''/'') []"

definition name_of :: "'x fs_scheme \<Rightarrow> loc \<Rightarrow> nat option" where
  "name_of s p = map_of (fs_names s) p"

definition inode_at :: "'x fs_scheme \<Rightarrow> loc \<Rightarrow> inode option" where
  "inode_at s p = (case name_of s p of None \<Rightarrow> None | Some n \<Rightarrow> fs_inodes s n)"

definition is_dir :: "'x fs_scheme \<Rightarrow> loc \<Rightarrow> bool" where
  "is_dir s p \<longleftrightarrow> p = [] \<or> (case inode_at s p of None \<Rightarrow> False | Some i \<Rightarrow> ino_kind i = Folder)"

definition set_name :: "loc \<Rightarrow> nat option \<Rightarrow> 'x fs_scheme \<Rightarrow> 'x fs_scheme" where
  "set_name p v s = s\<lparr>fs_names := (case v of None \<Rightarrow> AList.delete p (fs_names s) | Some n \<Rightarrow> AList.update p n (fs_names s)),
     fs_disk := (fs_disk s)(p := v # fs_disk s p)\<rparr>"

definition alloc :: "inode \<Rightarrow> 'x fs_scheme \<Rightarrow> 'x fs_scheme" where
  "alloc i s = s\<lparr>fs_inodes := (fs_inodes s)(fs_next s := Some i), fs_next := Suc (fs_next s)\<rparr>"

definition change :: "nat \<Rightarrow> (inode \<Rightarrow> inode) \<Rightarrow> 'x fs_scheme \<Rightarrow> 'x fs_scheme" where
  "change n g s = s\<lparr>fs_inodes := (fs_inodes s)(n := map_option g (fs_inodes s n))\<rparr>"

text \<open>Why a name is not there: one of the directories on the way is missing, or is none.\<close>

fun walk_error :: "'x fs_scheme \<Rightarrow> loc \<Rightarrow> loc \<Rightarrow> err" where
  "walk_error s d [] = ErrNotExist"
| "walk_error s d (c # cs) =
     (case inode_at s (d @ [c]) of
        None \<Rightarrow> ErrNotExist
      | Some i \<Rightarrow> if ino_kind i = Folder then walk_error s (d @ [c]) cs else ErrNotDir)"

definition path_error :: "'x fs_scheme \<Rightarrow> loc \<Rightarrow> err" where
  "path_error s p = walk_error s [] (butlast p)"

section \<open>Calls\<close>

text \<open>\<open>part n\<close> is what a call that fails after \<open>n\<close> bytes leaves.\<close>

definition syscall :: "(nat \<Rightarrow> 'x fs_scheme \<Rightarrow> 'x fs_scheme) \<Rightarrow> ('x fs_scheme, 'a) io \<Rightarrow> ('x fs_scheme, 'a) io" where
  "syscall part eff = (\<lambda>s.
     if fs_off s then (Inl power_lost, s)
     else case fs_faults s of
       [] \<Rightarrow> eff s
     | f # fs \<Rightarrow>
         (case f of
            Fine \<Rightarrow> eff (s\<lparr>fs_faults := fs\<rparr>)
          | Fails n e \<Rightarrow> (Inl (injected e), part n (s\<lparr>fs_faults := fs\<rparr>))
          | PowerOff n \<Rightarrow> (Inl power_lost, (part n (s\<lparr>fs_faults := fs\<rparr>))\<lparr>fs_off := True\<rparr>)))"

abbreviation nothing :: "nat \<Rightarrow> 's \<Rightarrow> 's" where
  "nothing \<equiv> \<lambda>_ s. s"

text \<open>\<open>os.FileMode\<close> keeps the set-user-id, set-group-id and sticky bits at positions 23, 22 and 20;
  only those and the permission bits reach the system call.\<close>

definition syscallMode :: "nat \<Rightarrow> nat" where
  "syscallMode m = m mod 512 + 2048 * (m div 2 ^ 23 mod 2) + 1024 * (m div 2 ^ 22 mod 2) + 512 * (m div 2 ^ 20 mod 2)"

definition masked :: "'x fs_scheme \<Rightarrow> nat \<Rightarrow> nat" where
  "masked s m = syscallMode m - (syscallMode m AND fs_umask s)"

definition new_inode :: "kind \<Rightarrow> nat \<Rightarrow> inode" where
  "new_inode k m = \<lparr>ino_kind = k, ino_data = [], ino_mode = m, ino_uid = 0, ino_gid = 0, ino_synced = False\<rparr>"

definition create_at :: "loc \<Rightarrow> kind \<Rightarrow> nat \<Rightarrow> 'x fs_scheme \<Rightarrow> 'x fs_scheme" where
  "create_at p k m s = set_name p (Some (fs_next s)) (alloc (new_inode k (masked s m)) s)"

definition os_Stat :: "loc \<Rightarrow> ('x fs_scheme, inode) io" where
  "os_Stat p = syscall nothing (\<lambda>s.
     if p = [] then (Inr (new_inode Folder 493), s)
     else case inode_at s p of None \<Rightarrow> (Inl (path_error s p), s) | Some i \<Rightarrow> (Inr i, s))"

definition os_Mkdir :: "loc \<Rightarrow> nat \<Rightarrow> ('x fs_scheme, unit) io" where
  "os_Mkdir p mode = syscall nothing (\<lambda>s.
     if p = [] \<or> inode_at s p \<noteq> None then (Inl ErrExist, s)
     else if \<not> is_dir s (butlast p) then (Inl (path_error s p), s)
     else (Inr (), create_at p Folder mode s))"

text \<open>\<open>os.MkdirAll\<close>: the elements of the path, last one first.\<close>

primrec mkdir_all :: "loc \<Rightarrow> nat \<Rightarrow> ('x fs_scheme, unit) io" where
  "mkdir_all [] mode = io_ok ()"
| "mkdir_all (c # r) mode =
     io_bind (io_try (os_Stat (rev r @ [c]))) (\<lambda>st.
     case st of
       Inr i \<Rightarrow> if ino_kind i = Folder then io_ok () else io_fail ErrNotDir
     | Inl _ \<Rightarrow> io_then (mkdir_all r mode)
         (io_bind (io_try (os_Mkdir (rev r @ [c]) mode)) (\<lambda>m.
          case m of
            Inr _ \<Rightarrow> io_ok ()
          | Inl e \<Rightarrow> io_bind (io_try (os_Stat (rev r @ [c]))) (\<lambda>l.
              case l of
                Inr i \<Rightarrow> if ino_kind i = Folder then io_ok () else io_fail e
              | Inl _ \<Rightarrow> io_fail e))))"

definition os_MkdirAll :: "string \<Rightarrow> nat \<Rightarrow> ('x fs_scheme, unit) io" where
  "os_MkdirAll path mode = (if path = [] then io_fail ErrNotExist else mkdir_all (rev (resolve path)) mode)"

definition open_excl :: "loc \<Rightarrow> nat \<Rightarrow> ('x fs_scheme, nat) io" where
  "open_excl p mode = syscall nothing (\<lambda>s.
     if p = [] \<or> inode_at s p \<noteq> None then (Inl ErrExist, s)
     else if \<not> is_dir s (butlast p) then (Inl (path_error s p), s)
     else (Inr (fs_next s), create_at p File mode s))"

definition random_text :: "'x fs_scheme \<Rightarrow> string" where
  "random_text s = nat_string 10 (fs_random s (fs_drawn s) mod 2 ^ 32)"

definition draw :: "('x fs_scheme, string) io" where
  "draw = (\<lambda>s. (Inr (random_text s), s\<lparr>fs_drawn := Suc (fs_drawn s)\<rparr>))"

text \<open>\<open>os.CreateTemp\<close>: the name and the open file; a name that is taken is tried again with
  another random number, ten thousand times at most.\<close>

primrec create_temp :: "nat \<Rightarrow> string \<Rightarrow> string \<Rightarrow> ('x fs_scheme, string \<times> nat) io" where
  "create_temp 0 prefix suffix = io_fail ErrExist"
| "create_temp (Suc tries) prefix suffix =
     io_bind draw (\<lambda>random. let name = prefix @ random @ suffix in
     io_bind (io_try (open_excl (resolve name) 384)) (\<lambda>r.
     case r of
       Inr f \<Rightarrow> io_ok (name, f)
     | Inl e \<Rightarrow> if e = ErrExist then create_temp tries prefix suffix else io_fail e))"

definition os_CreateTemp :: "string \<Rightarrow> string \<Rightarrow> ('x fs_scheme, string \<times> nat) io" where
  "os_CreateTemp dir pattern =
     (let i = LastIndex pattern CHR ''*'';
          prefix = (if i = -1 then pattern else take (nat i) pattern);
          suffix = (if i = -1 then [] else drop (nat i + 1) pattern)
      in create_temp 10000 (join_path dir prefix) suffix)"

definition file_Write :: "nat \<Rightarrow> string \<Rightarrow> ('x fs_scheme, unit) io" where
  "file_Write f b = syscall (\<lambda>n. change f (\<lambda>i. i\<lparr>ino_data := ino_data i @ take n b, ino_synced := False\<rparr>))
     (\<lambda>s. (Inr (), change f (\<lambda>i. i\<lparr>ino_data := ino_data i @ b, ino_synced := False\<rparr>) s))"

definition file_Chmod :: "nat \<Rightarrow> nat \<Rightarrow> ('x fs_scheme, unit) io" where
  "file_Chmod f mode = syscall nothing
     (\<lambda>s. (Inr (), change f (\<lambda>i. i\<lparr>ino_mode := syscallMode mode, ino_synced := False\<rparr>) s))"

definition file_Sync :: "nat \<Rightarrow> ('x fs_scheme, unit) io" where
  "file_Sync f = syscall nothing (\<lambda>s. (Inr (), change f (\<lambda>i. i\<lparr>ino_synced := True\<rparr>) s))"

definition file_Close :: "nat \<Rightarrow> ('x fs_scheme, unit) io" where
  "file_Close f = syscall nothing (\<lambda>s. (Inr (), s))"

definition os_Rename :: "string \<Rightarrow> string \<Rightarrow> ('x fs_scheme, unit) io" where
  "os_Rename old new = syscall nothing (\<lambda>s.
     let p = resolve old; q = resolve new in
     case name_of s p of
       None \<Rightarrow> (Inl (path_error s p), s)
     | Some n \<Rightarrow>
         if \<not> is_dir s (butlast q) then (Inl (path_error s q), s)
         else if is_dir s q then (Inl ErrExist, s)
         else if p = q then (Inr (), s)
         else (Inr (), set_name p None (set_name q (Some n) s)))"

definition os_Remove :: "string \<Rightarrow> ('x fs_scheme, unit) io" where
  "os_Remove path = syscall nothing (\<lambda>s.
     let p = resolve path in
     case name_of s p of
       None \<Rightarrow> (Inl (path_error s p), s)
     | Some n \<Rightarrow>
         if is_dir s p \<and> list_ex (\<lambda>(q, _). q \<noteq> [] \<and> butlast q = p) (fs_names s) then (Inl ErrNotEmpty, s)
         else (Inr (), set_name p None s))"

definition open_dir :: "string \<Rightarrow> ('x fs_scheme, loc) io" where
  "open_dir path = syscall nothing (\<lambda>s.
     let p = resolve path in
     if p = [] \<or> inode_at s p \<noteq> None then (Inr p, s) else (Inl (path_error s p), s))"

text \<open>Flushing a directory makes the present value of every name in it the one that lasts.\<close>

definition dir_Sync :: "loc \<Rightarrow> ('x fs_scheme, unit) io" where
  "dir_Sync d = syscall nothing (\<lambda>s.
     (Inr (), s\<lparr>fs_disk := (\<lambda>p. if p \<noteq> [] \<and> butlast p = d then [name_of s p] else fs_disk s p)\<rparr>))"

definition dir_Close :: "loc \<Rightarrow> ('x fs_scheme, unit) io" where
  "dir_Close d = syscall nothing (\<lambda>s. (Inr (), s))"

definition os_ReadFile :: "string \<Rightarrow> ('x fs_scheme, string) io" where
  "os_ReadFile path = syscall nothing (\<lambda>s.
     let p = resolve path in
     if path = [] then (Inl ErrNotExist, s)
     else if is_dir s p then (Inl ErrIsDir, s)
     else case inode_at s p of None \<Rightarrow> (Inl (path_error s p), s) | Some i \<Rightarrow> (Inr (ino_data i), s))"

definition open_trunc :: "loc \<Rightarrow> nat \<Rightarrow> ('x fs_scheme, nat) io" where
  "open_trunc p mode = syscall nothing (\<lambda>s.
     if is_dir s p then (Inl ErrIsDir, s)
     else case name_of s p of
       Some n \<Rightarrow> (Inr n, change n (\<lambda>i. i\<lparr>ino_data := [], ino_synced := False\<rparr>) s)
     | None \<Rightarrow>
         if \<not> is_dir s (butlast p) then (Inl (path_error s p), s)
         else (Inr (fs_next s), create_at p File mode s))"

definition os_WriteFile :: "string \<Rightarrow> string \<Rightarrow> nat \<Rightarrow> ('x fs_scheme, unit) io" where
  "os_WriteFile path b mode =
     io_bind (open_trunc (resolve path) mode) (\<lambda>f.
     io_bind (io_try (file_Write f b)) (\<lambda>w.
     io_bind (io_try (file_Close f)) (\<lambda>c.
     io_lift (if is_ok w then c else w))))"

definition os_Chmod :: "string \<Rightarrow> nat \<Rightarrow> ('x fs_scheme, unit) io" where
  "os_Chmod path mode = syscall nothing (\<lambda>s.
     case name_of s (resolve path) of
       None \<Rightarrow> (Inl (path_error s (resolve path)), s)
     | Some n \<Rightarrow> (Inr (), change n (\<lambda>i. i\<lparr>ino_mode := syscallMode mode, ino_synced := False\<rparr>) s))"

text \<open>\<open>os.Chown\<close>: minus one leaves the user or the group as it is.\<close>

definition os_Chown :: "string \<Rightarrow> int \<Rightarrow> int \<Rightarrow> ('x fs_scheme, unit) io" where
  "os_Chown path uid gid = syscall nothing (\<lambda>s.
     case name_of s (resolve path) of
       None \<Rightarrow> (Inl (path_error s (resolve path)), s)
     | Some n \<Rightarrow> (Inr (), change n (\<lambda>i. i\<lparr>ino_uid := (if uid = -1 then ino_uid i else uid),
         ino_gid := (if gid = -1 then ino_gid i else gid), ino_synced := False\<rparr>) s))"

section \<open>Laws\<close>

lemma name_of_set_name [simp]: "name_of (set_name p v s) q = (if q = p then v else name_of s q)"
  by (cases v) (simp_all add: name_of_def set_name_def update_conv' delete_conv')

lemma set_name_fields [simp]:
  "fs_inodes (set_name p v s) = fs_inodes s" "fs_next (set_name p v s) = fs_next s"
  "fs_disk (set_name p v s) = (fs_disk s)(p := v # fs_disk s p)" "fs_off (set_name p v s) = fs_off s"
  "fs_faults (set_name p v s) = fs_faults s" "fs_umask (set_name p v s) = fs_umask s"
  by (simp_all add: set_name_def)

lemma alloc_fields [simp]:
  "name_of (alloc i s) p = name_of s p" "fs_disk (alloc i s) = fs_disk s"
  "fs_inodes (alloc i s) = (fs_inodes s)(fs_next s := Some i)" "fs_next (alloc i s) = Suc (fs_next s)"
  "fs_off (alloc i s) = fs_off s" "fs_faults (alloc i s) = fs_faults s"
  by (simp_all add: alloc_def name_of_def)

lemma change_fields [simp]:
  "name_of (change n g s) p = name_of s p" "fs_disk (change n g s) = fs_disk s"
  "fs_inodes (change n g s) = (fs_inodes s)(n := map_option g (fs_inodes s n))" "fs_next (change n g s) = fs_next s"
  "fs_off (change n g s) = fs_off s" "fs_faults (change n g s) = fs_faults s"
  by (simp_all add: change_def name_of_def)

lemma create_at_fields [simp]:
  "name_of (create_at p k m s) q = (if q = p then Some (fs_next s) else name_of s q)"
  "fs_disk (create_at p k m s) = (fs_disk s)(p := Some (fs_next s) # fs_disk s p)"
  "fs_inodes (create_at p k m s) = (fs_inodes s)(fs_next s := Some (new_inode k (masked s m)))"
  "fs_next (create_at p k m s) = Suc (fs_next s)" "fs_off (create_at p k m s) = fs_off s"
  "fs_faults (create_at p k m s) = fs_faults s"
  by (simp_all add: create_at_def)

lemma name_of_update [simp]:
  "name_of (s\<lparr>fs_inodes := a\<rparr>) p = name_of s p" "name_of (s\<lparr>fs_disk := b\<rparr>) p = name_of s p"
  "name_of (s\<lparr>fs_next := c\<rparr>) p = name_of s p" "name_of (s\<lparr>fs_umask := d\<rparr>) p = name_of s p"
  "name_of (s\<lparr>fs_drawn := e\<rparr>) p = name_of s p" "name_of (s\<lparr>fs_faults := f\<rparr>) p = name_of s p"
  "name_of (s\<lparr>fs_off := g\<rparr>) p = name_of s p" "name_of (s\<lparr>ho_log := h\<rparr>) p = name_of s p"
  "name_of (s\<lparr>ho_stderr := k\<rparr>) p = name_of s p"
  by (simp_all add: name_of_def)

text \<open>
  A property of states that does not look at the schedule is kept by a call when its effect and
  its partial effects keep it.
\<close>

lemma keeps_syscall:
  assumes ctl: "\<And>s fs. I s \<Longrightarrow> I (s\<lparr>fs_faults := fs\<rparr>)" "\<And>s. I s \<Longrightarrow> I (s\<lparr>fs_off := True\<rparr>)"
    and part: "\<And>s n. I s \<Longrightarrow> I (part n s)"
    and eff: "\<And>s r t. I s \<Longrightarrow> eff s = (r, t) \<Longrightarrow> I t"
  shows "io_keeps I (syscall part eff)"
proof (rule io_keepsI)
  fix s r t assume s: "I s" and run: "syscall part eff s = (r, t)"
  show "I t"
  proof (cases "fs_off s")
    case True
    with run s show ?thesis by (simp add: syscall_def)
  next
    case False
    show ?thesis
    proof (cases "fs_faults s")
      case Nil
      with run s False eff show ?thesis by (simp add: syscall_def)
    next
      case (Cons f fs)
      then show ?thesis
        using run s False eff [OF ctl(1) [OF s]] ctl part by (cases f) (auto simp: syscall_def)
    qed
  qed
qed

lemma syscall_success:
  assumes "syscall part eff s = (Inr x, t)"
  obtains fs where "eff (s\<lparr>fs_faults := fs\<rparr>) = (Inr x, t)" "\<not> fs_off s"
proof (cases "fs_off s \<or> fs_faults s = []")
  case True
  then show ?thesis
  proof (cases "fs_off s")
    case True
    with assms show ?thesis by (simp add: syscall_def)
  next
    case False
    with True have nil: "fs_faults s = []" by simp
    then have "s\<lparr>fs_faults := []\<rparr> = s" by (cases s) simp
    with nil False assms that [of "[]"] show ?thesis by (simp add: syscall_def)
  qed
next
  case False
  then obtain f fs where f: "fs_faults s = f # fs" "\<not> fs_off s" by (auto simp: neq_Nil_conv)
  show ?thesis
  proof (rule that [of fs])
    show "eff (s\<lparr>fs_faults := fs\<rparr>) = (Inr x, t)" using assms f by (cases f) (simp_all add: syscall_def)
  qed (rule f(2))
qed

lemma syscall_no_fault: "\<not> fs_off s \<Longrightarrow> fs_faults s = [] \<Longrightarrow> syscall part eff s = eff s"
  by (simp add: syscall_def)

text \<open>The inodes that names lead to exist, and no inode number is used twice.\<close>

definition fs_wf :: "'x fs_scheme \<Rightarrow> bool" where
  "fs_wf s \<longleftrightarrow> (\<forall>n. fs_next s \<le> n \<longrightarrow> fs_inodes s n = None) \<and>
     (\<forall>p n. (name_of s p = Some n \<or> Some n \<in> set (fs_disk s p)) \<longrightarrow> fs_inodes s n \<noteq> None) \<and>
     (\<forall>p. name_of s p \<in> set (fs_disk s p))"

lemma fs_wf_bound: "fs_wf s \<Longrightarrow> fs_inodes s n \<noteq> None \<Longrightarrow> n < fs_next s"
  by (meson fs_wf_def not_le)

lemma fs_wf_named: "fs_wf s \<Longrightarrow> name_of s p = Some n \<Longrightarrow> fs_inodes s n \<noteq> None"
  unfolding fs_wf_def by blast

lemma fs_wf_ctl [simp]:
  "fs_wf (s\<lparr>fs_faults := fs\<rparr>) = fs_wf s" "fs_wf (s\<lparr>fs_off := b\<rparr>) = fs_wf s" "fs_wf (s\<lparr>fs_drawn := d\<rparr>) = fs_wf s"
  "fs_wf (s\<lparr>ho_log := l\<rparr>) = fs_wf s" "fs_wf (s\<lparr>ho_stderr := l'\<rparr>) = fs_wf s"
  by (simp_all add: fs_wf_def)

lemma fs_wf_change [simp]: "fs_wf s \<Longrightarrow> fs_wf (change n g s)"
  by (auto simp: fs_wf_def)

lemma fs_wf_create: "fs_wf s \<Longrightarrow> fs_wf (create_at p k m s)"
  by (auto simp: fs_wf_def)

lemma fs_wf_set_name:
  "fs_wf s \<Longrightarrow> (\<And>n. v = Some n \<Longrightarrow> fs_inodes s n \<noteq> None) \<Longrightarrow> fs_wf (set_name p v s)"
  by (auto simp: fs_wf_def)

lemma fs_wf_flush: "fs_wf s \<Longrightarrow> fs_wf (s\<lparr>fs_disk := (\<lambda>p. if P p then [name_of s p] else fs_disk s p)\<rparr>)"
  by (auto simp: fs_wf_def split: if_splits)

section \<open>What a call leaves alone\<close>

text \<open>
  \<open>untouched p s t\<close>: since \<open>s\<close> the name \<open>p\<close> has not been written, in memory or on the disk, and
  no file that existed then was changed.
\<close>

definition untouched :: "loc \<Rightarrow> 'x fs_scheme \<Rightarrow> 'x fs_scheme \<Rightarrow> bool" where
  "untouched p s t \<longleftrightarrow> fs_wf t \<and> name_of t p = name_of s p \<and> fs_disk t p = fs_disk s p \<and>
     (\<forall>n < fs_next s. fs_inodes t n = fs_inodes s n) \<and> fs_next s \<le> fs_next t"

lemma untouched_refl: "fs_wf s \<Longrightarrow> untouched p s s"
  by (simp add: untouched_def)

lemma untouched_ctl [simp]:
  "untouched p s (t\<lparr>fs_faults := fs\<rparr>) = untouched p s t" "untouched p s (t\<lparr>fs_off := b\<rparr>) = untouched p s t"
  "untouched p s (t\<lparr>fs_drawn := d\<rparr>) = untouched p s t" "untouched p s (t\<lparr>ho_log := l\<rparr>) = untouched p s t"
  "untouched p s (t\<lparr>ho_stderr := l'\<rparr>) = untouched p s t"
  by (simp_all add: untouched_def)

lemma untouched_change: "untouched p s t \<Longrightarrow> fs_next s \<le> f \<Longrightarrow> untouched p s (change f g t)"
  by (simp add: untouched_def)

lemma untouched_create: "untouched p s t \<Longrightarrow> q \<noteq> p \<Longrightarrow> untouched p s (create_at q k m t)"
  by (auto simp: untouched_def intro: fs_wf_create)

lemma untouched_unlink: "untouched p s t \<Longrightarrow> q \<noteq> p \<Longrightarrow> untouched p s (set_name q None t)"
  by (auto simp: untouched_def intro: fs_wf_set_name)

lemma keeps_untouched_syscall:
  assumes "\<And>t n. untouched p s t \<Longrightarrow> untouched p s (part n t)"
    and "\<And>t r u. untouched p s t \<Longrightarrow> eff t = (r, u) \<Longrightarrow> untouched p s u"
  shows "io_keeps (untouched p s) (syscall part eff)"
  by (rule keeps_syscall) (use assms in \<open>auto split del: if_split\<close>)

lemma untouched_Stat [keep_rules]: "io_keeps (untouched p s) (os_Stat q)"
  unfolding os_Stat_def by (rule keeps_untouched_syscall) (auto split: if_splits option.splits)

lemma untouched_Mkdir: "q \<noteq> p \<Longrightarrow> io_keeps (untouched p s) (os_Mkdir q m)"
  unfolding os_Mkdir_def by (rule keeps_untouched_syscall) (auto split: if_splits simp: untouched_create)

text \<open>Making a directory writes only the names on the way to it.\<close>

lemma untouched_mkdir_all: "\<forall>xs. p @ xs \<noteq> rev r \<Longrightarrow> io_keeps (untouched p s) (mkdir_all r m)"
proof (induction r)
  case (Cons c r)
  have "\<forall>xs. p @ xs \<noteq> rev r"
  proof (rule allI, rule notI)
    fix xs assume "p @ xs = rev r"
    then have "p @ (xs @ [c]) = rev (c # r)" by simp
    with Cons.prems show False by blast
  qed
  note r = Cons.IH [OF this]
  have "rev r @ [c] \<noteq> p" using Cons.prems [rule_format, of "[]"] by auto
  then show ?case
    by (auto intro!: keep_rules r untouched_Mkdir split: sum.splits)
qed (simp add: keep_rules)

lemma untouched_MkdirAll:
  "\<forall>xs. p @ xs \<noteq> resolve dir \<Longrightarrow> io_keeps (untouched p s) (os_MkdirAll dir m)"
  unfolding os_MkdirAll_def by (auto intro!: keep_rules untouched_mkdir_all)

lemma untouched_open_excl: "q \<noteq> p \<Longrightarrow> io_keeps (untouched p s) (open_excl q m)"
  unfolding open_excl_def by (rule keeps_untouched_syscall) (auto split: if_splits simp: untouched_create)

lemma untouched_draw [keep_rules]: "io_keeps (untouched p s) draw"
  by (rule io_keepsI) (auto simp: draw_def)

lemma untouched_Write [keep_rules]: "fs_next s \<le> f \<Longrightarrow> io_keeps (untouched p s) (file_Write f b)"
  unfolding file_Write_def by (rule keeps_untouched_syscall) (auto simp: untouched_change)

lemma untouched_FChmod [keep_rules]: "fs_next s \<le> f \<Longrightarrow> io_keeps (untouched p s) (file_Chmod f m)"
  unfolding file_Chmod_def by (rule keeps_untouched_syscall) (auto simp: untouched_change)

lemma untouched_FSync [keep_rules]: "fs_next s \<le> f \<Longrightarrow> io_keeps (untouched p s) (file_Sync f)"
  unfolding file_Sync_def by (rule keeps_untouched_syscall) (auto simp: untouched_change)

lemma untouched_Close [keep_rules]: "io_keeps (untouched p s) (file_Close f)"
  unfolding file_Close_def by (rule keeps_untouched_syscall) auto

lemma untouched_Remove: "resolve q \<noteq> p \<Longrightarrow> io_keeps (untouched p s) (os_Remove q)"
  unfolding os_Remove_def Let_def
  by (rule keeps_untouched_syscall) (auto split: if_splits option.splits simp: untouched_unlink)

lemma untouched_ReadFile [keep_rules]: "io_keeps (untouched p s) (os_ReadFile q)"
  unfolding os_ReadFile_def Let_def by (rule keeps_untouched_syscall) (auto split: if_splits option.splits)

text \<open>A directory is flushed without another name changing.\<close>

lemma untouched_dir_calls [keep_rules]:
  "io_keeps (untouched p s) (open_dir d)" "io_keeps (untouched p s) (dir_Close q)"
  unfolding open_dir_def dir_Close_def Let_def
  by (rule keeps_untouched_syscall; auto split: if_splits)+

section \<open>Paths\<close>

lemma clean_elems_plain:
  assumes "list_all (\<lambda>e. e \<noteq> [] \<and> e \<noteq> ''.'' \<and> e \<noteq> ''..'') es"
  shows "clean_elems b (es @ fs) st = clean_elems b fs (rev es @ st)"
  using assms by (induction es arbitrary: st) simp_all

lemma clean_elems_app:
  assumes "\<not> set st \<inter> {[], ''.'', ''..''} \<noteq> {}"
  shows "clean_elems True (es @ [e]) st =
    (let d = clean_elems True es st in
     if e = [] \<or> e = ''.'' then d else if e = ''..'' then butlast d else d @ [e])"
  using assms
proof (induction es arbitrary: st)
  case Nil
  then show ?case by (cases st) (auto simp: Let_def)
next
  case (Cons a es)
  show ?case
  proof (cases "a = ''..''")
    case True
    then show ?thesis using Cons by (cases st) (auto simp: Let_def)
  next
    case False
    then show ?thesis using Cons by (auto simp: Let_def)
  qed
qed

text \<open>A path made of a directory and a plain last element.\<close>

definition plain_elem :: "string \<Rightarrow> bool" where
  "plain_elem e \<longleftrightarrow> e \<noteq> [] \<and> e \<noteq> ''.'' \<and> e \<noteq> ''..'' \<and> CHR ''/'' \<notin> set e"

lemma Split_snoc: "c \<notin> set b \<Longrightarrow> Split (a @ c # b) c = Split a c @ [b]"
  by (induction a c rule: Split.induct) (auto simp: Split_no_sep_single split: list.splits)

lemma resolve_join: "plain_elem b \<Longrightarrow> resolve (d @ CHR ''/'' # b) = resolve d @ [b]"
  by (simp add: resolve_def plain_elem_def Split_snoc clean_elems_app Let_def)

lemma clean_elems_rooted_id:
  assumes "list_all (\<lambda>e. e \<noteq> [] \<and> e \<noteq> ''.'' \<and> e \<noteq> ''..'') st"
  shows "list_all (\<lambda>e. e \<noteq> [] \<and> e \<noteq> ''.'' \<and> e \<noteq> ''..'') (clean_elems True es st)"
  using assms
proof (induction es arbitrary: st)
  case (Cons e es)
  show ?case
  proof (cases "e = ''..''")
    case True
    with Cons show ?thesis by (cases st) auto
  next
    case False
    with Cons show ?thesis by auto
  qed
qed (simp add: list_all_iff)

lemma clean_elems_dots: "clean_elems True (replicate k ''..'' @ fs) [] = clean_elems True fs []"
  by (induction k) simp_all

text \<open>Cleaning a path first does not change what it leads to.\<close>

lemma clean_twice_rooted: "clean_elems True (clean_elems True es []) [] = clean_elems True es []"
  using clean_elems_plain [OF clean_elems_rooted_id [of "[]" es], of True "[]" "[]"] by simp

lemma clean_twice_relative:
  assumes "list_all (\<lambda>e. e \<noteq> [] \<and> e \<noteq> ''.'' \<and> e \<noteq> ''..'') ps"
  shows "clean_elems True (clean_elems False es (ps @ replicate k ''..'')) [] = clean_elems True es ps"
  using assms
proof (induction es arbitrary: ps k)
  case Nil
  then have "list_all (\<lambda>e. e \<noteq> [] \<and> e \<noteq> ''.'' \<and> e \<noteq> ''..'') (rev ps)" by simp
  from clean_elems_plain [OF this, of True "[]" "[]"] show ?case
    by (simp add: clean_elems_dots)
next
  case (Cons e es)
  consider "e = [] \<or> e = ''.''" | "e = ''..''" | "e \<noteq> [] \<and> e \<noteq> ''.'' \<and> e \<noteq> ''..''" by blast
  then show ?case
  proof cases
    case 2
    show ?thesis
    proof (cases ps)
      case Nil
      from Cons.IH [of "[]" "Suc k"] Cons.IH [of "[]" k] 2 Nil show ?thesis by (cases k) simp_all
    next
      case (Cons q qs)
      with Cons.IH [of qs k] Cons.prems 2 show ?thesis by simp
    qed
  next
    case 3
    with Cons.IH [of "e # ps" k] Cons.prems show ?thesis by auto
  qed (use Cons in auto)
qed

lemma clean_elems_from: "x \<in> set (clean_elems b es st) \<Longrightarrow> x \<in> set st \<or> x \<in> set es \<and> x \<noteq> []"
  by (induction b es st rule: clean_elems.induct) (auto split: if_splits list.splits)

lemma Split_Join_elems:
  assumes "\<forall>e \<in> set es. CHR ''/'' \<notin> set e" "es \<noteq> []"
  shows "Split (Join es ''/'') CHR ''/'' = es"
  using assms by (intro Split_Join) (auto simp: list_all_iff)

lemma resolve_Clean [simp]: "resolve (Clean path) = resolve path"
proof -
  let ?es = "Split path CHR ''/''" and ?b = "HasPrefix path ''/''"
  let ?out = "clean_elems ?b ?es []"
  have nosep: "\<forall>e \<in> set ?out. CHR ''/'' \<notin> set e"
    using clean_elems_from [of _ ?b ?es "[]"] Split_no_sep by fastforce
  have id: "clean_elems True ?out [] = clean_elems True ?es []"
    using clean_twice_rooted clean_twice_relative [of "[]" ?es 0] by (cases ?b) simp_all
  show ?thesis
  proof (cases "?out = []")
    case True
    with id show ?thesis by (auto simp: resolve_def Clean_def Let_def)
  next
    case False
    note sj = Split_Join_elems [OF nosep False]
    have "Join ?out ''/'' \<noteq> []"
    proof
      assume "Join ?out ''/'' = []"
      with sj have "?out = [[]]" by simp
      then show False using clean_elems_from [of "[]" ?b ?es "[]"] by simp
    qed
    then show ?thesis using sj id by (auto simp: resolve_def Clean_def Let_def)
  qed
qed

lemma resolve_slash: "resolve (d @ ''/'') = resolve d"
  by (simp add: resolve_def Split_snoc clean_elems_app Let_def)

lemma resolve_Dir: "plain_elem b \<Longrightarrow> resolve (Dir (d @ CHR ''/'' # b)) = resolve d"
  by (simp add: Dir_def LastIndex_append plain_elem_def nat_add_distrib resolve_slash)

lemma resolve_join_path: "plain_elem b \<Longrightarrow> resolve (join_path d b) = resolve d @ [b]"
proof (cases "HasSuffix d ''/''")
  case True
  then obtain e where d: "d = e @ ''/''" by (auto simp: HasSuffix_def HasPrefix_iff rev_eq_append_conv)
  assume "plain_elem b"
  then show ?thesis using True resolve_join [of b e] by (simp add: join_path_def d resolve_slash)
qed (simp add: join_path_def resolve_join)

section \<open>Temporary files\<close>

lemma open_excl_success:
  assumes "open_excl q m s = (Inr f, t)" and wf: "fs_wf s"
  shows "f = fs_next s \<and> fs_next t = Suc f \<and> name_of s q = None \<and> name_of t q = Some f \<and>
    fs_inodes t f = Some (new_inode File (masked s m))"
  using assms(1) unfolding open_excl_def
proof (rule syscall_success)
  fix fs assume "(if q = [] \<or> inode_at (s\<lparr>fs_faults := fs\<rparr>) q \<noteq> None then (Inl ErrExist, s\<lparr>fs_faults := fs\<rparr>)
     else if \<not> is_dir (s\<lparr>fs_faults := fs\<rparr>) (butlast q) then (Inl (path_error (s\<lparr>fs_faults := fs\<rparr>) q), s\<lparr>fs_faults := fs\<rparr>)
     else (Inr (fs_next (s\<lparr>fs_faults := fs\<rparr>)), create_at q File m (s\<lparr>fs_faults := fs\<rparr>))) = (Inr f, t)"
  moreover have "inode_at (s\<lparr>fs_faults := fs\<rparr>) q = None \<Longrightarrow> name_of s q = None"
    using fs_wf_named [OF wf] by (cases "name_of s q") (auto simp: inode_at_def)
  ultimately show ?thesis by (auto simp: masked_def split: if_splits)
qed

text \<open>The name is new, in the directory asked for, and starts with the prefix asked for.\<close>

lemma create_temp_spec:
  assumes "create_temp n prefix suffix s = (Inr (name, f), t)" "fs_wf s"
    and other: "\<And>k. resolve (prefix @ nat_string 10 k @ suffix) \<noteq> p"
  shows "untouched p s t \<and> fs_next s \<le> f \<and> (\<exists>r. name = prefix @ nat_string 10 r @ suffix) \<and> f < fs_next t \<and>
    name_of t (resolve name) = Some f \<and> (\<exists>m. fs_inodes t f = Some (new_inode File m))"
  using assms(1,2)
proof (induction n arbitrary: s)
  case (Suc n)
  let ?r = "fs_random s (fs_drawn s) mod 2 ^ 32"
  let ?name = "prefix @ random_text s @ suffix" and ?s = "s\<lparr>fs_drawn := Suc (fs_drawn s)\<rparr>"
  obtain r1 u where 1: "open_excl (resolve ?name) 384 ?s = (r1, u)" by (cases "open_excl (resolve ?name) 384 ?s")
  have keep: "untouched p s u"
    using io_keepsD [OF untouched_open_excl [OF other [of ?r]] _ 1 [unfolded random_text_def], of s] Suc.prems(2)
    by (simp add: untouched_refl)
  show ?case
  proof (cases r1)
    case (Inl e)
    with Suc.prems 1 have "create_temp n prefix suffix u = (Inr (name, f), t)"
      by (simp add: run_bind run_try draw_def Let_def split: if_splits)
    note ih = Suc.IH [OF this]
    from ih keep show ?thesis by (auto simp: untouched_def)
  next
    case (Inr g)
    with Suc.prems 1 have "name = ?name" "f = g" "t = u"
      by (auto simp: run_bind run_try draw_def Let_def)
    then show ?thesis
      using open_excl_success [OF 1 [unfolded Inr]] Suc.prems(2) keep by (auto simp: random_text_def)
  qed
qed simp

lemma keeps_draw_bind:
  assumes "\<And>k. io_keeps (untouched p s) (f (nat_string 10 k))"
  shows "io_keeps (untouched p s) (io_bind draw f)"
  by (rule keeps_bind_value [OF untouched_draw]) (use assms in \<open>auto simp: draw_def random_text_def\<close>)

lemma create_temp_fails:
  assumes "\<And>k. resolve (prefix @ nat_string 10 k @ suffix) \<noteq> p"
  shows "io_keeps (untouched p s) (create_temp n prefix suffix)"
  using assms
  by (induction n) (auto simp: Let_def intro!: keep_rules keeps_draw_bind untouched_open_excl split: sum.splits)

lemma CreateTemp_split:
  "CHR ''*'' \<notin> set suf \<Longrightarrow>
     os_CreateTemp dir (pre @ CHR ''*'' # suf) = create_temp 10000 (join_path dir pre) suf"
  by (simp add: os_CreateTemp_def LastIndex_append Let_def nat_add_distrib)

lemma join_path_append: "join_path dir pre @ r = join_path dir (pre @ r)"
  by (simp add: join_path_def)

lemma CreateTemp_untouched:
  assumes "CHR ''*'' \<notin> set suf" "\<And>k. plain_elem (pre @ nat_string 10 k @ suf)"
    and "\<And>k. p \<noteq> resolve dir @ [pre @ nat_string 10 k @ suf]"
  shows "io_keeps (untouched p s) (os_CreateTemp dir (pre @ CHR ''*'' # suf))"
  unfolding CreateTemp_split [OF assms(1)]
  by (rule create_temp_fails) (use assms(2,3) resolve_join_path join_path_append in metis)

lemma CreateTemp_success:
  assumes "os_CreateTemp dir (pre @ CHR ''*'' # suf) s = (Inr (name, f), t)" "fs_wf s"
    and "CHR ''*'' \<notin> set suf" "\<And>k. plain_elem (pre @ nat_string 10 k @ suf)"
    and "\<And>k. p \<noteq> resolve dir @ [pre @ nat_string 10 k @ suf]"
  shows "untouched p s t \<and> fs_next s \<le> f \<and> f < fs_next t \<and> name_of t (resolve name) = Some f \<and>
    (\<exists>m. fs_inodes t f = Some (new_inode File m)) \<and>
    (\<exists>k. resolve name = resolve dir @ [pre @ nat_string 10 k @ suf]) \<and> resolve name \<noteq> p"
proof -
  have path: "resolve (join_path dir pre @ nat_string 10 k @ suf) = resolve dir @ [pre @ nat_string 10 k @ suf]" for k
    using resolve_join_path [OF assms(4)] join_path_append by metis
  then have other: "\<And>k. resolve (join_path dir pre @ nat_string 10 k @ suf) \<noteq> p" using assms(5) by metis
  from create_temp_spec [OF assms(1) [unfolded CreateTemp_split [OF assms(3)]] assms(2) other]
  show ?thesis using path other by metis
qed

end
