(* ===== verification/Fileio.thy ===== *)
theory Fileio
  imports Filesys
begin

text \<open>
  \<open>fileio.go\<close>: flushing a directory, and the two functions that replace a file in one step by
  writing a temporary file beside it, flushing it and renaming it.
\<close>

section \<open>Operations\<close>

definition syncDir :: "string \<Rightarrow> ('x fs_scheme, unit) io" where
  "syncDir dir =
     io_bind (io_wrap (Wrapf ''open dir %q for fsync: %w'' [dir]) (open_dir dir)) (\<lambda>d.
     io_bind (io_try (dir_Sync d)) (\<lambda>r.
     case r of
       Inl e \<Rightarrow> io_then (io_try (dir_Close d)) (io_fail (Wrapf ''fsync dir %q: %w'' [dir] e))
     | Inr _ \<Rightarrow> io_wrap (Wrapf ''close dir %q after fsync: %w'' [dir]) (dir_Close d)))"

text \<open>The steps on an open file that close it before they report their error.\<close>

definition or_close :: "nat \<Rightarrow> (err \<Rightarrow> err) \<Rightarrow> ('x fs_scheme, unit) io \<Rightarrow> ('x fs_scheme, unit) io" where
  "or_close f g m = io_bind (io_try m) (\<lambda>r.
     case r of Inl e \<Rightarrow> io_then (io_try (file_Close f)) (io_fail (g e)) | Inr _ \<Rightarrow> io_ok ())"

text \<open>
  \<open>io.Copy\<close> from a reader that gives the chunks \<open>cs\<close> and then the end of the stream or an error.
\<close>

primrec io_Copy :: "nat \<Rightarrow> string list \<Rightarrow> err option \<Rightarrow> nat \<Rightarrow> ('x fs_scheme, nat) io" where
  "io_Copy f [] fin written = (case fin of None \<Rightarrow> io_ok written | Some e \<Rightarrow> io_fail e)"
| "io_Copy f (c # cs) fin written = io_then (file_Write f c) (io_Copy f cs fin (written + length c))"

text \<open>What follows the creation of the temporary file.  The number of bytes that goes with an error is used by no caller and left out.\<close>

definition upload_steps :: "string \<Rightarrow> string \<Rightarrow> string \<Rightarrow> string list \<times> err option \<Rightarrow> nat \<Rightarrow> ('x fs_scheme, nat) io" where
  "upload_steps dir tmpName dest r tmp =
     io_bind (io_try (io_bind (io_Copy tmp (fst r) (snd r) 0) (\<lambda>written. io_then (file_Sync tmp) (io_ok written)))) (\<lambda>copied.
     io_bind (io_try (file_Close tmp)) (\<lambda>closed.
     io_bind (io_lift (res_wrap (Wrapf ''write upload: %w'' []) copied)) (\<lambda>written.
     io_then (io_lift (res_wrap (Wrapf ''close upload: %w'' []) closed))
     (io_then (io_wrap (Wrapf ''finalize upload: %w'' []) (os_Rename tmpName dest))
     (io_then (io_wrap (Wrapf ''finalize upload: %w'' []) (syncDir dir))
       (io_ok written))))))"

definition streamToFileAtomic :: "string \<Rightarrow> string list \<times> err option \<Rightarrow> ('x fs_scheme, nat) io" where
  "streamToFileAtomic dest r =
     (let dir = Dir dest in
      io_then (io_wrap (Wrapf ''create upload dir: %w'' []) (os_MkdirAll dir 493))
      (io_bind (io_wrap (Wrapf ''create temp file: %w'' []) (os_CreateTemp dir ''.upload-*'')) (\<lambda>(tmpName, tmp).
       io_finally (upload_steps dir tmpName dest r tmp) (os_Remove tmpName))))"

definition config_steps :: "string \<Rightarrow> string \<Rightarrow> string \<Rightarrow> string \<Rightarrow> nat \<Rightarrow> ('x fs_scheme, unit) io" where
  "config_steps dir tmpName path body tmp =
     io_then (or_close tmp (Wrapf ''write config: %w'' []) (file_Write tmp body))
     (io_then (or_close tmp (Wrapf ''set config mode: %w'' []) (file_Chmod tmp 420))
     (io_then (or_close tmp (Wrapf ''sync config: %w'' []) (file_Sync tmp))
     (io_then (io_wrap (Wrapf ''close config: %w'' []) (file_Close tmp))
     (io_then (io_wrap (Wrapf ''finalize config: %w'' []) (os_Rename tmpName path))
       (syncDir dir)))))"

definition writeConfigFile :: "string \<Rightarrow> string \<Rightarrow> ('x fs_scheme, unit) io" where
  "writeConfigFile path body =
     (let dir = Dir path in
      io_then (io_wrap (Wrapf ''create config dir %q: %w'' [dir]) (os_MkdirAll dir 493))
      (io_bind (os_CreateTemp dir ''.config-*'') (\<lambda>(tmpName, tmp).
       io_finally (config_steps dir tmpName path body tmp) (os_Remove tmpName))))"

section \<open>Replacing a file in one step\<close>

text \<open>What a reader finds under a name, and what may be found under it after a power loss, when the
  directories above it are on the disk.\<close>

definition reads :: "'x fs_scheme \<Rightarrow> loc \<Rightarrow> string option" where
  "reads s p = map_option ino_data (inode_at s p)"

definition may_read :: "'x fs_scheme \<Rightarrow> loc \<Rightarrow> string \<Rightarrow> bool" where
  "may_read s p x \<longleftrightarrow> (\<exists>n i. Some n \<in> set (fs_disk s p) \<and> fs_inodes s n = Some i \<and>
     (ino_synced i \<longrightarrow> ino_data i = x))"

text \<open>
  The two states of a replacement: the name still leads to what it did, or it leads to a new file
  that is on the disk completely.
\<close>

definition complete :: "nat \<Rightarrow> string \<Rightarrow> 'x fs_scheme \<Rightarrow> bool" where
  "complete f d t \<longleftrightarrow> (\<exists>i. fs_inodes t f = Some i \<and> ino_kind i = File \<and> ino_data i = d \<and> ino_synced i)"

definition committed :: "loc \<Rightarrow> nat \<Rightarrow> string \<Rightarrow> 'x fs_scheme \<Rightarrow> 'x fs_scheme \<Rightarrow> bool" where
  "committed p f d s t \<longleftrightarrow> fs_wf t \<and> name_of t p = Some f \<and> complete f d t \<and>
     set (fs_disk t p) \<subseteq> insert (Some f) (set (fs_disk s p)) \<and>
     (\<forall>n < fs_next s. fs_inodes t n = fs_inodes s n) \<and> fs_next s \<le> fs_next t"

definition replaced :: "loc \<Rightarrow> string \<Rightarrow> 'x fs_scheme \<Rightarrow> 'x fs_scheme \<Rightarrow> bool" where
  "replaced p d s t \<longleftrightarrow> (\<exists>f. committed p f d s t)"

definition lasting :: "loc \<Rightarrow> 'x fs_scheme \<Rightarrow> bool" where
  "lasting p t \<longleftrightarrow> set (fs_disk t p) = {name_of t p}"

lemma committed_ctl [simp]:
  "committed p f d s (t\<lparr>fs_faults := fs\<rparr>) = committed p f d s t" "committed p f d s (t\<lparr>fs_off := b\<rparr>) = committed p f d s t"
  by (simp_all add: committed_def complete_def)

lemma lasting_ctl [simp]:
  "lasting p (t\<lparr>fs_faults := fs\<rparr>) = lasting p t" "lasting p (t\<lparr>fs_off := b\<rparr>) = lasting p t"
  by (simp_all add: lasting_def)

lemma committed_unlink: "committed p f d s t \<Longrightarrow> q \<noteq> p \<Longrightarrow> committed p f d s (set_name q None t)"
  by (auto simp: committed_def complete_def intro: fs_wf_set_name)

lemma lasting_unlink: "lasting p t \<Longrightarrow> q \<noteq> p \<Longrightarrow> lasting p (set_name q None t)"
  by (simp add: lasting_def)

lemma committed_flush:
  assumes "committed p f d s t"
  shows "committed p f d s (t\<lparr>fs_disk := \<lambda>q. if P q then [name_of t q] else fs_disk t q\<rparr>)"
  using assms fs_wf_flush [of t P] by (auto simp: committed_def complete_def)

text \<open>What the calls after the rename keep.\<close>

lemma keeps_committed_syscall:
  assumes "\<And>t r u. committed p f d s t \<and> (b \<longrightarrow> lasting p t) \<Longrightarrow> eff t = (r, u) \<Longrightarrow>
    committed p f d s u \<and> (b \<longrightarrow> lasting p u)"
  shows "io_keeps (\<lambda>t. committed p f d s t \<and> (b \<longrightarrow> lasting p t)) (syscall nothing eff)"
  by (rule keeps_syscall) (rule assms, assumption, assumption | simp)+

lemma committed_Remove:
  "resolve q \<noteq> p \<Longrightarrow> io_keeps (\<lambda>t. committed p f d s t \<and> (b \<longrightarrow> lasting p t)) (os_Remove q)"
  unfolding os_Remove_def Let_def
  by (rule keeps_committed_syscall) (auto simp: committed_unlink lasting_unlink split: if_splits option.splits)

lemma committed_dir_Sync:
  "io_keeps (\<lambda>t. committed p f d s t \<and> (False \<longrightarrow> lasting p t)) (dir_Sync q)"
  unfolding dir_Sync_def by (rule keeps_committed_syscall) (auto intro: committed_flush)

lemma committed_dir_calls:
  "io_keeps (\<lambda>t. committed p f d s t \<and> (b \<longrightarrow> lasting p t)) (open_dir q)"
  "io_keeps (\<lambda>t. committed p f d s t \<and> (b \<longrightarrow> lasting p t)) (dir_Close e)"
  unfolding open_dir_def dir_Close_def Let_def
  by (rule keeps_committed_syscall; auto split: if_splits)+

lemma committed_syncDir: "io_keeps (committed p f d s) (syncDir q)"
  using committed_dir_Sync [of p f d s] committed_dir_calls [of p f d s False]
  unfolding syncDir_def by (auto intro!: keep_rules split: sum.splits)

lemma dir_Sync_lasting:
  assumes "dir_Sync e t = (Inr u, v)" "p \<noteq> []" "butlast p = e"
  shows "lasting p v"
  using assms(1) unfolding dir_Sync_def
proof (rule syscall_success)
  fix fs
  assume "(Inr (), (t\<lparr>fs_faults := fs\<rparr>)\<lparr>fs_disk := \<lambda>p. if p \<noteq> [] \<and> butlast p = e
      then [name_of (t\<lparr>fs_faults := fs\<rparr>) p] else fs_disk (t\<lparr>fs_faults := fs\<rparr>) p\<rparr>) = (Inr u, v)"
  then show ?thesis using assms(2,3) by (auto simp: lasting_def)
qed

lemma dir_Close_run: "dir_Close e t = (r, u) \<Longrightarrow> lasting p u = lasting p t"
  by (auto simp: dir_Close_def syscall_def split: if_splits list.splits fault.splits)

lemma open_dir_success: "open_dir q t = (Inr e, u) \<Longrightarrow> e = resolve q"
  unfolding open_dir_def by (rule syscall_success) (auto simp: Let_def split: if_splits)

text \<open>After a flush of its directory that succeeded the name is the same on the disk.\<close>

lemma syncDir_lasting:
  assumes "syncDir q t = (Inr u, v)" "p \<noteq> []" "butlast p = resolve q"
  shows "lasting p v"
proof -
  from assms(1) obtain e t1 r t2 where 1: "open_dir q t = (Inr e, t1)" "dir_Sync e t1 = (r, t2)"
    and 2: "(case r of Inl e' \<Rightarrow> io_then (io_try (dir_Close e)) (io_fail (Wrapf ''fsync dir %q: %w'' [q] e'))
     | Inr _ \<Rightarrow> io_wrap (Wrapf ''close dir %q after fsync: %w'' [q]) (dir_Close e)) t2 = (Inr u, v)"
    by (auto simp: syncDir_def success_simps)
  have e: "butlast p = e" using open_dir_success [OF 1(1)] assms(3) by simp
  from 2 obtain w where r: "r = Inr w" "dir_Close e t2 = (Inr u, v)"
    by (cases r) (auto simp: success_simps)
  from dir_Sync_lasting [OF 1(2) [unfolded r(1)] assms(2) e] dir_Close_run [OF r(2)] show ?thesis by simp
qed

section \<open>The steps before the rename\<close>

text \<open>\<open>staged\<close>: the open file has a name of its own and nothing else has changed.\<close>

definition staged :: "loc \<Rightarrow> 'x fs_scheme \<Rightarrow> loc \<Rightarrow> nat \<Rightarrow> inode \<Rightarrow> 'x fs_scheme \<Rightarrow> bool" where
  "staged p s q f i t \<longleftrightarrow> untouched p s t \<and> fs_next s \<le> f \<and> name_of t q = Some f \<and> fs_inodes t f = Some i"

lemma staged_ctl [simp]: "staged p s q f i (t\<lparr>fs_faults := fs\<rparr>) = staged p s q f i t"
  by (simp add: staged_def)

lemma syscall_cases:
  assumes "syscall part eff s = (r, t)"
  obtains (off) e where "r = Inl e" "t = s"
  | (failed) fs n e b where "r = Inl e" "t = (part n (s\<lparr>fs_faults := fs\<rparr>))\<lparr>fs_off := b\<rparr>"
  | (ran) fs where "eff (s\<lparr>fs_faults := fs\<rparr>) = (r, t)"
proof (cases "fs_off s")
  case True
  with assms show ?thesis by (intro off [of power_lost]) (simp_all add: syscall_def)
next
  case on: False
  show ?thesis
  proof (cases "fs_faults s")
    case Nil
    then have "s\<lparr>fs_faults := []\<rparr> = s" by (cases s) simp
    with assms Nil on ran [of "[]"] show ?thesis by (simp add: syscall_def)
  next
    case (Cons f fs)
    show ?thesis
    proof (cases f)
      case Fine
      with assms Cons on ran [of fs] show ?thesis by (simp add: syscall_def)
    next
      case (Fails n e)
      have "(part n (s\<lparr>fs_faults := fs\<rparr>))\<lparr>fs_off := fs_off (part n (s\<lparr>fs_faults := fs\<rparr>))\<rparr> = part n (s\<lparr>fs_faults := fs\<rparr>)"
        by simp
      with assms Cons on Fails failed [of "injected e" "fs_off (part n (s\<lparr>fs_faults := fs\<rparr>))" n fs]
      show ?thesis by (simp add: syscall_def)
    next
      case (PowerOff n)
      with assms Cons on failed [of power_lost True n fs] show ?thesis by (simp add: syscall_def)
    qed
  qed
qed

lemma staged_change:
  assumes "\<And>n t. untouched p s t \<Longrightarrow> untouched p s (part n t)"
  shows "io_spec (staged p s q f i) (syscall part (\<lambda>t. (Inr (), change f g t)))
    (\<lambda>_. staged p s q f (g i)) (untouched p s)"
proof (rule io_specI)
  fix t e u assume t: "staged p s q f i t" and run: "syscall part (\<lambda>t. (Inr (), change f g t)) t = (Inl e, u)"
  from t have "untouched p s t" by (simp add: staged_def)
  with run show "untouched p s u"
    by (cases rule: syscall_cases) (auto simp: assms)
next
  fix t x u assume t: "staged p s q f i t" and run: "syscall part (\<lambda>t. (Inr (), change f g t)) t = (Inr x, u)"
  from run obtain fs where "u = change f g (t\<lparr>fs_faults := fs\<rparr>)" by (cases rule: syscall_cases) auto
  with t show "staged p s q f (g i) u" by (auto simp: staged_def untouched_def)
qed

lemma staged_Write:
  "io_spec (staged p s q f i) (file_Write f b)
     (\<lambda>_. staged p s q f (i\<lparr>ino_data := ino_data i @ b, ino_synced := False\<rparr>)) (untouched p s)"
proof (cases "fs_next s \<le> f")
  case True
  then show ?thesis
    unfolding file_Write_def by (intro staged_change) (simp add: untouched_change)
qed (simp add: io_spec_def staged_def)

lemma staged_Chmod:
  "io_spec (staged p s q f i) (file_Chmod f m)
     (\<lambda>_. staged p s q f (i\<lparr>ino_mode := syscallMode m, ino_synced := False\<rparr>)) (untouched p s)"
  unfolding file_Chmod_def by (intro staged_change)

lemma staged_Sync:
  "io_spec (staged p s q f i) (file_Sync f) (\<lambda>_. staged p s q f (i\<lparr>ino_synced := True\<rparr>)) (untouched p s)"
  unfolding file_Sync_def by (intro staged_change)

lemma staged_Close: "io_spec (staged p s q f i) (file_Close f) (\<lambda>_. staged p s q f i) (untouched p s)"
  by (rule io_specI; unfold file_Close_def; erule syscall_cases) (auto simp: staged_def)

lemma Close_untouched: "io_spec (untouched p s) (file_Close f) (\<lambda>_. untouched p s) (untouched p s)"
  using untouched_Close [of p s f] by (auto intro: io_specI dest: io_keepsD)

lemma or_close_spec:
  assumes "io_spec P m (\<lambda>_. Q) (untouched p s)"
  shows "io_spec P (or_close f g m) (\<lambda>_. Q) (untouched p s)"
proof (rule io_specI)
  fix t e u assume "P t" "or_close f g m t = (Inl e, u)"
  then show "untouched p s u"
    using io_spec_errD [OF assms] io_keepsD [OF untouched_Close]
    by (auto simp: or_close_def run_bind run_then run_try split: prod.splits sum.splits) blast+
next
  fix t x u assume "P t" "or_close f g m t = (Inr x, u)"
  then show "Q u"
    using io_spec_okD [OF assms]
    by (auto simp: or_close_def run_bind run_then run_try split: prod.splits sum.splits)
qed

text \<open>The rename of a complete file either fails and changes nothing or puts it in place.\<close>

text \<open>\<open>C\<close> is what must have happened before the name may lead to the new file.\<close>

definition settled :: "bool \<Rightarrow> loc \<Rightarrow> string \<Rightarrow> 'x fs_scheme \<Rightarrow> 'x fs_scheme \<Rightarrow> bool" where
  "settled C p d s t \<longleftrightarrow> untouched p s t \<or> C \<and> replaced p d s t"

lemma rename_spec:
  assumes "resolve tmp = q" "resolve path = p" "q \<noteq> p" "ino_kind i = File" "ino_synced i"
  shows "io_spec (staged p s q f i) (os_Rename tmp path) (\<lambda>_. committed p f (ino_data i) s) (untouched p s)"
proof (rule io_specI)
  fix t e u assume "staged p s q f i t" "os_Rename tmp path t = (Inl e, u)"
  then show "untouched p s u"
    unfolding os_Rename_def Let_def
    by (elim syscall_cases) (auto simp: staged_def split: option.splits if_splits)
next
  fix t x u assume t: "staged p s q f i t" and run: "os_Rename tmp path t = (Inr x, u)"
  from run obtain fs where "u = set_name q None (set_name p (Some f) (t\<lparr>fs_faults := fs\<rparr>))"
    using t assms(1-3) unfolding os_Rename_def Let_def
    by (cases rule: syscall_cases) (auto simp: staged_def split: option.splits if_splits)
  with t assms(3-5) show "committed p f (ino_data i) s u"
    by (auto simp: staged_def untouched_def committed_def complete_def intro!: fs_wf_set_name)
qed

lemma syncDir_spec:
  assumes "p \<noteq> []" "butlast p = resolve dir" "C"
  shows "io_spec (committed p f d s) (syncDir dir) (\<lambda>_ t. committed p f d s t \<and> lasting p t) (settled C p d s)"
proof (rule io_specI)
  fix t e u assume "committed p f d s t" "syncDir dir t = (Inl e, u)"
  then have "committed p f d s u" by (rule io_keepsD [OF committed_syncDir])
  then show "settled C p d s u" using assms(3) by (auto simp: settled_def replaced_def)
next
  fix t x u assume "committed p f d s t" "syncDir dir t = (Inr x, u)"
  then show "committed p f d s u \<and> lasting p u"
    using io_keepsD [OF committed_syncDir] syncDir_lasting [OF _ assms(1,2)] by blast
qed

lemma Remove_settles:
  assumes "resolve tmp \<noteq> p"
  shows "settled C p d s t \<Longrightarrow> settled C p d s (snd (os_Remove tmp t))"
    and "replaced p d s t \<and> lasting p t \<Longrightarrow> replaced p d s (snd (os_Remove tmp t)) \<and> lasting p (snd (os_Remove tmp t))"
proof -
  obtain r u where u: "os_Remove tmp t = (r, u)" by (cases "os_Remove tmp t")
  show "settled C p d s t \<Longrightarrow> settled C p d s (snd (os_Remove tmp t))"
    using io_keepsD [OF untouched_Remove [OF assms] _ u]
      io_keepsD [OF committed_Remove [OF assms, of _ d s False] _ u] u
    by (auto simp: settled_def replaced_def)
  show "replaced p d s t \<and> lasting p t \<Longrightarrow> replaced p d s (snd (os_Remove tmp t)) \<and> lasting p (snd (os_Remove tmp t))"
    using io_keepsD [OF committed_Remove [OF assms, of _ d s True] _ u] u by (auto simp: replaced_def)
qed

section \<open>Crash safety\<close>

lemma untouched_settled: "io_spec P m Q (untouched p s) \<Longrightarrow> io_spec P m Q (settled C p d s)"
  by (erule io_spec_weaken) (auto simp: settled_def)

lemma settled_error: "untouched p s t \<Longrightarrow> settled C p d s t"
  by (simp add: settled_def)

lemma commit_spec:
  assumes "resolve tmp = q" "resolve path = p" "q \<noteq> p" "ino_kind i = File" "ino_synced i"
    and "p \<noteq> []" "butlast p = resolve dir" "C" "d = ino_data i"
  shows "io_spec (staged p s q f i) (io_then (io_wrap g (os_Rename tmp path)) (syncDir dir))
    (\<lambda>_ t. replaced p d s t \<and> lasting p t) (settled C p d s)"
proof (rule spec_then)
  show "io_spec (staged p s q f i) (io_wrap g (os_Rename tmp path)) (\<lambda>_. committed p f d s) (settled C p d s)"
    unfolding assms(9) by (intro spec_wrap untouched_settled rename_spec assms)
  show "io_spec (committed p f d s) (syncDir dir) (\<lambda>_ t. replaced p d s t \<and> lasting p t) (settled C p d s)"
    by (rule io_spec_weaken [OF syncDir_spec [OF assms(6-8)]]) (auto simp: replaced_def)
qed

lemma plain_config: "plain_elem (''.config-'' @ nat_string 10 k @ [])"
  and plain_upload: "plain_elem (''.upload-'' @ nat_string 10 k @ [])"
  using decimal_digits [of "CHR ''/''" k] by (auto simp: plain_elem_def is_digit_def)

lemma config_body:
  assumes "resolve tmpName = q" "resolve path = p" "q \<noteq> p" "p \<noteq> []" "butlast p = resolve dir"
  shows "io_spec (staged p s q f (new_inode File m)) (config_steps dir tmpName path body f)
    (\<lambda>_ t. replaced p body s t \<and> lasting p t) (settled True p body s)"
  unfolding config_steps_def
  by (rule spec_then, rule untouched_settled, rule or_close_spec, rule staged_Write,
      rule spec_then, rule untouched_settled, rule or_close_spec, rule staged_Chmod,
      rule spec_then, rule untouched_settled, rule or_close_spec, rule staged_Sync,
      rule spec_then, rule untouched_settled, rule spec_wrap, rule staged_Close,
      rule commit_spec [OF assms(1-3) _ _ assms(4,5)]) (simp_all add: new_inode_def)

text \<open>Copying a stream appends its chunks; it only succeeds at the end of the stream.\<close>

lemma copy_spec:
  "io_spec (staged p s q f i) (io_Copy f cs fin n)
     (\<lambda>_ t. fin = None \<and> (\<exists>b. staged p s q f (i\<lparr>ino_data := ino_data i @ concat cs, ino_synced := b\<rparr>) t))
     (untouched p s)"
proof (induction cs arbitrary: i n)
  case Nil
  have i: "i\<lparr>ino_data := ino_data i @ concat [], ino_synced := ino_synced i\<rparr> = i" by simp
  show ?case
  proof (cases fin)
    case None
    have "staged p s q f i t \<Longrightarrow> \<exists>b. staged p s q f (i\<lparr>ino_data := ino_data i @ concat [], ino_synced := b\<rparr>) t" for t
      using i by metis
    with None show ?thesis by (simp add: io_spec_def)
  next
    case (Some e)
    then show ?thesis by (simp add: io_spec_def staged_def)
  qed
next
  case (Cons c cs)
  show ?case
    unfolding io_Copy.simps
    by (rule spec_then [OF staged_Write], rule io_spec_weaken [OF Cons.IH]) auto
qed

lemma copy_count: "io_Copy f cs fin n t = (Inr w, u) \<Longrightarrow> w = n + length (concat cs)"
  by (induction cs arbitrary: n t) (fastforce simp: then_success split: option.splits)+

lemma try_cases:
  assumes "io_spec P m Q E" "P t" "m t = (r, u)"
  obtains (Err) e where "r = Inl e" "E u" | (Val) x where "r = Inr x" "Q x u"
  using assms by (cases r) (auto dest: io_spec_okD io_spec_errD)

lemma copied_spec:
  "io_spec (staged p s q f (new_inode File m)) (io_bind (io_Copy f (fst r) (snd r) 0) (\<lambda>written. io_then (file_Sync f) (io_ok written)))
     (\<lambda>_ t. snd r = None \<and> staged p s q f ((new_inode File m)\<lparr>ino_data := concat (fst r), ino_synced := True\<rparr>) t)
     (untouched p s)"
proof (rule spec_bind [OF copy_spec])
  fix w
  show "io_spec (\<lambda>t. snd r = None \<and> (\<exists>b. staged p s q f ((new_inode File m)\<lparr>ino_data := ino_data (new_inode File m) @ concat (fst r), ino_synced := b\<rparr>) t))
      (io_then (file_Sync f) (io_ok w))
      (\<lambda>_ t. snd r = None \<and> staged p s q f ((new_inode File m)\<lparr>ino_data := concat (fst r), ino_synced := True\<rparr>) t)
      (untouched p s)"
  proof (rule io_specI)
    fix t e u assume t: "snd r = None \<and> (\<exists>b. staged p s q f ((new_inode File m)\<lparr>ino_data := ino_data (new_inode File m) @ concat (fst r), ino_synced := b\<rparr>) t)"
      and run: "io_then (file_Sync f) (io_ok w) t = (Inl e, u)"
    then show "untouched p s u"
      by (auto simp: run_then split: prod.splits sum.splits dest: io_spec_errD [OF staged_Sync])
  next
    fix t x u assume t: "snd r = None \<and> (\<exists>b. staged p s q f ((new_inode File m)\<lparr>ino_data := ino_data (new_inode File m) @ concat (fst r), ino_synced := b\<rparr>) t)"
      and run: "io_then (file_Sync f) (io_ok w) t = (Inr x, u)"
    then show "snd r = None \<and> staged p s q f ((new_inode File m)\<lparr>ino_data := concat (fst r), ino_synced := True\<rparr>) u"
      by (auto simp: then_success new_inode_def dest: io_spec_okD [OF staged_Sync])
  qed
qed

lemma spec_try:
  assumes "io_spec P m Q E"
  shows "io_spec P (io_try m) (\<lambda>r t. case r of Inl _ \<Rightarrow> E t | Inr x \<Rightarrow> Q x t) E'"
  using assms by (auto simp: io_spec_def run_try split: prod.splits sum.splits)

lemma spec_const: "io_spec P m Q E \<Longrightarrow> io_spec (\<lambda>t. C \<and> P t) m (\<lambda>x t. C \<and> Q x t) E"
  by (rule io_specI) (auto dest: io_spec_okD io_spec_errD)

lemma bind_lift: "io_bind (io_lift (Inr x)) f = f x"
  and then_lift: "io_then (io_lift (Inr y)) n = n"
  by (simp_all add: fun_eq_iff io_laws)

lemma upload_body:
  assumes "resolve tmpName = q" "resolve dest = p" "q \<noteq> p" "p \<noteq> []" "butlast p = resolve dir"
  shows "io_spec (staged p s q f (new_inode File m)) (upload_steps dir tmpName dest r f)
    (\<lambda>_ t. snd r = None \<and> replaced p (concat (fst r)) s t \<and> lasting p t) (settled (snd r = None) p (concat (fst r)) s)"
proof -
  let ?i = "(new_inode File m)\<lparr>ino_data := concat (fst r), ino_synced := True\<rparr>"
  have closing: "io_spec (\<lambda>t. case copied of Inl _ \<Rightarrow> untouched p s t | Inr _ \<Rightarrow> snd r = None \<and> staged p s q f ?i t)
      (io_try (file_Close f)) (\<lambda>closed t. if is_ok copied \<and> is_ok closed then snd r = None \<and> staged p s q f ?i t
         else untouched p s t) E" for copied :: "nat res" and E
  proof (cases copied)
    case (Inl e)
    have "io_keeps (untouched p s) (io_try (file_Close f))" by (intro keep_rules)
    with Inl show ?thesis by (auto simp: io_spec_def run_try split: prod.splits dest: io_keepsD split: sum.splits)
  next
    case (Inr w)
    have "io_spec (\<lambda>t. snd r = None \<and> staged p s q f ?i t) (file_Close f)
        (\<lambda>_ t. snd r = None \<and> staged p s q f ?i t) (untouched p s)"
      by (rule spec_const [OF staged_Close])
    from spec_try [OF this, of E] show ?thesis
      by (rule io_spec_weaken) (auto simp: Inr is_ok_def split: sum.splits)
  qed
  have finish: "io_spec (\<lambda>t. if is_ok copied \<and> is_ok closed then snd r = None \<and> staged p s q f ?i t else untouched p s t)
      (io_bind (io_lift (res_wrap (Wrapf ''write upload: %w'' []) copied)) (\<lambda>written.
       io_then (io_lift (res_wrap (Wrapf ''close upload: %w'' []) closed))
       (io_then (io_wrap (Wrapf ''finalize upload: %w'' []) (os_Rename tmpName dest))
       (io_then (io_wrap (Wrapf ''finalize upload: %w'' []) (syncDir dir)) (io_ok written)))))
      (\<lambda>_ t. snd r = None \<and> replaced p (concat (fst r)) s t \<and> lasting p t) (settled (snd r = None) p (concat (fst r)) s)"
    for copied :: "nat res" and closed :: "unit res"
  proof (cases "is_ok copied \<and> is_ok closed")
    case False
    then show ?thesis
      by (cases copied; cases closed) (auto simp: io_spec_def io_laws settled_def split: sum.splits)
  next
    case ok: True
    show ?thesis
    proof (cases "snd r = None")
      case False
      show ?thesis by (rule io_specI) (use ok False in simp_all)
    next
      case fin: True
    from ok obtain w x where wx: "copied = Inr w" "closed = Inr x" by (auto simp: is_ok_iff)
    have 1: "io_spec (staged p s q f ?i) (io_wrap (Wrapf ''finalize upload: %w'' []) (os_Rename tmpName dest))
        (\<lambda>_. committed p f (concat (fst r)) s) (settled (snd r = None) p (concat (fst r)) s)"
      by (rule spec_wrap, rule untouched_settled, rule io_spec_weaken [OF rename_spec [OF assms(1-3)]])
        (auto simp: new_inode_def)
    have 2: "io_spec (committed p f (concat (fst r)) s) (io_wrap (Wrapf ''finalize upload: %w'' []) (syncDir dir))
        (\<lambda>_ t. replaced p (concat (fst r)) s t \<and> lasting p t) (settled (snd r = None) p (concat (fst r)) s)"
      by (rule spec_wrap, rule io_spec_weaken [OF syncDir_spec [OF assms(4,5) fin]]) (auto simp: replaced_def)
    have "io_spec (staged p s q f ?i)
       (io_then (io_wrap (Wrapf ''finalize upload: %w'' []) (os_Rename tmpName dest))
       (io_then (io_wrap (Wrapf ''finalize upload: %w'' []) (syncDir dir)) (io_ok w)))
       (\<lambda>_ t. replaced p (concat (fst r)) s t \<and> lasting p t) (settled (snd r = None) p (concat (fst r)) s)"
      by (rule spec_then [OF 1], rule spec_then [OF 2], rule spec_ok)
    from spec_const [OF this, of "snd r = None"] show ?thesis
      by (simp add: wx bind_lift then_lift)
    qed
  qed
  show ?thesis
    unfolding upload_steps_def
    by (rule spec_bind [OF spec_try [OF copied_spec]], rule spec_bind [OF closing], rule finish)
qed

text \<open>A temporary file beside the destination, filled, renamed and removed whatever happens.\<close>

lemma through_temp:
  assumes wf: "fs_wf s" and p: "p = resolve dir @ [b]"
    and pat: "CHR ''*'' \<notin> set suf" "\<And>k. plain_elem (pre @ nat_string 10 k @ suf)" "\<And>k. b \<noteq> pre @ nat_string 10 k @ suf"
    and steps: "\<And>tmpName q u f m. resolve tmpName = q \<Longrightarrow> q \<noteq> p \<Longrightarrow>
      io_spec (staged p s q f (new_inode File m)) (steps tmpName f) (\<lambda>_ t. C \<and> replaced p d s t \<and> lasting p t) (settled C p d s)"
    and run: "io_then (io_wrap g (os_MkdirAll dir 493))
      (io_bind (io_wrap h (os_CreateTemp dir (pre @ CHR ''*'' # suf))) (\<lambda>(tmpName, tmp).
       io_finally (steps tmpName tmp) (os_Remove tmpName))) s = (r, t)"
  shows "settled C p d s t \<and> (is_ok r \<longrightarrow> C \<and> replaced p d s t \<and> lasting p t)"
proof -
  have notdir: "\<forall>xs. p @ xs \<noteq> resolve dir" using p by auto
  obtain r1 u where 1: "os_MkdirAll dir 493 s = (r1, u)" by (cases "os_MkdirAll dir 493 s")
  have u: "untouched p s u" by (rule io_keepsD [OF untouched_MkdirAll [OF notdir] untouched_refl [OF wf] 1])
  show ?thesis
  proof (cases r1)
    case (Inl e)
    with run 1 u show ?thesis by (auto simp: io_laws settled_def)
  next
    case r1: (Inr x)
    obtain r2 v where 2: "os_CreateTemp dir (pre @ CHR ''*'' # suf) u = (r2, v)"
      by (cases "os_CreateTemp dir (pre @ CHR ''*'' # suf) u")
    have other: "\<And>k. p \<noteq> resolve dir @ [pre @ nat_string 10 k @ suf]" using p pat(3) by simp
    show ?thesis
    proof (cases r2)
      case (Inl e)
      have "untouched p s v" by (rule io_keepsD [OF CreateTemp_untouched [OF pat(1,2) other] u 2])
      with run 1 2 r1 Inl show ?thesis by (auto simp: io_laws settled_def)
    next
      case (Inr nf)
      obtain tmpName f where nf: "nf = (tmpName, f)" by (cases nf)
      have "fs_wf u" using u by (simp add: untouched_def)
      from CreateTemp_success [OF 2 [unfolded Inr nf] this pat(1,2) other]
      obtain m where c: "untouched p u v" "fs_next u \<le> f" "name_of v (resolve tmpName) = Some f"
          "fs_inodes v f = Some (new_inode File m)" "resolve tmpName \<noteq> p" by blast
      have "untouched p s v" using u c(1) by (auto simp: untouched_def)
      with c u have st: "staged p s (resolve tmpName) f (new_inode File m) v" by (auto simp: staged_def untouched_def)
      obtain r3 w where 3: "steps tmpName f v = (r3, w)" by (cases "steps tmpName f v")
      have t: "r = r3" "t = snd (os_Remove tmpName w)" using run 1 2 3 r1 Inr nf by (simp_all add: io_laws)
      have "settled C p d s w \<and> (is_ok r3 \<longrightarrow> C \<and> replaced p d s w \<and> lasting p w)"
      proof (cases r3)
        case (Inl e)
        with io_spec_errD [OF steps [OF refl c(5)] st] 3 show ?thesis by simp
      next
        case (Inr x)
        with io_spec_okD [OF steps [OF refl c(5)] st] 3 show ?thesis by (auto simp: settled_def)
      qed
      then show ?thesis using Remove_settles(1) [OF c(5), of C d s w] Remove_settles(2) [OF c(5), of d s w] t by auto
    qed
  qed
qed

lemma settled_reads:
  assumes wf: "fs_wf s" and "settled C p d s t"
  shows "(\<forall>x. may_read t p x \<longrightarrow> may_read s p x \<or> C \<and> x = d) \<and> (reads t p = reads s p \<or> C \<and> reads t p = Some d)"
proof -
  have old: "fs_inodes t n = fs_inodes s n" if "\<forall>n < fs_next s. fs_inodes t n = fs_inodes s n" "fs_inodes s n \<noteq> None" for n
    using that fs_wf_bound [OF wf] by blast
  have disk: "Some n \<in> set (fs_disk s p) \<Longrightarrow> fs_inodes s n \<noteq> None" for n
    using wf unfolding fs_wf_def by blast
  from assms(2) consider "untouched p s t" | f where "committed p f d s t" "C"
    by (auto simp: settled_def replaced_def)
  then show ?thesis
  proof cases
    case 1
    then have inodes: "\<forall>n < fs_next s. fs_inodes t n = fs_inodes s n" and same: "name_of t p = name_of s p" "fs_disk t p = fs_disk s p"
      by (auto simp: untouched_def)
    have "inode_at t p = inode_at s p"
      using old [OF inodes] fs_wf_named [OF wf] same by (auto simp: inode_at_def split: option.splits)
    moreover have "may_read t p x \<Longrightarrow> may_read s p x" for x
      using old [OF inodes disk] same unfolding may_read_def by metis
    ultimately show ?thesis by (simp add: reads_def)
  next
    case 2
    then obtain i where i: "fs_inodes t f = Some i" "ino_data i = d" "ino_synced i" "name_of t p = Some f"
      by (auto simp: committed_def complete_def)
    have "may_read s p x \<or> x = d" if "may_read t p x" for x
    proof -
      from that obtain n j where n: "Some n \<in> set (fs_disk t p)" "fs_inodes t n = Some j" "ino_synced j \<longrightarrow> ino_data j = x"
        by (auto simp: may_read_def)
      show ?thesis
      proof (cases "n = f")
        case True
        with n i show ?thesis by auto
      next
        case False
        with n(1) 2 have "Some n \<in> set (fs_disk s p)" by (auto simp: committed_def)
        moreover from this have "fs_inodes t n = fs_inodes s n" using old [OF _ disk] 2 by (auto simp: committed_def)
        ultimately show ?thesis using n unfolding may_read_def by metis
      qed
    qed
    with i 2(2) show ?thesis by (simp add: reads_def inode_at_def)
  qed
qed

lemma lasting_reads:
  assumes "replaced p d s t" "lasting p t"
  shows "reads t p = Some d \<and> (\<forall>x. may_read t p x \<longleftrightarrow> x = d) \<and> None \<notin> set (fs_disk t p)"
proof -
  from assms(1) obtain f i where "name_of t p = Some f" "fs_inodes t f = Some i" "ino_data i = d" "ino_synced i"
    by (auto simp: replaced_def committed_def complete_def)
  with assms(2) show ?thesis by (auto simp: reads_def inode_at_def may_read_def lasting_def)
qed

lemma HasPrefix_not: "\<not> HasPrefix b pre \<Longrightarrow> b \<noteq> pre @ c"
  by auto

lemma wrap_id: "io_wrap (\<lambda>e. e) m = m"
  by (auto simp: fun_eq_iff run_wrap res_wrap_def split: prod.splits sum.splits)

lemma writeConfigFile_run:
  assumes "fs_wf s" "plain_elem b" "\<not> HasPrefix b ''.config-''"
    and run: "writeConfigFile (d @ CHR ''/'' # b) body s = (r, t)"
  shows "settled True (resolve d @ [b]) body s t \<and>
    (is_ok r \<longrightarrow> replaced (resolve d @ [b]) body s t \<and> lasting (resolve d @ [b]) t)"
proof -
  let ?path = "d @ CHR ''/'' # b" and ?pre = "''.config-''"
  have dir: "resolve (Dir ?path) = resolve d" by (rule resolve_Dir [OF assms(2)])
  have run': "io_then (io_wrap (Wrapf ''create config dir %q: %w'' [Dir ?path]) (os_MkdirAll (Dir ?path) 493))
      (io_bind (io_wrap (\<lambda>e. e) (os_CreateTemp (Dir ?path) (?pre @ CHR ''*'' # []))) (\<lambda>(tmpName, tmp).
       io_finally (config_steps (Dir ?path) tmpName ?path body tmp) (os_Remove tmpName))) s = (r, t)"
    using run by (simp add: writeConfigFile_def Let_def wrap_id)
  have "settled True (resolve d @ [b]) body s t \<and> (is_ok r \<longrightarrow> True \<and> replaced (resolve d @ [b]) body s t \<and> lasting (resolve d @ [b]) t)"
  proof (rule through_temp [where pre = ?pre and suf = "[]" and dir = "Dir ?path"])
    show "resolve d @ [b] = resolve (Dir ?path) @ [b]" by (simp add: dir)
    show "plain_elem (?pre @ nat_string 10 k @ [])" for k by (rule plain_config)
    show "b \<noteq> ?pre @ nat_string 10 k @ []" for k using assms(3) by (rule HasPrefix_not)
    show "io_spec (staged (resolve d @ [b]) s q f (new_inode File m)) (config_steps (Dir ?path) tmpName ?path body f)
        (\<lambda>_ t. True \<and> replaced (resolve d @ [b]) body s t \<and> lasting (resolve d @ [b]) t) (settled True (resolve d @ [b]) body s)"
      if "resolve tmpName = q" "q \<noteq> resolve d @ [b]" for tmpName q f m
      by (simp only: simp_thms, rule config_body [OF that(1) resolve_join [OF assms(2)] that(2)]) (simp_all add: dir)
  qed (rule assms(1) run' | simp)+
  then show ?thesis by simp
qed

lemma streamToFileAtomic_run:
  assumes "fs_wf s" "plain_elem b" "\<not> HasPrefix b ''.upload-''"
    and run: "streamToFileAtomic (d @ CHR ''/'' # b) body s = (r, t)"
  shows "settled (snd body = None) (resolve d @ [b]) (concat (fst body)) s t \<and>
    (is_ok r \<longrightarrow> snd body = None \<and> replaced (resolve d @ [b]) (concat (fst body)) s t \<and> lasting (resolve d @ [b]) t)"
proof -
  let ?path = "d @ CHR ''/'' # b" and ?pre = "''.upload-''"
  have dir: "resolve (Dir ?path) = resolve d" by (rule resolve_Dir [OF assms(2)])
  have run': "io_then (io_wrap (Wrapf ''create upload dir: %w'' []) (os_MkdirAll (Dir ?path) 493))
      (io_bind (io_wrap (Wrapf ''create temp file: %w'' []) (os_CreateTemp (Dir ?path) (?pre @ CHR ''*'' # []))) (\<lambda>(tmpName, tmp).
       io_finally (upload_steps (Dir ?path) tmpName ?path body tmp) (os_Remove tmpName))) s = (r, t)"
    using run by (simp add: streamToFileAtomic_def Let_def)
  show ?thesis
  proof (rule through_temp [where pre = ?pre and suf = "[]" and dir = "Dir ?path"])
    show "resolve d @ [b] = resolve (Dir ?path) @ [b]" by (simp add: dir)
    show "plain_elem (?pre @ nat_string 10 k @ [])" for k by (rule plain_upload)
    show "b \<noteq> ?pre @ nat_string 10 k @ []" for k using assms(3) by (rule HasPrefix_not)
    show "io_spec (staged (resolve d @ [b]) s q f (new_inode File m)) (upload_steps (Dir ?path) tmpName ?path body f)
        (\<lambda>_ t. snd body = None \<and> replaced (resolve d @ [b]) (concat (fst body)) s t \<and> lasting (resolve d @ [b]) t)
        (settled (snd body = None) (resolve d @ [b]) (concat (fst body)) s)"
      if "resolve tmpName = q" "q \<noteq> resolve d @ [b]" for tmpName q f m
      by (rule upload_body [OF that(1) resolve_join [OF assms(2)] that(2)]) (simp_all add: dir)
  qed (rule assms(1) run' | simp)+
qed

section \<open>Without faults\<close>

lemma is_dir_ctl [simp]:
  "is_dir (s\<lparr>fs_faults := a\<rparr>) p = is_dir s p" "is_dir (s\<lparr>fs_drawn := b\<rparr>) p = is_dir s p"
  "is_dir (s\<lparr>fs_disk := c\<rparr>) p = is_dir s p"
  by (simp_all add: is_dir_def inode_at_def split: option.splits)

lemma is_dir_create: "fs_wf s \<Longrightarrow> q \<noteq> e \<Longrightarrow> is_dir (create_at q k m s) e = is_dir s e"
  using fs_wf_named [of s e] fs_wf_bound [of s] by (fastforce simp: is_dir_def inode_at_def split: option.splits)

lemma is_dir_change: "(\<And>i. ino_kind (g i) = ino_kind i) \<Longrightarrow> is_dir (change f g s) e = is_dir s e"
  by (auto simp: is_dir_def inode_at_def split: option.splits)

lemma is_dir_set_name: "q \<noteq> e \<Longrightarrow> is_dir (set_name q v s) e = is_dir s e"
  by (auto simp: is_dir_def inode_at_def split: option.splits)

definition calm :: "'x fs_scheme \<Rightarrow> bool" where
  "calm s \<longleftrightarrow> \<not> fs_off s \<and> fs_faults s = []"

lemma calm_syscall [simp]: "calm s \<Longrightarrow> syscall part eff s = eff s"
  by (simp add: calm_def syscall_no_fault)

lemma calm_states [simp]:
  "calm (create_at p k m s) = calm s" "calm (change f g s) = calm s" "calm (set_name p v s) = calm s"
  "calm (s\<lparr>fs_drawn := b\<rparr>) = calm s" "calm (s\<lparr>fs_disk := c\<rparr>) = calm s"
  by (simp_all add: calm_def)

lemma mkdir_all_exists: "calm s \<Longrightarrow> is_dir s (rev r) \<Longrightarrow> mkdir_all r m s = (Inr (), s)"
  by (cases r) (auto simp: io_laws os_Stat_def is_dir_def split: option.splits)

lemma MkdirAll_exists: "calm s \<Longrightarrow> path \<noteq> [] \<Longrightarrow> is_dir s (resolve path) \<Longrightarrow> os_MkdirAll path m s = (Inr (), s)"
  by (simp add: os_MkdirAll_def mkdir_all_exists)

lemma create_temp_calm:
  assumes "calm s" "is_dir s (resolve dir)" "\<And>k. plain_elem (pre @ nat_string 10 k @ suf)"
    and "inode_at s (resolve dir @ [pre @ random_text s @ suf]) = None"
  shows "create_temp (Suc n) (join_path dir pre) suf s =
    (Inr (join_path dir pre @ random_text s @ suf, fs_next s),
     create_at (resolve dir @ [pre @ random_text s @ suf]) File 384
       (s\<lparr>fs_drawn := Suc (fs_drawn s)\<rparr>))"
proof -
  have path: "resolve (join_path dir pre @ random_text s @ suf) = resolve dir @ [pre @ random_text s @ suf]"
    unfolding random_text_def using resolve_join_path [OF assms(3)] join_path_append by metis
  have "inode_at (s\<lparr>fs_drawn := Suc (fs_drawn s)\<rparr>) p = inode_at s p" for p
    by (simp add: inode_at_def split: option.splits)
  then show ?thesis
    using assms by (simp add: io_laws draw_def open_excl_def Let_def path)
qed

lemma CreateTemp_calm:
  assumes "calm s" "is_dir s (resolve dir)" "\<And>k. plain_elem (pre @ nat_string 10 k @ suf)"
    and "inode_at s (resolve dir @ [pre @ random_text s @ suf]) = None" "CHR ''*'' \<notin> set suf"
  shows "os_CreateTemp dir (pre @ CHR ''*'' # suf) s =
    (Inr (join_path dir pre @ random_text s @ suf, fs_next s),
     create_at (resolve dir @ [pre @ random_text s @ suf]) File 384 (s\<lparr>fs_drawn := Suc (fs_drawn s)\<rparr>))"
proof -
  have "(10000 :: nat) = Suc 9999" by simp
  then show ?thesis
    unfolding CreateTemp_split [OF assms(5)] by (simp only: create_temp_calm [OF assms(1-4)])
qed

lemma or_close_ok: "m s = (Inr (), t) \<Longrightarrow> or_close f g m s = (Inr (), t)"
  by (simp add: or_close_def io_laws)

lemma open_dir_calm: "calm s \<Longrightarrow> is_dir s (resolve dir) \<Longrightarrow> open_dir dir s = (Inr (resolve dir), s)"
  by (auto simp: open_dir_def Let_def is_dir_def)

lemma config_steps_calm:
  assumes "calm s" "fs_wf s" "name_of s q = Some f" "resolve tmpName = q" "resolve path = p" "p \<noteq> q"
    "butlast p = resolve dir" "p \<noteq> []" "is_dir s (resolve dir)"
    "\<not> is_dir s p" "q \<noteq> resolve dir" "fs_inodes s f = Some (new_inode File m)"
  obtains t where "config_steps dir tmpName path body f s = (Inr (), t)" "calm t"
    "\<And>e. name_of t e = (if e = p then Some f else if e = q then None else name_of s e)"
    "map_option ino_mode (fs_inodes t f) = Some 420"
proof -
  let ?s1 = "change f (\<lambda>i. i\<lparr>ino_data := ino_data i @ body, ino_synced := False\<rparr>) s"
  let ?s2 = "change f (\<lambda>i. i\<lparr>ino_mode := syscallMode 420, ino_synced := False\<rparr>) ?s1"
  let ?s3 = "change f (\<lambda>i. i\<lparr>ino_synced := True\<rparr>) ?s2"
  let ?s4 = "set_name q None (set_name p (Some f) ?s3)"
  let ?s5 = "?s4\<lparr>fs_disk := (\<lambda>e. if e \<noteq> [] \<and> butlast e = resolve dir then [name_of ?s4 e] else fs_disk ?s4 e)\<rparr>"
  have 1: "file_Write f body s = (Inr (), ?s1)" using assms(1) by (simp add: file_Write_def)
  have 2: "file_Chmod f 420 ?s1 = (Inr (), ?s2)" using assms(1) by (simp add: file_Chmod_def)
  have 3: "file_Sync f ?s2 = (Inr (), ?s3)" using assms(1) by (simp add: file_Sync_def)
  have d: "is_dir ?s3 e = is_dir s e" for e by (simp add: is_dir_change)
  have 4: "os_Rename tmpName path ?s3 = (Inr (), ?s4)"
    using assms d by (simp add: os_Rename_def Let_def)
  have "p \<noteq> resolve dir" using assms(9,10) by auto
  then have "is_dir ?s4 (resolve dir)" using assms(9,11) by (simp add: is_dir_change is_dir_set_name)
  then have 5: "syncDir dir ?s4 = (Inr (), ?s5)"
    using assms(1) by (simp add: syncDir_def io_laws open_dir_calm dir_Sync_def dir_Close_def)
  show ?thesis
  proof (rule that)
    show "config_steps dir tmpName path body f s = (Inr (), ?s5)"
      using 1 2 3 4 5 assms(1) by (simp add: config_steps_def io_laws or_close_def file_Close_def)
    show "calm ?s5" using assms(1) by simp
    show "name_of ?s5 e = (if e = p then Some f else if e = q then None else name_of s e)" for e
      using assms(6) by simp
    show "map_option ino_mode (fs_inodes ?s5 f) = Some 420"
      using assms(12) by (simp add: syscallMode_def)
  qed
qed

section \<open>Properties\<close>

definition sample_inode :: "kind \<Rightarrow> string \<Rightarrow> inode" where
  "sample_inode k x = \<lparr>ino_kind = k, ino_data = x, ino_mode = 493, ino_uid = 0, ino_gid = 0, ino_synced = True\<rparr>"

text \<open>A directory \<open>/etc\<close> with the configuration file in it, both on the disk.\<close>

definition sample_fs :: "fault list \<Rightarrow> fs" where
  "sample_fs faults = \<lparr>ho_log = [], ho_stderr = [],
     fs_inodes = [0 \<mapsto> sample_inode Folder [], 1 \<mapsto> sample_inode File ''old''],
     fs_names = [([''etc''], 0), ([''etc'', ''ec.json''], 1)],
     fs_disk = (\<lambda>p. if p = [''etc''] then [Some 0] else if p = [''etc'', ''ec.json''] then [Some 1] else [None]),
     fs_next = 2, fs_umask = 18, fs_random = (\<lambda>n. n), fs_drawn = 7, fs_faults = faults, fs_off = False\<rparr>"

lemma sample_fs_wf: "fs_wf (sample_fs faults)"
  by (auto simp: fs_wf_def sample_fs_def name_of_def split: if_splits)

lemma plain_sample: "plain_elem ''ec.json''"
  by (simp add: plain_elem_def)

text \<open>C3: whatever call fails and whenever the power goes, the configuration file holds, for a
  reader and on the disk, what it held before or all of the new body; when the write reports
  success it is the new body, also after a power loss.\<close>

theorem writeConfigFile_crash_safe:
  assumes "fs_wf s" "plain_elem b" "\<not> HasPrefix b ''.config-''"
    and "writeConfigFile (d @ CHR ''/'' # b) body s = (r, t)"
  shows "(\<forall>x. may_read t (resolve d @ [b]) x \<longrightarrow> may_read s (resolve d @ [b]) x \<or> x = body) \<and>
    (reads t (resolve d @ [b]) = reads s (resolve d @ [b]) \<or> reads t (resolve d @ [b]) = Some body) \<and>
    (is_ok r \<longrightarrow> reads t (resolve d @ [b]) = Some body \<and>
       (\<forall>x. may_read t (resolve d @ [b]) x \<longleftrightarrow> x = body) \<and> None \<notin> set (fs_disk t (resolve d @ [b])))"
  using writeConfigFile_run [OF assms] settled_reads [OF assms(1)] lasting_reads by blast

lemma writeConfigFile_crash_safe_witness:
  "{x. may_read (snd (writeConfigFile ''/etc/ec.json'' ''new'' (sample_fs [Fine, Fine, Fine, PowerOff 2]))) [''etc'', ''ec.json''] x}
     \<subseteq> {''old'', ''new''}"
proof -
  let ?s = "sample_fs [Fine, Fine, Fine, PowerOff 2]"
  obtain r t where run: "writeConfigFile (''/etc'' @ CHR ''/'' # ''ec.json'') ''new'' ?s = (r, t)"
    by (cases "writeConfigFile (''/etc'' @ CHR ''/'' # ''ec.json'') ''new'' ?s")
  have p: "resolve ''/etc'' @ [''ec.json''] = [''etc'', ''ec.json'']" by code_simp
  have "\<not> HasPrefix ''ec.json'' ''.config-''" by code_simp
  from writeConfigFile_crash_safe [OF sample_fs_wf plain_sample this run]
  have "\<forall>x. may_read t [''etc'', ''ec.json''] x \<longrightarrow> may_read ?s [''etc'', ''ec.json''] x \<or> x = ''new''"
    unfolding p by blast
  moreover have "may_read ?s [''etc'', ''ec.json''] x \<longleftrightarrow> x = ''old''" for x
    by (auto simp: may_read_def sample_fs_def sample_inode_def)
  ultimately show ?thesis using run by auto
qed

text \<open>C15: an uploaded image is never found in part: the destination holds what it held before or,
  if the stream was read to its end, the whole stream, whatever fails; success is only reported for a stream that was read to its end
  and is on the disk.\<close>

theorem streamToFileAtomic_complete:
  assumes "fs_wf s" "plain_elem b" "\<not> HasPrefix b ''.upload-''"
    and "streamToFileAtomic (d @ CHR ''/'' # b) (chunks, fin) s = (r, t)"
  shows "(\<forall>x. may_read t (resolve d @ [b]) x \<longrightarrow> may_read s (resolve d @ [b]) x \<or> fin = None \<and> x = concat chunks) \<and>
    (reads t (resolve d @ [b]) = reads s (resolve d @ [b]) \<or> fin = None \<and> reads t (resolve d @ [b]) = Some (concat chunks)) \<and>
    (is_ok r \<longrightarrow> fin = None \<and> reads t (resolve d @ [b]) = Some (concat chunks) \<and>
       (\<forall>x. may_read t (resolve d @ [b]) x \<longleftrightarrow> x = concat chunks))"
  using streamToFileAtomic_run [OF assms] settled_reads [OF assms(1), of "fin = None" "resolve d @ [b]" "concat chunks" t]
    lasting_reads [of "resolve d @ [b]" "concat chunks" s t] by auto

lemma streamToFileAtomic_complete_witness:
  "reads (snd (streamToFileAtomic ''/etc/ec.json'' ([''ne'', ''w''], Some (Outside ''broken'')) (sample_fs []))) [''etc'', ''ec.json'']
     = Some ''old''"
proof -
  obtain r t where run: "streamToFileAtomic (''/etc'' @ CHR ''/'' # ''ec.json'') ([''ne'', ''w''], Some (Outside ''broken'')) (sample_fs []) = (r, t)"
    by (cases "streamToFileAtomic (''/etc'' @ CHR ''/'' # ''ec.json'') ([''ne'', ''w''], Some (Outside ''broken'')) (sample_fs [])")
  have p: "resolve ''/etc'' @ [''ec.json''] = [''etc'', ''ec.json'']" by code_simp
  have "\<not> HasPrefix ''ec.json'' ''.upload-''" by code_simp
  from streamToFileAtomic_complete [OF sample_fs_wf plain_sample this run]
  have "reads t [''etc'', ''ec.json''] = reads (sample_fs []) [''etc'', ''ec.json'']"
    unfolding p by simp
  moreover have "reads (sample_fs []) [''etc'', ''ec.json''] = Some ''old''"
    by (simp add: reads_def inode_at_def name_of_def sample_fs_def sample_inode_def)
  ultimately show ?thesis using run by auto
qed

text \<open>C28: without faults, into an existing directory and with a free temporary name, the write
  succeeds; it leaves the file with mode 0644, no temporary file, and every other name as it was.\<close>

theorem writeConfigFile_succeeds:
  assumes "fs_wf s" "calm s" "plain_elem b" "\<not> HasPrefix b ''.config-''"
    and "is_dir s (resolve d)" "\<not> is_dir s (resolve d @ [b])"
    and "name_of s (resolve d @ [''.config-'' @ random_text s]) = None"
  shows "\<exists>t f. writeConfigFile (d @ CHR ''/'' # b) body s = (Inr (), t) \<and> name_of t (resolve d @ [b]) = Some f \<and>
    map_option ino_mode (fs_inodes t f) = Some 420 \<and>
    (\<forall>e. e \<noteq> resolve d @ [b] \<longrightarrow> name_of t e = name_of s e)"
proof -
  let ?path = "d @ CHR ''/'' # b" and ?q = "resolve d @ [''.config-'' @ random_text s]"
  let ?name = "join_path (Dir ?path) ''.config-'' @ random_text s"
  let ?s = "s\<lparr>fs_drawn := Suc (fs_drawn s)\<rparr>"
  let ?t = "create_at ?q File 384 ?s"
  have dir: "resolve (Dir ?path) = resolve d" by (rule resolve_Dir [OF assms(3)])
  have mk: "os_MkdirAll (Dir ?path) 493 s = (Inr (), s)"
    using assms(2,5) dir by (intro MkdirAll_exists) simp_all
  have free: "inode_at s ?q = None" using assms(7) by (simp add: inode_at_def)
  have name: "resolve ?name = ?q"
    using resolve_join_path [OF plain_config [unfolded append_Nil2]] dir join_path_append
    unfolding random_text_def by metis
  have ct: "os_CreateTemp (Dir ?path) ''.config-*'' s = (Inr (?name, fs_next s), ?t)"
    using CreateTemp_calm [OF assms(2), of "Dir ?path" "''.config-''" "[]"] assms(5) free plain_config dir by simp
  have b: "b \<noteq> ''.config-'' @ random_text s" using assms(4) by (rule HasPrefix_not)
  have wf: "fs_wf ?t" using assms(1) by (intro fs_wf_create) simp
  have steps: "\<exists>t. config_steps (Dir ?path) ?name ?path body (fs_next s) ?t = (Inr (), t) \<and> calm t \<and>
      (\<forall>e. name_of t e = (if e = resolve d @ [b] then Some (fs_next s) else if e = ?q then None else name_of ?t e)) \<and>
      map_option ino_mode (fs_inodes t (fs_next s)) = Some 420"
    by (rule config_steps_calm [where s = ?t and q = ?q and f = "fs_next s" and m = "masked ?s 384" and
          tmpName = ?name and path = ?path and p = "resolve d @ [b]" and dir = "Dir ?path" and body = body])
      (use assms wf name b in \<open>auto simp: dir is_dir_create resolve_join\<close>)
  then obtain u where u: "config_steps (Dir ?path) ?name ?path body (fs_next s) ?t = (Inr (), u)" "calm u"
      "\<And>e. name_of u e = (if e = resolve d @ [b] then Some (fs_next s) else if e = ?q then None else name_of ?t e)"
      "map_option ino_mode (fs_inodes u (fs_next s)) = Some 420" by blast
  have "os_Remove ?name u = (Inl (path_error u ?q), u)"
    using u(2,3) b name by (simp add: os_Remove_def Let_def)
  with mk ct u(1) have "writeConfigFile ?path body s = (Inr (), u)"
    by (simp add: writeConfigFile_def Let_def io_laws)
  then show ?thesis using u(3,4) assms(7) by (intro exI [of _ u] exI [of _ "fs_next s"]) auto
qed

lemma writeConfigFile_succeeds_witness:
  "fst (writeConfigFile ''/etc/ec.json'' ''new'' (sample_fs [])) = Inr ()"
proof -
  have "calm (sample_fs [])" by (simp add: calm_def sample_fs_def)
  moreover have "\<not> HasPrefix ''ec.json'' ''.config-''" by code_simp
  moreover have "is_dir (sample_fs []) (resolve ''/etc'')" by code_simp
  moreover have "\<not> is_dir (sample_fs []) (resolve ''/etc'' @ [''ec.json''])" by code_simp
  moreover have "name_of (sample_fs []) (resolve ''/etc'' @ [''.config-'' @ random_text (sample_fs [])]) = None" by code_simp
  ultimately obtain t where "writeConfigFile (''/etc'' @ CHR ''/'' # ''ec.json'') ''new'' (sample_fs []) = (Inr (), t)"
    using writeConfigFile_succeeds [OF sample_fs_wf _ plain_sample] by blast
  then show ?thesis by simp
qed

end
