(* ===== verification/Services.thy ===== *)
theory Services
  imports Host GoStrings
begin

text \<open>
  Host commands (\<open>exec.go\<close>), systemd units and the wait for a Unix socket (\<open>systemd.go\<close>).  The
  started processes, the systemd connection, the clock and the dialled socket are parameters.
\<close>

section \<open>Host commands\<close>

text \<open>
  What running a command gives: its combined output, the error of the run if it failed, and the
  error of the context if that had ended by then.
\<close>

record outcome =
  oc_output :: string
  oc_err :: "err option"
  oc_ctx :: "err option"

type_synonym 's runner = "string \<Rightarrow> string list \<Rightarrow> 's \<Rightarrow> outcome \<times> 's"

definition command_result :: "string \<Rightarrow> string list \<Rightarrow> outcome \<Rightarrow> string res" where
  "command_result name args oc =
     (case oc_err oc of
        None \<Rightarrow> Inr (oc_output oc)
      | Some e \<Rightarrow>
          let message = TrimSpace (oc_output oc);
              cause = (case oc_ctx oc of Some ctxErr \<Rightarrow> ctxErr | None \<Rightarrow> e)
          in if message = [] then Inl (Wrapf ''%s %s: %w'' [name, Join args '' ''] cause)
             else Inl (Wrapf ''%s %s: %w: %s'' [name, Join args '' '', message] cause))"

definition runCommandOutput :: "'s runner \<Rightarrow> string \<Rightarrow> string list \<Rightarrow> ('s, string) io" where
  "runCommandOutput exec name args = (\<lambda>s. case exec name args s of (oc, t) \<Rightarrow> (command_result name args oc, t))"

definition runCommand :: "'s runner \<Rightarrow> string \<Rightarrow> string list \<Rightarrow> ('s, unit) io" where
  "runCommand exec name args = io_bind (runCommandOutput exec name args) (\<lambda>_. io_ok ())"

lemma run_command [io_laws]:
  "runCommandOutput exec name args s = (command_result name args (fst (exec name args s)), snd (exec name args s))"
  by (simp add: runCommandOutput_def split: prod.splits)

text \<open>A command fails exactly when its run reports an error; the error names the command and
  wraps the error of the context when that has ended.\<close>

lemma command_result_ok: "command_result name args oc = Inr x \<longleftrightarrow> oc_err oc = None \<and> x = oc_output oc"
  by (auto simp: command_result_def Let_def split: option.splits)

lemma runCommand_success:
  "runCommand exec name args s = (Inr u, t) \<longleftrightarrow> oc_err (fst (exec name args s)) = None \<and> t = snd (exec name args s)"
  by (auto simp: runCommand_def io_laws command_result_ok split: sum.splits)
     (auto simp: command_result_def Let_def split: option.splits if_splits)

section \<open>systemd units\<close>

text \<open>
  \<open>sd_wait\<close> is the \<open>select\<close>: the result of the job, or \<open>None\<close> when the context has ended.
\<close>

record 's systemd =
  sd_connect :: "('s, unit) io"
  sd_close :: "('s, unit) io"
  sd_start :: "string \<Rightarrow> string \<Rightarrow> ('s, nat) io"
  sd_wait :: "'s \<Rightarrow> string option \<times> 's"
  sd_ctx_err :: err

definition job_result :: "string \<Rightarrow> err \<Rightarrow> string option \<Rightarrow> unit res" where
  "job_result unit_name ctxErr result =
     (case result of
        Some r \<Rightarrow> if r \<noteq> ''done'' then Inl (Errf (unit_name @ '' start result: %s'') [r]) else Inr ()
      | None \<Rightarrow> Inl (Wrapf (''start '' @ unit_name @ '' timed out: %w'') [] ctxErr))"

definition start_unit :: "'s systemd \<Rightarrow> string \<Rightarrow> ('s, unit) io" where
  "start_unit sd unit_name =
     io_then (io_wrap (Wrapf ''connect to systemd failed: %w'' []) (sd_connect sd))
       (io_finally
         (io_then (io_wrap (Wrapf (''start '' @ unit_name @ '' failed: %w'') []) (sd_start sd unit_name ''replace''))
           (\<lambda>s. case sd_wait sd s of (result, t) \<Rightarrow> (job_result unit_name (sd_ctx_err sd) result, t)))
         (sd_close sd))"

definition startPodmanSocket :: "'s systemd \<Rightarrow> ('s, unit) io" where
  "startPodmanSocket sd = start_unit sd ''podman.socket''"

definition ensureFirewalldRunning :: "'s systemd \<Rightarrow> ('s, unit) io" where
  "ensureFirewalldRunning sd = start_unit sd ''firewalld.service''"

text \<open>A start is only reported as done when systemd accepted the job and reported it as done.\<close>

lemma job_result_ok: "job_result u e result = Inr x \<longleftrightarrow> result = Some ''done''"
  by (auto simp: job_result_def split: option.splits)

lemma start_unit_success:
  assumes "start_unit sd u s = (Inr x, t)"
  obtains s1 j s2 s3 where "sd_connect sd s = (Inr (), s1)" "sd_start sd u ''replace'' s1 = (Inr j, s2)"
    "sd_wait sd s2 = (Some ''done'', s3)" "t = snd (sd_close sd s3)"
  using assms
  by (auto simp: start_unit_def success_simps run_finally run_then run_wrap job_result_ok split: prod.splits sum.splits)

section \<open>Waiting for a socket\<close>

text \<open>
  The clock reads nanoseconds; \<open>tm_dial\<close> connects to the path and closes the connection again.
  The loop may in principle not end, so its value is an option.
\<close>

record 's timer =
  tm_now :: "'s \<Rightarrow> nat"
  tm_dial :: "string \<Rightarrow> ('s, unit) io"
  tm_sleep :: "nat \<Rightarrow> 's \<Rightarrow> 's"

partial_function (option) wait_loop :: "'s timer \<Rightarrow> string \<Rightarrow> nat \<Rightarrow> 's \<Rightarrow> (unit res \<times> 's) option" where
  "wait_loop tm path deadline s =
     (if tm_now tm s < deadline then
        (case tm_dial tm path s of
           (Inr _, t) \<Rightarrow> Some (Inr (), t)
         | (Inl _, t) \<Rightarrow> wait_loop tm path deadline (tm_sleep tm 200000000 t))
      else Some (Inl (Errf ''socket not reachable: %s'' [path]), s))"

declare wait_loop.simps [code]

definition waitForUnixSocket :: "'s timer \<Rightarrow> string \<Rightarrow> nat \<Rightarrow> 's \<Rightarrow> (unit res \<times> 's) option" where
  "waitForUnixSocket tm path timeout s = wait_loop tm path (tm_now tm s + timeout) s"

text \<open>The documented clock: dialling takes no negative time, and sleeping at least as long as asked.\<close>

locale clock =
  fixes tm :: "'s timer"
  assumes dial_time: "tm_dial tm path s = (r, t) \<Longrightarrow> tm_now tm s \<le> tm_now tm t"
    and sleep_time: "tm_now tm s + d \<le> tm_now tm (tm_sleep tm d s)"
begin

text \<open>Every round leaves at least the length of the sleep less to wait.\<close>

lemma wait_loop_returns:
  "\<exists>r t. wait_loop tm path deadline s = Some (r, t) \<and> tm_now tm s \<le> tm_now tm t \<and>
     (is_ok r \<or> r = Inl (Errf ''socket not reachable: %s'' [path]) \<and> deadline \<le> tm_now tm t)"
proof (induction "deadline - tm_now tm s" arbitrary: s rule: less_induct)
  case less
  show ?case
  proof (cases "tm_now tm s < deadline")
    case False
    then show ?thesis by (simp add: wait_loop.simps [of tm path deadline s])
  next
    case True
    obtain r t where rt: "tm_dial tm path s = (r, t)" by (cases "tm_dial tm path s")
    note t = dial_time [OF rt]
    show ?thesis
    proof (cases r)
      case (Inr u)
      with True rt t show ?thesis by (simp add: wait_loop.simps [of tm path deadline s])
    next
      case (Inl e)
      let ?u = "tm_sleep tm 200000000 t"
      have u: "tm_now tm t + 200000000 \<le> tm_now tm ?u" by (rule sleep_time)
      have "deadline - tm_now tm ?u < deadline - tm_now tm s" using t u True by linarith
      from less [OF this] obtain r' v where "wait_loop tm path deadline ?u = Some (r', v)" "tm_now tm ?u \<le> tm_now tm v"
        "is_ok r' \<or> r' = Inl (Errf ''socket not reachable: %s'' [path]) \<and> deadline \<le> tm_now tm v" by blast
      with True rt t u Inl show ?thesis by (auto simp: wait_loop.simps [of tm path deadline s])
    qed
  qed
qed

end

text \<open>A loop that succeeds has reached the socket.\<close>

lemma wait_loop_success:
  assumes "wait_loop tm path deadline s = Some y" "is_ok (fst y)"
  shows "\<exists>s'. tm_dial tm path s' = (Inr (), snd y) \<and> tm_now tm s' < deadline"
proof -
  have "is_ok (fst y) \<longrightarrow> (\<exists>s'. tm_dial tm path s' = (Inr (), snd y) \<and> tm_now tm s' < deadline)"
  proof (rule wait_loop.raw_induct [where P = "\<lambda>tm path deadline s y. is_ok (fst y) \<longrightarrow>
      (\<exists>s'. tm_dial tm path s' = (Inr (), snd y) \<and> tm_now tm s' < deadline)", OF _ assms(1)], goal_cases)
    case (1 f tm path deadline s y)
    obtain r t where rt: "tm_dial tm path s = (r, t)" by (cases "tm_dial tm path s")
    show ?case
    proof (cases "tm_now tm s < deadline")
      case True
      show ?thesis
      proof (cases r)
        case (Inr u)
        then have "y = (Inr (), t)" using 1(2) True rt by simp
        then show ?thesis using True rt Inr by auto
      next
        case (Inl e)
        then have "f tm path deadline (tm_sleep tm 200000000 t) = Some y" using 1(2) True rt by simp
        from 1(1) [OF this] show ?thesis .
      qed
    next
      case False
      then have "y = (Inl (Errf ''socket not reachable: %s'' [path]), s)" using 1(2) by simp
      then show ?thesis by simp
    qed
  qed
  with assms(2) show ?thesis by blast
qed

section \<open>A simulated clock\<close>

text \<open>The results of the next attempts to connect; each attempt takes a millisecond.\<close>

record sim =
  si_time :: nat
  si_dials :: "bool list"

definition sim_timer :: "sim timer" where
  "sim_timer = \<lparr>tm_now = si_time,
     tm_dial = (\<lambda>_ s. case si_dials s of
        [] \<Rightarrow> (Inl (Outside ''refused''), s\<lparr>si_time := si_time s + 1000000\<rparr>)
      | d # ds \<Rightarrow> (if d then Inr () else Inl (Outside ''refused''), s\<lparr>si_time := si_time s + 1000000, si_dials := ds\<rparr>)),
     tm_sleep = (\<lambda>d s. s\<lparr>si_time := si_time s + d\<rparr>)\<rparr>"

interpretation sim: clock sim_timer
  by unfold_locales (auto simp: sim_timer_def split: list.splits)

section \<open>Properties\<close>

text \<open>C16: with a clock that runs, the wait for the socket always returns: with success only right
  after a connection was made before the deadline, and with the error only once the time is up.\<close>

theorem waitForUnixSocket_returns:
  assumes "clock tm"
  shows "\<exists>r t. waitForUnixSocket tm path timeout s = Some (r, t) \<and>
    (case r of
       Inr _ \<Rightarrow> (\<exists>s'. tm_dial tm path s' = (Inr (), t) \<and> tm_now tm s' < tm_now tm s + timeout)
     | Inl e \<Rightarrow> e = Errf ''socket not reachable: %s'' [path] \<and> tm_now tm s + timeout \<le> tm_now tm t)"
proof -
  from clock.wait_loop_returns [OF assms, of path "tm_now tm s + timeout" s]
  obtain r t where rt: "wait_loop tm path (tm_now tm s + timeout) s = Some (r, t)"
    "is_ok r \<or> r = Inl (Errf ''socket not reachable: %s'' [path]) \<and> tm_now tm s + timeout \<le> tm_now tm t" by blast
  with wait_loop_success [OF rt(1)] show ?thesis
    by (cases r) (auto simp: waitForUnixSocket_def)
qed

lemma waitForUnixSocket_returns_witness:
  "\<exists>r t. waitForUnixSocket sim_timer ''/run/podman/podman.sock'' 10000000000 \<lparr>si_time = 5, si_dials = [False, True]\<rparr> = Some (r, t)"
  using waitForUnixSocket_returns [OF sim.clock_axioms, of "''/run/podman/podman.sock''" 10000000000] by blast

end
