(* ===== verification/LogRing.thy ===== *)
theory LogRing
  imports GoStrings
begin

text \<open>
  The ring of recent log lines (\<open>log.go\<close>).  The mutex makes each operation one step; the tee of
  the standard logger into the ring is \<open>io.MultiWriter\<close>.
\<close>

record logRing =
  lr_lines :: "string list"
  lr_max :: nat

definition edgecommanderLogTail :: nat where
  "edgecommanderLogTail = 100"

definition newLogRing :: "nat \<Rightarrow> logRing" where
  "newLogRing n = \<lparr>lr_lines = [], lr_max = n\<rparr>"

text \<open>\<open>Write\<close>: the number of bytes it reports, and the ring it leaves.\<close>

definition logRing_Write :: "string \<Rightarrow> logRing \<Rightarrow> nat \<times> logRing" where
  "logRing_Write p r =
     (let line = TrimRightChar p (CHR 0x0A); lines = lr_lines r @ [line] in
      (length p, r\<lparr>lr_lines := (if lr_max r < length lines then drop (length lines - lr_max r) lines else lines)\<rparr>))"

definition logRing_snapshot :: "logRing \<Rightarrow> string list" where
  "logRing_snapshot r = lr_lines r"

section \<open>The ring as the end of a list\<close>

text \<open>The abstract log is every line ever written; the ring shows the end of it.\<close>

locale recent_log =
  fixes put :: "'p \<Rightarrow> 'r \<Rightarrow> 'r" and lines_of :: "'r \<Rightarrow> 'l list" and line :: "'p \<Rightarrow> 'l"
    and bound :: "'r \<Rightarrow> nat" and fresh :: "'r \<Rightarrow> bool"
  assumes fresh_empty: "fresh r \<Longrightarrow> lines_of r = []"
    and bound_kept: "bound (put p r) = bound r"
    and put_line: "length (lines_of r) \<le> bound r \<Longrightarrow>
      lines_of (put p r) = drop (Suc (length (lines_of r)) - bound r) (lines_of r @ [line p])"
begin

definition shows_end :: "'l list \<Rightarrow> 'r \<Rightarrow> bool" where
  "shows_end ls r \<longleftrightarrow> lines_of r = drop (length ls - bound r) ls"

lemma shows_end_put:
  assumes "shows_end ls r"
  shows "shows_end (ls @ [line p]) (put p r)"
proof (cases "length ls \<le> bound r")
  case True
  with assms have "lines_of r = ls" by (simp add: shows_end_def)
  with True show ?thesis by (simp add: shows_end_def put_line bound_kept)
next
  case False
  with assms have "lines_of r = drop (length ls - bound r) ls" "length (lines_of r) = bound r"
    by (simp_all add: shows_end_def)
  with False show ?thesis
    by (cases "drop (length ls - bound r) ls")
       (simp_all add: shows_end_def put_line bound_kept Suc_diff_le drop_Suc tl_drop [symmetric] tl_append2)
qed

lemma shows_end_fold: "shows_end ls r \<Longrightarrow> shows_end (ls @ map line ps) (fold put ps r)"
proof (induction ps arbitrary: ls r)
  case (Cons p ps)
  from Cons.IH [OF shows_end_put [OF Cons.prems]] show ?case by simp
qed simp

lemma fresh_shows: "fresh r \<Longrightarrow> lines_of (fold put ps r) = drop (length ps - bound (fold put ps r)) (map line ps)"
  using shows_end_fold [of "[]" r ps] by (simp add: shows_end_def fresh_empty)

lemma bound_fold: "bound (fold put ps r) = bound r"
  by (induction ps arbitrary: r) (simp_all add: bound_kept)

end

interpretation ring: recent_log "\<lambda>p r. snd (logRing_Write p r)" logRing_snapshot "\<lambda>p. TrimRightChar p (CHR 0x0A)"
    lr_max "\<lambda>r. lr_lines r = []"
  by unfold_locales (auto simp: logRing_snapshot_def logRing_Write_def Let_def)

text \<open>C29: after any number of writes the snapshot is the most recent lines, oldest first, each
  without its line ends, and never more of them than the ring keeps.\<close>

theorem logRing_recent:
  "logRing_snapshot (fold (\<lambda>p r. snd (logRing_Write p r)) ps (newLogRing n)) =
     drop (length ps - n) (map (\<lambda>p. TrimRightChar p (CHR 0x0A)) ps) \<and>
   length (logRing_snapshot (fold (\<lambda>p r. snd (logRing_Write p r)) ps (newLogRing n))) \<le> n"
  using ring.fresh_shows [of "newLogRing n" ps] by (simp add: ring.bound_fold newLogRing_def)

end
