(* ===== verification/Provision.thy ===== *)
theory Provision
  imports Config Fileio Services
begin

text \<open>
  \<open>provision.go\<close>: the host name, the declared folders and the declared files.  The user database,
  the reading of the host name and the commands are parameters.
\<close>

section \<open>Operations\<close>

definition ensureHostname :: "('x host_scheme, string) io \<Rightarrow> 'x host_scheme runner \<Rightarrow> string \<Rightarrow> ('x host_scheme, unit) io" where
  "ensureHostname os_Hostname exec raw =
     (let hostname = TrimSpace raw in
      if hostname = [] then io_ok ()
      else io_bind (io_wrap (Wrapf ''read current hostname failed: %w'' []) os_Hostname) (\<lambda>current.
        if current = hostname then io_ok ()
        else io_then (io_wrap (Wrapf ''set hostname to %q failed: %w'' [hostname])
                (runCommand exec ''hostnamectl'' [''set-hostname'', hostname]))
              (logf ''hostname set to %s'' [hostname])))"

definition parseOptionalMode :: "string \<Rightarrow> string \<Rightarrow> string \<Rightarrow> nat option res" where
  "parseOptionalMode chmod kind_name label =
     (if chmod = [] then Inr None
      else res_bind (res_wrap (Wrapf ''invalid chmod %q for %s %s: %w'' [chmod, kind_name, label]) (parseFileMode chmod))
             (\<lambda>mode. Inr (Some mode)))"

definition parseOptionalOwner :: "users \<Rightarrow> string \<Rightarrow> string \<Rightarrow> string \<Rightarrow> (int \<times> int) res" where
  "parseOptionalOwner us user kind_name label =
     (if user = [] then Inr (-1, -1)
      else res_wrap (Wrapf ''invalid user %q for %s %s: %w'' [user, kind_name, label]) (parseOwner us user))"

definition ensureFolder :: "users \<Rightarrow> FolderConfig \<Rightarrow> string \<Rightarrow> ('x fs_scheme, unit) io" where
  "ensureFolder us folder label =
     (if fo_Path folder = [] then io_fail (Errf ''folder %s is missing path'' [label])
      else
        io_bind (io_lift (parseOptionalMode (fo_Chmod folder) ''folder'' label)) (\<lambda>mode.
        io_bind (io_lift (parseOptionalOwner us (fo_User folder) ''folder'' label)) (\<lambda>(uid, gid).
        io_then (io_wrap (Wrapf ''create folder %q failed: %w'' [fo_Path folder]) (os_MkdirAll (fo_Path folder) 493))
        (io_then (if uid \<noteq> -1 \<or> gid \<noteq> -1 then
            io_wrap (Wrapf ''set owner for folder %q failed: %w'' [fo_Path folder]) (os_Chown (fo_Path folder) uid gid)
          else io_ok ())
        (case mode of
           None \<Rightarrow> io_ok ()
         | Some m \<Rightarrow> io_wrap (Wrapf ''set chmod for folder %q failed: %w'' [fo_Path folder]) (os_Chmod (fo_Path folder) m))))))"

definition ensureFolders :: "users \<Rightarrow> FolderConfig list \<Rightarrow> ('x fs_scheme, unit) io" where
  "ensureFolders us folders =
     io_iter (\<lambda>(i, folder). ensureFolder us folder (labelOrIndex (fo_Path folder) i)) (enumerate 0 folders)"

definition ensureFile :: "users \<Rightarrow> FileConfig \<Rightarrow> string \<Rightarrow> ('x fs_scheme, unit) io" where
  "ensureFile us file label =
     (if fi_Path file = [] then io_fail (Errf ''file %s is missing path'' [label])
      else
        io_bind (io_lift (res_wrap (Wrapf ''decode content for file %s: %w'' [label]) (decodeFileContent file))) (\<lambda>content.
        io_bind (io_lift (parseOptionalMode (fi_Chmod file) ''file'' label)) (\<lambda>declared.
        let mode = (case declared of None \<Rightarrow> 420 | Some m \<Rightarrow> m) in
        io_bind (io_lift (parseOptionalOwner us (fi_User file) ''file'' label)) (\<lambda>(uid, gid).
        io_then (if Dir (fi_Path file) \<noteq> [] then
            io_wrap (Wrapf ''create parent dir for file %q failed: %w'' [fi_Path file]) (os_MkdirAll (Dir (fi_Path file)) 493)
          else io_ok ())
        (io_then (io_wrap (Wrapf ''write file %q failed: %w'' [fi_Path file]) (os_WriteFile (fi_Path file) content mode))
        (io_then (io_wrap (Wrapf ''set chmod for file %q failed: %w'' [fi_Path file]) (os_Chmod (fi_Path file) mode))
        (if uid \<noteq> -1 \<or> gid \<noteq> -1 then
           io_wrap (Wrapf ''set owner for file %q failed: %w'' [fi_Path file]) (os_Chown (fi_Path file) uid gid)
         else io_ok ())))))))"

definition ensureFiles :: "users \<Rightarrow> FileConfig list \<Rightarrow> ('x fs_scheme, unit) io" where
  "ensureFiles us files =
     io_iter (\<lambda>(i, file). ensureFile us file (labelOrIndex (fi_Path file) i)) (enumerate 0 files)"

section \<open>What the files end up as\<close>

text \<open>No two names lead to the same file.\<close>

definition sep :: "'x fs_scheme \<Rightarrow> bool" where
  "sep s \<longleftrightarrow> fs_wf s \<and> (\<forall>p q n. name_of s p = Some n \<longrightarrow> name_of s q = Some n \<longrightarrow> p = q)"

text \<open>Everything that was there, but for one name, is still there as it was.\<close>

definition kept_but :: "loc set \<Rightarrow> 'x fs_scheme \<Rightarrow> 'x fs_scheme \<Rightarrow> bool" where
  "kept_but P s t \<longleftrightarrow> sep t \<and> (\<forall>q. q \<notin> P \<longrightarrow> inode_at s q \<noteq> None \<longrightarrow> inode_at t q = inode_at s q)"

lemma kept_refl: "sep s \<Longrightarrow> kept_but P s s"
  by (simp add: kept_but_def)

lemma kept_mono: "kept_but P s t \<Longrightarrow> P \<subseteq> Q \<Longrightarrow> kept_but Q s t"
  by (auto simp: kept_but_def)

lemma kept_trans: "kept_but P s t \<Longrightarrow> kept_but P t u \<Longrightarrow> kept_but P s u"
  unfolding kept_but_def by metis

lemma sep_ctl [simp]: "sep (s\<lparr>fs_faults := a\<rparr>) = sep s" "sep (s\<lparr>fs_off := b\<rparr>) = sep s"
  by (simp_all add: sep_def)

lemma inode_at_ctl [simp]: "inode_at (s\<lparr>fs_faults := a\<rparr>) p = inode_at s p" "inode_at (s\<lparr>fs_off := b\<rparr>) p = inode_at s p"
  by (simp_all add: inode_at_def split: option.splits)

lemma kept_ctl [simp]: "kept_but P s (t\<lparr>fs_faults := a\<rparr>) = kept_but P s t" "kept_but P s (t\<lparr>fs_off := b\<rparr>) = kept_but P s t"
  by (simp_all add: kept_but_def)

lemma sep_create: "sep s \<Longrightarrow> sep (create_at p k m s)"
  using fs_wf_named [of s] fs_wf_bound [of s] by (fastforce simp: sep_def intro: fs_wf_create)

lemma inode_at_create:
  "fs_wf s \<Longrightarrow> inode_at (create_at p k m s) q = (if q = p then Some (new_inode k (masked s m)) else inode_at s q)"
  using fs_wf_named [of s q] fs_wf_bound [of s] by (fastforce simp: inode_at_def split: option.splits)

lemma kept_create: "kept_but P s t \<Longrightarrow> inode_at s p = None \<or> p \<in> P \<Longrightarrow> kept_but P s (create_at p k m t)"
  by (auto simp: kept_but_def sep_create inode_at_create sep_def [of t])

lemma inode_at_change:
  "sep s \<Longrightarrow> name_of s p = Some n \<Longrightarrow> inode_at (change n g s) q = (if q = p then map_option g (inode_at s p) else inode_at s q)"
  by (auto simp: inode_at_def sep_def split: option.splits)

lemma sep_change: "sep s \<Longrightarrow> sep (change n g s)"
  by (auto simp: sep_def)

lemma kept_change: "kept_but P s t \<Longrightarrow> name_of t p = Some n \<Longrightarrow> p \<in> P \<Longrightarrow> kept_but P s (change n g t)"
  by (auto simp: kept_but_def sep_change inode_at_change)

lemma kept_create_new: "kept_but P s t \<Longrightarrow> inode_at t p = None \<Longrightarrow> kept_but P s (create_at p k m t)"
  by (auto simp: kept_but_def sep_create inode_at_create sep_def [of t])

lemma Mkdir_keeps: "io_keeps (kept_but P s) (os_Mkdir q m)"
  unfolding os_Mkdir_def
  by (rule keeps_syscall) (auto split: if_splits simp: kept_create_new)

lemma Stat_keeps: "io_keeps (kept_but P s) (os_Stat q)"
  unfolding os_Stat_def by (rule keeps_syscall) (auto split: if_splits option.splits)

lemma mkdir_all_keeps: "io_keeps (kept_but P s) (mkdir_all r m)"
  by (induction r) (simp_all only: mkdir_all.simps, (assumption | rule keep_rules Mkdir_keeps Stat_keeps)+)

lemma MkdirAll_keeps: "io_keeps (kept_but P s) (os_MkdirAll p m)"
  unfolding os_MkdirAll_def by (intro keep_rules mkdir_all_keeps)

lemma Stat_dir: "os_Stat p s = (Inr i, t) \<Longrightarrow> ino_kind i = Folder \<Longrightarrow> is_dir t p"
  unfolding os_Stat_def by (erule syscall_cases) (auto simp: is_dir_def split: if_splits option.splits)

lemma Mkdir_dir: "os_Mkdir p m s = (Inr u, t) \<Longrightarrow> is_dir t p"
  unfolding os_Mkdir_def
  by (erule syscall_cases) (auto simp: is_dir_def inode_at_def new_inode_def split: if_splits)

lemma mkdir_all_dir:
  assumes "mkdir_all r m s = (Inr u, t)"
  shows "is_dir t (rev r)"
proof (cases r)
  case (Cons c r')
  let ?p = "rev r' @ [c]"
  obtain st s1 where 1: "os_Stat ?p s = (st, s1)" by (cases "os_Stat ?p s")
  show ?thesis
  proof (cases st)
    case (Inr i)
    with assms 1 have "t = s1" "ino_kind i = Folder" by (auto simp: Cons success_simps split: if_splits)
    with Stat_dir [OF 1 [unfolded Inr]] show ?thesis by (simp add: Cons)
  next
    case (Inl e)
    obtain r2 s2 where 2: "mkdir_all r' m s1 = (r2, s2)" by (cases "mkdir_all r' m s1")
    with assms 1 Inl have r2: "r2 = Inr ()" by (cases r2) (auto simp: Cons io_laws)
    obtain mk s3 where 3: "os_Mkdir ?p m s2 = (mk, s3)" by (cases "os_Mkdir ?p m s2")
    show ?thesis
    proof (cases mk)
      case (Inr v)
      with assms 1 2 3 Inl r2 have "t = s3" by (simp add: Cons io_laws)
      with Mkdir_dir [OF 3 [unfolded Inr]] show ?thesis by (simp add: Cons)
    next
      case mk: (Inl e')
      obtain l s4 where 4: "os_Stat ?p s3 = (l, s4)" by (cases "os_Stat ?p s3")
      with assms 1 2 3 Inl r2 mk obtain i where "l = Inr i" "ino_kind i = Folder" "t = s4"
        by (cases l) (auto simp: Cons io_laws split: if_splits)
      with Stat_dir 4 show ?thesis by (auto simp: Cons)
    qed
  qed
qed (simp add: is_dir_def)

lemma MkdirAll_dir: "os_MkdirAll p m s = (Inr u, t) \<Longrightarrow> is_dir t (resolve p)"
  by (auto simp: os_MkdirAll_def split: if_splits dest: mkdir_all_dir)

text \<open>The calls that write one file, when they succeed.\<close>

lemma open_trunc_run:
  assumes "open_trunc p m s = (Inr f, t)" "sep s"
  shows "kept_but {p} s t \<and> name_of t p = Some f \<and> (\<exists>i. inode_at t p = Some i \<and> ino_data i = [])"
  using assms(1) unfolding open_trunc_def
proof (cases rule: syscall_cases)
  case (ran fs)
  let ?s = "s\<lparr>fs_faults := fs\<rparr>"
  have s: "sep ?s" "kept_but {p} s ?s" "fs_wf ?s" using assms(2) by (simp_all add: kept_refl sep_def)
  show ?thesis
  proof (cases "name_of s p")
    case None
    with ran s show ?thesis
      by (auto simp: kept_create inode_at_create new_inode_def split: if_splits)
  next
    case (Some n)
    then obtain i where "inode_at s p = Some i"
      using fs_wf_named [of s p n] assms(2) by (auto simp: inode_at_def sep_def)
    with Some ran s show ?thesis
      by (auto simp: kept_change inode_at_change split: if_splits)
  qed
qed simp_all

lemma change_run:
  assumes "syscall part (\<lambda>s. (Inr (), change f g s)) s = (Inr u, t)" "sep s" "name_of s p = Some f"
  shows "kept_but {p} s t \<and> name_of t p = Some f \<and> inode_at t p = map_option g (inode_at s p)"
  using assms(1)
proof (cases rule: syscall_cases)
  case (ran fs)
  have "sep (s\<lparr>fs_faults := fs\<rparr>)" "kept_but {p} s (s\<lparr>fs_faults := fs\<rparr>)" using assms(2) by (simp_all add: kept_refl)
  with ran assms(3) show ?thesis by (auto simp: kept_change inode_at_change)
qed simp_all

lemma Close_run: "file_Close f s = (r, t) \<Longrightarrow> sep s \<Longrightarrow> kept_but {} s t \<and> (\<forall>p. inode_at t p = inode_at s p)"
  unfolding file_Close_def by (erule syscall_cases) (auto simp: kept_refl)

lemma WriteFile_run:
  assumes run: "os_WriteFile path b m s = (Inr u, t)" and s: "sep s"
  shows "kept_but {resolve path} s t \<and> (\<exists>i. inode_at t (resolve path) = Some i \<and> ino_data i = b)"
proof -
  let ?p = "resolve path"
  from run obtain f s1 w s2 c s3 where 1: "open_trunc ?p m s = (Inr f, s1)" and 2: "file_Write f b s1 = (w, s2)"
    and 3: "file_Close f s2 = (c, s3)" and fin: "(if is_ok w then c else w) = Inr u" "t = s3"
    by (auto simp: os_WriteFile_def success_simps)
  from fin(1) obtain x where w: "w = Inr x" by (auto simp: is_ok_iff split: if_splits)
  note o = open_trunc_run [OF 1 s]
  have "sep s1" using o by (simp add: kept_but_def)
  note wr = change_run [OF 2 [unfolded w file_Write_def] this, of ?p]
  have "sep s2" using wr o by (simp add: kept_but_def)
  note cl = Close_run [OF 3 this]
  have "kept_but {?p} s s3"
    using kept_trans [OF kept_trans, of "{?p}" s s1 s2 s3] o wr kept_mono [of "{}" s2 s3 "{?p}"] cl by auto
  with o wr cl fin(2) show ?thesis by auto
qed

lemma named_run:
  assumes "syscall nothing (\<lambda>s. case name_of s p of None \<Rightarrow> (Inl (err s), s) | Some n \<Rightarrow> (Inr (), change n g s)) s = (Inr u, t)"
    and "sep s"
  shows "kept_but {p} s t \<and> inode_at t p = map_option g (inode_at s p) \<and> inode_at s p \<noteq> None"
  using assms(1)
proof (cases rule: syscall_cases)
  case (ran fs)
  have s: "sep (s\<lparr>fs_faults := fs\<rparr>)" "kept_but {p} s (s\<lparr>fs_faults := fs\<rparr>)" using assms(2) by (simp_all add: kept_refl)
  from ran obtain n where n: "name_of s p = Some n" by (cases "name_of s p") auto
  moreover have "inode_at s p \<noteq> None" using n fs_wf_named [of s p n] assms(2) by (simp add: inode_at_def sep_def)
  ultimately show ?thesis using ran s by (auto simp: kept_change inode_at_change)
qed simp_all

lemma Chmod_run:
  "os_Chmod path m s = (Inr u, t) \<Longrightarrow> sep s \<Longrightarrow> kept_but {resolve path} s t \<and>
    inode_at t (resolve path) = map_option (\<lambda>i. i\<lparr>ino_mode := syscallMode m, ino_synced := False\<rparr>) (inode_at s (resolve path)) \<and>
    inode_at s (resolve path) \<noteq> None"
  unfolding os_Chmod_def by (rule named_run)

lemma Chown_run:
  "os_Chown path uid gid s = (Inr u, t) \<Longrightarrow> sep s \<Longrightarrow> kept_but {resolve path} s t \<and>
    inode_at t (resolve path) = map_option (\<lambda>i. i\<lparr>ino_uid := (if uid = -1 then ino_uid i else uid),
         ino_gid := (if gid = -1 then ino_gid i else gid), ino_synced := False\<rparr>) (inode_at s (resolve path)) \<and>
    inode_at s (resolve path) \<noteq> None"
  unfolding os_Chown_def by (rule named_run)

text \<open>What a declaration asks for; only the permission bits of a mode reach the file.\<close>

definition owner_matches :: "users \<Rightarrow> string \<Rightarrow> inode \<Rightarrow> bool" where
  "owner_matches us user i \<longleftrightarrow> (if user = [] then True else
     (case parseOwner us user of
        Inl _ \<Rightarrow> False
      | Inr (uid, gid) \<Rightarrow> (uid = -1 \<or> ino_uid i = uid) \<and> (gid = -1 \<or> ino_gid i = gid)))"

definition mode_matches :: "nat option \<Rightarrow> string \<Rightarrow> inode \<Rightarrow> bool" where
  "mode_matches fallback chmod i \<longleftrightarrow>
     (if chmod = [] then (case fallback of None \<Rightarrow> True | Some m \<Rightarrow> ino_mode i = m)
      else (case parseFileMode chmod of Inl _ \<Rightarrow> False | Inr m \<Rightarrow> ino_mode i = m mod 512))"

definition file_matches :: "users \<Rightarrow> FileConfig \<Rightarrow> inode \<Rightarrow> bool" where
  "file_matches us f i \<longleftrightarrow> decodeFileContent f = Inr (ino_data i) \<and> mode_matches (Some 420) (fi_Chmod f) i \<and>
     owner_matches us (fi_User f) i"

lemma syscallMode_small: "m < 4096 \<Longrightarrow> syscallMode m = m mod 512"
  by (simp add: syscallMode_def)

lemma optional_mode:
  "parseOptionalMode c k l = Inr d \<Longrightarrow> d = None \<and> c = [] \<or> (\<exists>m. d = Some m \<and> c \<noteq> [] \<and> parseFileMode c = Inr m \<and> m < 4096)"
  by (auto simp: parseOptionalMode_def res_bind_Inr_iff dest: parseFileMode_bound split: if_splits)

lemma optional_owner:
  "parseOptionalOwner us u k l = Inr (uid, gid) \<Longrightarrow> u = [] \<and> uid = -1 \<and> gid = -1 \<or> u \<noteq> [] \<and> parseOwner us u = Inr (uid, gid)"
  by (auto simp: parseOptionalOwner_def split: if_splits)

lemma chown_step:
  assumes "(if uid \<noteq> -1 \<or> gid \<noteq> -1 then io_wrap g (os_Chown path uid gid) else io_ok ()) s = (Inr u, t)"
    and "sep s" "inode_at s (resolve path) = Some i"
  shows "kept_but {resolve path} s t \<and> (\<exists>j. inode_at t (resolve path) = Some j \<and> ino_data j = ino_data i \<and>
    ino_mode j = ino_mode i \<and> ino_kind j = ino_kind i \<and> (uid = -1 \<or> ino_uid j = uid) \<and> (gid = -1 \<or> ino_gid j = gid))"
proof (cases "uid \<noteq> -1 \<or> gid \<noteq> -1")
  case True
  with assms(1) have "os_Chown path uid gid s = (Inr u, t)" by (auto simp: wrap_success)
  from Chown_run [OF this assms(2)] assms(3) show ?thesis by auto
next
  case False
  with assms show ?thesis by (auto simp: kept_refl)
qed

lemma ensureFile_run:
  assumes run: "ensureFile us f label s = (Inr u, t)" and s: "sep s"
  shows "kept_but {resolve (fi_Path f)} s t \<and>
    (\<exists>i. inode_at t (resolve (fi_Path f)) = Some i \<and> file_matches us f i)"
proof -
  let ?p = "resolve (fi_Path f)"
  from run obtain c d uid gid s1 s2 s3 where
    c: "decodeFileContent f = Inr c" "parseOptionalMode (fi_Chmod f) ''file'' label = Inr d"
      "parseOptionalOwner us (fi_User f) ''file'' label = Inr (uid, gid)"
    and 1: "os_MkdirAll (Dir (fi_Path f)) 493 s = (Inr (), s1)"
    and 2: "os_WriteFile (fi_Path f) c (case d of None \<Rightarrow> 420 | Some m \<Rightarrow> m) s1 = (Inr (), s2)"
    and 3: "os_Chmod (fi_Path f) (case d of None \<Rightarrow> 420 | Some m \<Rightarrow> m) s2 = (Inr (), s3)"
    and 4: "(if uid \<noteq> -1 \<or> gid \<noteq> -1 then io_wrap (Wrapf ''set owner for file %q failed: %w'' [fi_Path f])
        (os_Chown (fi_Path f) uid gid) else io_ok ()) s3 = (Inr u, t)"
    by (auto simp: ensureFile_def success_simps Let_def split: if_splits)
  have k1: "kept_but {?p} s s1"
    using kept_mono [OF io_keepsD [OF MkdirAll_keeps kept_refl [OF s] 1]] by blast
  then have "sep s1" by (simp add: kept_but_def)
  from WriteFile_run [OF 2 this] obtain i where k2: "kept_but {?p} s1 s2" "inode_at s2 ?p = Some i" "ino_data i = c" by blast
  then have "sep s2" by (simp add: kept_but_def)
  from Chmod_run [OF 3 this] k2(2) have k3: "kept_but {?p} s2 s3"
      "inode_at s3 ?p = Some (i\<lparr>ino_mode := syscallMode (case d of None \<Rightarrow> 420 | Some m \<Rightarrow> m), ino_synced := False\<rparr>)" by auto
  then have "sep s3" by (simp add: kept_but_def)
  from chown_step [OF 4 this k3(2)] obtain j where k4: "kept_but {?p} s3 t" "inode_at t ?p = Some j" "ino_data j = c"
      "ino_mode j = syscallMode (case d of None \<Rightarrow> 420 | Some m \<Rightarrow> m)" "uid = -1 \<or> ino_uid j = uid" "gid = -1 \<or> ino_gid j = gid"
    using k2(3) by auto
  have "mode_matches (Some 420) (fi_Chmod f) j"
    using optional_mode [OF c(2)] k4(4) by (auto simp: mode_matches_def syscallMode_small)
  moreover have "owner_matches us (fi_User f) j"
    using optional_owner [OF c(3)] k4(5,6) by (auto simp: owner_matches_def)
  ultimately have "file_matches us f j" using c(1) k4(3) by (simp add: file_matches_def)
  with kept_trans [OF kept_trans [OF kept_trans [OF k1 k2(1)] k3(1)] k4(1)] k4(2) show ?thesis by blast
qed

definition folder_matches :: "users \<Rightarrow> FolderConfig \<Rightarrow> inode \<Rightarrow> bool" where
  "folder_matches us f i \<longleftrightarrow> ino_kind i = Folder \<and> mode_matches None (fo_Chmod f) i \<and> owner_matches us (fo_User f) i"

lemma ensureFolder_run:
  assumes run: "ensureFolder us f label s = (Inr u, t)" and s: "sep s" and p: "resolve (fo_Path f) \<noteq> []"
  shows "kept_but {resolve (fo_Path f)} s t \<and>
    (\<exists>i. inode_at t (resolve (fo_Path f)) = Some i \<and> folder_matches us f i)"
proof -
  let ?p = "resolve (fo_Path f)"
  from run obtain d uid gid s1 s2 where
    c: "parseOptionalMode (fo_Chmod f) ''folder'' label = Inr d" "parseOptionalOwner us (fo_User f) ''folder'' label = Inr (uid, gid)"
    and 1: "os_MkdirAll (fo_Path f) 493 s = (Inr (), s1)"
    and 2: "(if uid \<noteq> -1 \<or> gid \<noteq> -1 then io_wrap (Wrapf ''set owner for folder %q failed: %w'' [fo_Path f])
        (os_Chown (fo_Path f) uid gid) else io_ok ()) s1 = (Inr (), s2)"
    and 3: "(case d of None \<Rightarrow> io_ok () | Some m \<Rightarrow> io_wrap (Wrapf ''set chmod for folder %q failed: %w'' [fo_Path f])
        (os_Chmod (fo_Path f) m)) s2 = (Inr u, t)"
    by (auto simp: ensureFolder_def success_simps split: if_splits)
  have k1: "kept_but {?p} s s1"
    using kept_mono [OF io_keepsD [OF MkdirAll_keeps kept_refl [OF s] 1]] by blast
  then have "sep s1" by (simp add: kept_but_def)
  from MkdirAll_dir [OF 1] p obtain i where i: "inode_at s1 ?p = Some i" "ino_kind i = Folder"
    by (auto simp: is_dir_def split: option.splits)
  from chown_step [OF 2 \<open>sep s1\<close> i(1)] obtain j where j: "kept_but {?p} s1 s2" "inode_at s2 ?p = Some j" "ino_kind j = Folder"
      "uid = -1 \<or> ino_uid j = uid" "gid = -1 \<or> ino_gid j = gid" using i(2) by auto
  then have "sep s2" by (simp add: kept_but_def)
  have "kept_but {?p} s2 t \<and> (\<exists>k. inode_at t ?p = Some k \<and> ino_kind k = Folder \<and> ino_uid k = ino_uid j \<and> ino_gid k = ino_gid j \<and>
      mode_matches None (fo_Chmod f) k)"
  proof (cases d)
    case None
    with 3 j \<open>sep s2\<close> optional_mode [OF c(1)] show ?thesis by (auto simp: kept_refl mode_matches_def)
  next
    case (Some m)
    with 3 have "os_Chmod (fo_Path f) m s2 = (Inr u, t)" by (simp add: wrap_success)
    from Chmod_run [OF this \<open>sep s2\<close>] j Some optional_mode [OF c(1)] show ?thesis
      by (auto simp: mode_matches_def syscallMode_small)
  qed
  then obtain k where k: "kept_but {?p} s2 t" "inode_at t ?p = Some k" "ino_kind k = Folder" "ino_uid k = ino_uid j"
      "ino_gid k = ino_gid j" "mode_matches None (fo_Chmod f) k" by blast
  then have "folder_matches us f k"
    using optional_owner [OF c(2)] j(4,5) by (auto simp: folder_matches_def owner_matches_def)
  with kept_trans [OF kept_trans [OF k1 j(1)] k(1)] k(2) show ?thesis by blast
qed

text \<open>A loop of steps, each of which settles one name and leaves the others.\<close>

lemma settle_loop:
  assumes step: "\<And>x l s t u. x \<in> set xs \<Longrightarrow> act x l s = (Inr u, t) \<Longrightarrow> sep s \<Longrightarrow>
      kept_but {path x} s t \<and> (\<exists>i. inode_at t (path x) = Some i \<and> M x i)"
    and "io_iter (\<lambda>(i, x). act x (lbl x i)) (enumerate n xs) s = (Inr u, t)" "sep s" "distinct (map path xs)"
  shows "kept_but (path ` set xs) s t \<and> (\<forall>x \<in> set xs. \<exists>i. inode_at t (path x) = Some i \<and> M x i)"
  using assms
proof (induction xs arbitrary: n s)
  case Nil
  then show ?case by (simp add: kept_refl)
next
  case (Cons x xs)
  from Cons.prems(2) obtain s1 where 1: "act x (lbl x n) s = (Inr (), s1)"
    and 2: "io_iter (\<lambda>(i, x). act x (lbl x i)) (enumerate (Suc n) xs) s1 = (Inr u, t)"
    by (auto simp: then_success)
  from Cons.prems(1) [OF _ 1 Cons.prems(3)] obtain i where i: "kept_but {path x} s s1" "inode_at s1 (path x) = Some i" "M x i"
    by auto
  have "sep s1" using i(1) by (simp add: kept_but_def)
  from Cons.IH [OF Cons.prems(1) 2 this] Cons.prems(4)
  have ih: "kept_but (path ` set xs) s1 t" "\<forall>y \<in> set xs. \<exists>i. inode_at t (path y) = Some i \<and> M y i" by auto
  have "inode_at t (path x) = Some i" using ih(1) i(2) Cons.prems(4) by (auto simp: kept_but_def)
  moreover have "kept_but (path ` set (x # xs)) s t"
    by (rule kept_trans [OF kept_mono [OF i(1)] kept_mono [OF ih(1)]]) auto
  ultimately show ?case using ih(2) i(3) by auto
qed

text \<open>When the declared files have been ensured, each of them holds its decoded content and has
  the declared owner and the permission bits of the declared mode (0644 when none is declared), and
  nothing else that was there has changed.\<close>

lemma ensureFiles_applied:
  assumes "sep s" "distinct (map (\<lambda>f. resolve (fi_Path f)) files)" "ensureFiles us files s = (Inr u, t)"
  shows "list_all (\<lambda>f. case inode_at t (resolve (fi_Path f)) of None \<Rightarrow> False | Some i \<Rightarrow> file_matches us f i) files \<and>
    kept_but (set (map (\<lambda>f. resolve (fi_Path f)) files)) s t"
proof -
  have "io_iter (\<lambda>(i, f). ensureFile us f (labelOrIndex (fi_Path f) i)) (enumerate 0 files) s = (Inr u, t)"
    using assms(3) by (simp add: ensureFiles_def)
  note loop = this
  have "kept_but ((\<lambda>f. resolve (fi_Path f)) ` set files) s t \<and>
      (\<forall>f \<in> set files. \<exists>i. inode_at t (resolve (fi_Path f)) = Some i \<and> file_matches us f i)"
    by (rule settle_loop [where act = "ensureFile us" and path = "\<lambda>f. resolve (fi_Path f)", OF _ loop assms(1,2)]) (rule ensureFile_run)
  then show ?thesis by (auto simp: list_all_iff split: option.splits)
qed

text \<open>When the declared folders have been ensured, each of them is a directory with the
  declared owner and the permission bits of the declared mode, and nothing else has changed.\<close>

lemma ensureFolders_applied:
  assumes "sep s" "distinct (map (\<lambda>f. resolve (fo_Path f)) folders)" "list_all (\<lambda>f. resolve (fo_Path f) \<noteq> []) folders"
    and "ensureFolders us folders s = (Inr u, t)"
  shows "list_all (\<lambda>f. case inode_at t (resolve (fo_Path f)) of None \<Rightarrow> False | Some i \<Rightarrow> folder_matches us f i) folders \<and>
    kept_but (set (map (\<lambda>f. resolve (fo_Path f)) folders)) s t"
proof -
  have "io_iter (\<lambda>(i, f). ensureFolder us f (labelOrIndex (fo_Path f) i)) (enumerate 0 folders) s = (Inr u, t)"
    using assms(4) by (simp add: ensureFolders_def)
  note loop = this
  have "kept_but ((\<lambda>f. resolve (fo_Path f)) ` set folders) s t \<and>
      (\<forall>f \<in> set folders. \<exists>i. inode_at t (resolve (fo_Path f)) = Some i \<and> folder_matches us f i)"
    by (rule settle_loop [where act = "ensureFolder us" and path = "\<lambda>f. resolve (fo_Path f)", OF _ loop assms(1,2)])
       (rule ensureFolder_run, use assms(3) in \<open>auto simp: list_all_iff\<close>)
  then show ?thesis by (auto simp: list_all_iff split: option.splits)
qed

section \<open>Sample data\<close>

lemma sample_fs_sep: "sep (sample_fs faults)"
  using sample_fs_wf by (auto simp: sep_def sample_fs_def name_of_def split: if_splits)

definition sample_users :: users where
  "sample_users = \<lparr>us_Lookup = (\<lambda>_. Inr (''10'', ''20'')), us_LookupGroup = (\<lambda>_. Inr ''30'')\<rparr>"

definition sample_files :: "FileConfig list" where
  "sample_files = [\<lparr>fi_Path = ''/etc/app/a.conf'', fi_Chmod = ''4755'', fi_User = ''core:adm'', fi_Content = ''x'', fi_Encoding = []\<rparr>,
     \<lparr>fi_Path = ''/etc/ec.json'', fi_Chmod = [], fi_User = [], fi_Content = ''{}'', fi_Encoding = ''plain''\<rparr>]"

lemma run_pair: "fst (m s) = r \<Longrightarrow> m s = (r, snd (m s))"
  by (metis prod.collapse)

lemma ensureFiles_applied_witness:
  "case inode_at (snd (ensureFiles sample_users sample_files (sample_fs []))) [''etc'', ''app'', ''a.conf''] of
     None \<Rightarrow> False | Some i \<Rightarrow> file_matches sample_users (hd sample_files) i"
proof -
  have run: "ensureFiles sample_users sample_files (sample_fs []) = (Inr (), snd (ensureFiles sample_users sample_files (sample_fs [])))"
    by (rule run_pair) code_simp
  have "distinct (map (\<lambda>f. resolve (fi_Path f)) sample_files)" by code_simp
  from ensureFiles_applied [OF sample_fs_sep this run]
  have "list_all (\<lambda>f. case inode_at (snd (ensureFiles sample_users sample_files (sample_fs []))) (resolve (fi_Path f)) of
      None \<Rightarrow> False | Some i \<Rightarrow> file_matches sample_users f i) sample_files" by blast
  moreover have "resolve (fi_Path (hd sample_files)) = [''etc'', ''app'', ''a.conf'']" by code_simp
  moreover have "sample_files = hd sample_files # tl sample_files" by (simp add: sample_files_def)
  ultimately show ?thesis by (metis list.pred_inject(2))
qed

text \<open>A mode above 0777 is accepted, but its set-user-id, set-group-id and sticky bits never
  reach the file: a file declared with such a mode ends without them.\<close>

lemma ensureFile_special_bits:
  assumes "sep s" "fi_Chmod f \<noteq> []" "parseFileMode (fi_Chmod f) = Inr m" "512 \<le> m"
    and "ensureFile us f label s = (Inr u, t)"
  shows "m \<le> 4095 \<and> (\<exists>i. inode_at t (resolve (fi_Path f)) = Some i \<and> ino_mode i = m mod 512 \<and> ino_mode i \<noteq> m)"
proof -
  have "m < 4096" using assms(3) by (rule parseFileMode_bound)
  moreover obtain i where "inode_at t (resolve (fi_Path f)) = Some i" "file_matches us f i"
    using ensureFile_run [OF assms(5,1)] by blast
  moreover have "m mod 512 \<noteq> m" using assms(4) by simp
  ultimately show ?thesis using assms(2,3) by (auto simp: file_matches_def mode_matches_def)
qed

lemma ensureFile_special_bits_witness:
  "\<exists>i. inode_at (snd (ensureFile sample_users (hd sample_files) ''l'' (sample_fs []))) [''etc'', ''app'', ''a.conf''] = Some i \<and>
     ino_mode i = 493"
proof -
  have run: "ensureFile sample_users (hd sample_files) ''l'' (sample_fs []) =
      (Inr (), snd (ensureFile sample_users (hd sample_files) ''l'' (sample_fs [])))"
    by (rule run_pair) code_simp
  have "fi_Chmod (hd sample_files) \<noteq> []" "parseFileMode (fi_Chmod (hd sample_files)) = Inr 2541" by code_simp+
  moreover have "resolve (fi_Path (hd sample_files)) = [''etc'', ''app'', ''a.conf'']" by code_simp
  ultimately show ?thesis using ensureFile_special_bits [OF sample_fs_sep _ _ _ run, of 2541] by auto
qed

lemma ensureFolders_applied_witness:
  "case inode_at (snd (ensureFolders sample_users [\<lparr>fo_Path = ''/etc/app'', fo_Chmod = ''0750'', fo_User = ''core''\<rparr>] (sample_fs []))) [''etc'', ''app''] of
     None \<Rightarrow> False | Some i \<Rightarrow> ino_kind i = Folder"
proof -
  let ?f = "\<lparr>fo_Path = ''/etc/app'', fo_Chmod = ''0750'', fo_User = ''core''\<rparr>"
  have run: "ensureFolders sample_users [?f] (sample_fs []) = (Inr (), snd (ensureFolders sample_users [?f] (sample_fs [])))"
    by (rule run_pair) code_simp
  have p: "resolve (fo_Path ?f) = [''etc'', ''app'']" by code_simp
  have d: "distinct (map (\<lambda>f. resolve (fo_Path f)) [?f])" by simp
  have r: "list_all (\<lambda>f. resolve (fo_Path f) \<noteq> []) [?f]" using p by simp
  from ensureFolders_applied [OF sample_fs_sep d r run] p
  show ?thesis by (auto simp: folder_matches_def split: option.splits)
qed

end
