(* ===== verification/NetworkApply.thy ===== *)
theory NetworkApply
  imports Network Fileio Services
begin

text \<open>
  The effects of \<open>network.go\<close>: writing the nmstate document, applying it with \<open>nmstatectl\<close> and
  putting it in place, and the transmit queue lengths.  The JSON encoder, the netlink calls and the
  commands are parameters; what the code relies on of them is the locale \<open>host_tools\<close>.
\<close>

section \<open>Operations\<close>

type_synonym link = nat

record 's netlink =
  nl_LinkByName :: "string \<Rightarrow> ('s, link) io"
  nl_LinkSetTxQLen :: "link \<Rightarrow> int \<Rightarrow> ('s, unit) io"

definition nmstateStatePath :: string where
  "nmstateStatePath = ''/etc/nmstate/edgecommander.yml''"

definition nmstateApplyTimeout :: nat where
  "nmstateApplyTimeout = 60"

definition removeNMStateDocument :: "('x fs_scheme, unit) io" where
  "removeNMStateDocument = io_bind (io_try (os_Remove nmstateStatePath)) (\<lambda>r.
     case r of
       Inl e \<Rightarrow> if e \<noteq> ErrNotExist then io_fail (Wrapf ''remove stale nmstate document %q failed: %w'' [nmstateStatePath] e)
                else io_ok ()
     | Inr _ \<Rightarrow> io_ok ())"

definition applyTxQueueLength :: "'x host_scheme netlink \<Rightarrow> InterfaceConfig \<Rightarrow> ('x host_scheme, unit) io" where
  "applyTxQueueLength nl iface =
     (case if_TxQueueLen iface of
        None \<Rightarrow> io_ok ()
      | Some len \<Rightarrow>
          io_bind (io_wrap (Wrapf ''look up interface %q to set txqueuelen: %w'' [if_Name iface])
              (nl_LinkByName nl (if_Name iface))) (\<lambda>link.
          io_then (io_wrap (Wrapf ''set txqueuelen for interface %q: %w'' [if_Name iface]) (nl_LinkSetTxQLen nl link len))
            (logf ''set txqueuelen %d on interface %s'' [Itoa len, if_Name iface])))"

definition applyTxQueueLengths :: "'x host_scheme netlink \<Rightarrow> InterfaceConfig list \<Rightarrow> ('x host_scheme, unit) io" where
  "applyTxQueueLengths nl interfaces = io_iter (applyTxQueueLength nl) interfaces"

text \<open>What follows the creation of the temporary document.\<close>

definition nmstate_steps :: "'x fs_scheme runner \<Rightarrow> 'x fs_scheme netlink \<Rightarrow> InterfaceConfig list \<Rightarrow> string \<Rightarrow> string \<Rightarrow>
    nat \<Rightarrow> ('x fs_scheme, unit) io" where
  "nmstate_steps exec nl interfaces document tmpPath tmp =
     io_then (or_close tmp (Wrapf ''write temp nmstate document %q failed: %w'' [tmpPath]) (file_Write tmp document))
     (io_then (or_close tmp (Wrapf ''chmod temp nmstate document %q failed: %w'' [tmpPath]) (file_Chmod tmp 420))
     (io_then (or_close tmp (Wrapf ''sync temp nmstate document %q failed: %w'' [tmpPath]) (file_Sync tmp))
     (io_then (io_wrap (Wrapf ''close temp nmstate document %q failed: %w'' [tmpPath]) (file_Close tmp))
     (io_then (io_wrap (Wrapf ''apply host interface configuration failed: %w'' [])
         (runCommandOutput exec ''nmstatectl'' [''apply'', ''--timeout'', nat_string 10 nmstateApplyTimeout, tmpPath]))
     (io_then (io_wrap (Wrapf ''commit nmstate document to %q failed: %w'' [nmstateStatePath]) (os_Rename tmpPath nmstateStatePath))
     (io_then (io_wrap (Wrapf ''sync nmstate dir failed: %w'' []) (syncDir (Dir nmstateStatePath)))
       (applyTxQueueLengths nl interfaces)))))))"

definition configureHostInterfaces :: "(nmState \<Rightarrow> string res) \<Rightarrow> 'x fs_scheme runner \<Rightarrow> 'x fs_scheme netlink \<Rightarrow>
    InterfaceConfig list \<Rightarrow> RouteConfig list \<Rightarrow> ('x fs_scheme, unit) io" where
  "configureHostInterfaces json exec nl interfaces routes =
     (if interfaces = [] \<and> routes = [] then removeNMStateDocument
      else
        io_bind (io_lift (buildNMState interfaces routes)) (\<lambda>state.
        io_bind (io_lift (res_wrap (Wrapf ''marshal nmstate document failed: %w'' []) (json state))) (\<lambda>document.
        io_then (io_wrap (Wrapf ''create nmstate dir %q failed: %w'' [Dir nmstateStatePath]) (os_MkdirAll (Dir nmstateStatePath) 493))
        (io_bind (io_wrap (Wrapf ''create temp nmstate document in %q failed: %w'' [Dir nmstateStatePath])
            (os_CreateTemp (Dir nmstateStatePath) ''.edgecommander.*.yml.tmp'')) (\<lambda>(tmpPath, tmp).
         io_finally (nmstate_steps exec nl interfaces document tmpPath tmp) (os_Remove tmpPath))))))"

section \<open>What the code relies on of the tools\<close>

text \<open>The files of the process, as far as it manages them, are the same in two states.\<close>

definition same_files :: "'x fs_scheme \<Rightarrow> 'x fs_scheme \<Rightarrow> bool" where
  "same_files s t \<longleftrightarrow> fs_names t = fs_names s \<and> fs_disk t = fs_disk s \<and> fs_inodes t = fs_inodes s \<and> fs_next t = fs_next s"

text \<open>A run of \<open>nmstatectl\<close> on a file with this document, that ended without an error.\<close>

definition nmstate_accepted :: "'x fs_scheme runner \<Rightarrow> string \<Rightarrow> bool" where
  "nmstate_accepted exec document \<longleftrightarrow> (\<exists>tmpPath s. reads s (resolve tmpPath) = Some document \<and>
     oc_err (fst (exec ''nmstatectl'' [''apply'', ''--timeout'', ''60'', tmpPath] s)) = None)"

text \<open>Neither \<open>nmstatectl\<close> nor a netlink call changes the files the service manages.\<close>

locale host_tools =
  fixes exec :: "'x fs_scheme runner" and nl :: "'x fs_scheme netlink"
  assumes exec_files: "exec name args s = (oc, t) \<Longrightarrow> same_files s t"
    and link_files: "nl_LinkByName nl n s = (r, t) \<Longrightarrow> same_files s t"
    and txqlen_files: "nl_LinkSetTxQLen nl l q s = (r', t) \<Longrightarrow> same_files s t"
begin

lemma same_files_name: "same_files s t \<Longrightarrow> name_of t p = name_of s p"
  by (simp add: same_files_def name_of_def)

lemma staged_same: "staged p s q f i t \<Longrightarrow> same_files t u \<Longrightarrow> staged p s q f i u"
  using same_files_name [of t u] by (auto simp: staged_def untouched_def same_files_def fs_wf_def)

lemma done_same: "replaced p d s t \<and> lasting p t \<Longrightarrow> same_files t u \<Longrightarrow> replaced p d s u \<and> lasting p u"
  using same_files_name [of t u]
  by (auto simp: replaced_def committed_def complete_def same_files_def fs_wf_def lasting_def)

lemma done_log: "replaced p d s (t\<lparr>ho_log := l\<rparr>) = replaced p d s t" "lasting p (t\<lparr>ho_log := l\<rparr>) = lasting p t"
  by (simp_all add: replaced_def committed_def complete_def lasting_def)

lemma txqueuelen_keeps: "io_keeps (\<lambda>t. replaced p d s t \<and> lasting p t) (applyTxQueueLengths nl interfaces)"
proof -
  have log: "io_keeps (\<lambda>t. replaced p d s t \<and> lasting p t) (logf a b)" for a b
    by (rule io_keepsI) (auto simp: run_logf done_log)
  have nl: "io_keeps (\<lambda>t. replaced p d s t \<and> lasting p t) (nl_LinkByName nl n)"
    "io_keeps (\<lambda>t. replaced p d s t \<and> lasting p t) (nl_LinkSetTxQLen nl l q)" for n l q
    using link_files txqlen_files done_same by (blast intro: io_keepsI)+
  show ?thesis
    unfolding applyTxQueueLengths_def applyTxQueueLength_def
    by (intro keep_rules log nl)
qed

lemma apply_spec:
  assumes "ino_data i = d" "resolve tmpPath = q"
  shows "io_spec (staged p s q f i)
    (runCommandOutput exec ''nmstatectl'' [''apply'', ''--timeout'', ''60'', tmpPath])
    (\<lambda>_ t. nmstate_accepted exec d \<and> staged p s q f i t) (untouched p s)"
proof (rule io_specI)
  fix t e u assume t: "staged p s q f i t"
    and "runCommandOutput exec ''nmstatectl'' [''apply'', ''--timeout'', ''60'', tmpPath] t = (Inl e, u)"
  then have "same_files t u" by (auto simp: run_command intro: exec_files [OF surjective_pairing])
  from staged_same [OF t this] show "untouched p s u" by (simp add: staged_def)
next
  fix t x u assume t: "staged p s q f i t"
    and run: "runCommandOutput exec ''nmstatectl'' [''apply'', ''--timeout'', ''60'', tmpPath] t = (Inr x, u)"
  then have "same_files t u" by (auto simp: run_command intro: exec_files [OF surjective_pairing])
  moreover have "reads t (resolve tmpPath) = Some d"
    using t assms by (simp add: staged_def reads_def inode_at_def)
  moreover have "oc_err (fst (exec ''nmstatectl'' [''apply'', ''--timeout'', ''60'', tmpPath] t)) = None"
    using run by (simp add: run_command command_result_ok)
  ultimately show "nmstate_accepted exec d \<and> staged p s q f i u" using t staged_same by (auto simp: nmstate_accepted_def)
qed

lemma spec_assume: "(C \<Longrightarrow> io_spec P m Q E) \<Longrightarrow> io_spec (\<lambda>t. C \<and> P t) m Q E"
  by (auto simp: io_spec_def)

lemma commit_document:
  assumes "resolve tmpPath = q" "q \<noteq> p" "p = resolve nmstateStatePath" "butlast p = resolve (Dir nmstateStatePath)" "p \<noteq> []"
    and "ino_kind i = File" "ino_synced i" "ino_data i = d" "nmstate_accepted exec d"
  shows "io_spec (staged p s q f i)
    (io_then (io_wrap g (os_Rename tmpPath nmstateStatePath))
     (io_then (io_wrap h (syncDir (Dir nmstateStatePath))) (applyTxQueueLengths nl interfaces)))
    (\<lambda>_ t. replaced p d s t \<and> lasting p t) (settled (nmstate_accepted exec d) p d s)"
proof (rule spec_then, rule untouched_settled, rule spec_wrap)
  show "io_spec (staged p s q f i) (os_Rename tmpPath nmstateStatePath) (\<lambda>_. committed p f d s) (untouched p s)"
    using rename_spec [OF assms(1) assms(3) [symmetric] assms(2,6,7)] assms(8) by simp
  show "io_spec (committed p f d s) (io_then (io_wrap h (syncDir (Dir nmstateStatePath))) (applyTxQueueLengths nl interfaces))
      (\<lambda>_ t. replaced p d s t \<and> lasting p t) (settled (nmstate_accepted exec d) p d s)"
  proof (rule spec_then, rule spec_wrap)
    show "io_spec (committed p f d s) (syncDir (Dir nmstateStatePath)) (\<lambda>_ t. replaced p d s t \<and> lasting p t) (settled (nmstate_accepted exec d) p d s)"
      by (rule io_spec_weaken [OF syncDir_spec [OF assms(5,4,9)]]) (auto simp: replaced_def)
    show "io_spec (\<lambda>t. replaced p d s t \<and> lasting p t) (applyTxQueueLengths nl interfaces)
        (\<lambda>_ t. replaced p d s t \<and> lasting p t) (settled (nmstate_accepted exec d) p d s)"
      using io_keepsD [OF txqueuelen_keeps] assms(9) by (blast intro: io_specI settled_def [THEN iffD2])
  qed
qed

lemma nmstate_body:
  assumes "resolve tmpPath = q" "q \<noteq> p" "p = resolve nmstateStatePath" "butlast p = resolve (Dir nmstateStatePath)" "p \<noteq> []"
  shows "io_spec (staged p s q f (new_inode File m)) (nmstate_steps exec nl interfaces d tmpPath f)
    (\<lambda>_ t. nmstate_accepted exec d \<and> replaced p d s t \<and> lasting p t) (settled (nmstate_accepted exec d) p d s)"
proof -
  have sixty: "nat_string 10 nmstateApplyTimeout = ''60''" by code_simp
  let ?i = "(new_inode File m)\<lparr>ino_data := d, ino_mode := syscallMode 420, ino_synced := True\<rparr>"
  have commit: "io_spec (\<lambda>t. nmstate_accepted exec d \<and> staged p s q f ?i t)
    (io_then (io_wrap g (os_Rename tmpPath nmstateStatePath))
     (io_then (io_wrap h (syncDir (Dir nmstateStatePath))) (applyTxQueueLengths nl interfaces)))
    (\<lambda>_ t. nmstate_accepted exec d \<and> replaced p d s t \<and> lasting p t) (settled (nmstate_accepted exec d) p d s)" for g h
  proof (rule spec_assume)
    assume C: "nmstate_accepted exec d"
    show "io_spec (staged p s q f ?i)
      (io_then (io_wrap g (os_Rename tmpPath nmstateStatePath))
       (io_then (io_wrap h (syncDir (Dir nmstateStatePath))) (applyTxQueueLengths nl interfaces)))
      (\<lambda>_ t. nmstate_accepted exec d \<and> replaced p d s t \<and> lasting p t) (settled (nmstate_accepted exec d) p d s)"
      by (rule io_spec_weaken [OF commit_document [OF assms, of ?i d]]) (simp_all add: C new_inode_def)
  qed
  show ?thesis
    unfolding nmstate_steps_def sixty
    by (rule spec_then, rule untouched_settled, rule or_close_spec, rule staged_Write,
      rule spec_then, rule untouched_settled, rule or_close_spec, rule staged_Chmod,
      rule spec_then, rule untouched_settled, rule or_close_spec, rule staged_Sync,
      rule spec_then, rule untouched_settled, rule spec_wrap, rule staged_Close,
      rule spec_then, rule untouched_settled, rule spec_wrap, rule apply_spec [OF _ assms(1)])
      (use commit in \<open>simp_all add: new_inode_def\<close>)
qed

lemma configure_run:
  assumes run: "configureHostInterfaces json exec nl interfaces routes s = (r, t)" and wf: "fs_wf s"
    and some: "\<not> (interfaces = [] \<and> routes = [])"
    and st: "buildNMState interfaces routes = Inr st" "json st = Inr d"
  shows "settled (nmstate_accepted exec d) (resolve nmstateStatePath) d s t \<and>
    (is_ok r \<longrightarrow> nmstate_accepted exec d \<and> replaced (resolve nmstateStatePath) d s t \<and> lasting (resolve nmstateStatePath) t)"
proof -
  let ?pre = "''.edgecommander.''" and ?suf = "''.yml.tmp''" and ?dir = "Dir nmstateStatePath"
  have p: "resolve nmstateStatePath = resolve ?dir @ [''edgecommander.yml'']" by code_simp
  have run': "io_then (io_wrap (Wrapf ''create nmstate dir %q failed: %w'' [?dir]) (os_MkdirAll ?dir 493))
      (io_bind (io_wrap (Wrapf ''create temp nmstate document in %q failed: %w'' [?dir])
          (os_CreateTemp ?dir (?pre @ CHR ''*'' # ?suf))) (\<lambda>(tmpPath, tmp).
       io_finally (nmstate_steps exec nl interfaces d tmpPath tmp) (os_Remove tmpPath))) s = (r, t)"
    using run some st by (simp add: configureHostInterfaces_def run_bind split: if_splits)
  show ?thesis
  proof (rule through_temp [where pre = ?pre and suf = ?suf and dir = ?dir and b = "''edgecommander.yml''"])
    show "plain_elem (?pre @ nat_string 10 k @ ?suf)" for k
      using decimal_digits [of "CHR ''/''" k] by (auto simp: plain_elem_def is_digit_def)
    show "io_spec (staged (resolve nmstateStatePath) s q f (new_inode File m)) (nmstate_steps exec nl interfaces d tmpPath f)
        (\<lambda>_ t. nmstate_accepted exec d \<and> replaced (resolve nmstateStatePath) d s t \<and> lasting (resolve nmstateStatePath) t)
        (settled (nmstate_accepted exec d) (resolve nmstateStatePath) d s)"
      if "resolve tmpPath = q" "q \<noteq> resolve nmstateStatePath" for tmpPath q f m
      by (rule nmstate_body [OF that refl]) (simp_all add: p)
  qed (rule wf p run' | simp)+
qed

end

section \<open>Tools without effects on files\<close>

definition quiet_exec :: "'x fs_scheme runner" where
  "quiet_exec name args s = (\<lparr>oc_output = [], oc_err = None, oc_ctx = None\<rparr>, s)"

definition quiet_netlink :: "'x fs_scheme netlink" where
  "quiet_netlink = \<lparr>nl_LinkByName = (\<lambda>_. io_ok 0), nl_LinkSetTxQLen = (\<lambda>_ _. io_ok ())\<rparr>"

interpretation quiet: host_tools quiet_exec quiet_netlink
  by unfold_locales (auto simp: quiet_exec_def quiet_netlink_def same_files_def)

section \<open>Properties\<close>

text \<open>C6: the document nmstate.service reapplies at boot is, whatever fails and whenever the power
  goes, the one that was there before or the translation of the declared interfaces and routes, and
  the latter only if nmstatectl has accepted it; success means it is in place on the disk.\<close>

theorem configureHostInterfaces_boot_document:
  assumes "host_tools exec nl" and "fs_wf s" and "\<not> (interfaces = [] \<and> routes = [])"
    and "buildNMState interfaces routes = Inr st" "json st = Inr d"
    and "configureHostInterfaces json exec nl interfaces routes s = (r, t)"
  shows "(\<forall>x. may_read t (resolve nmstateStatePath) x \<longrightarrow>
      may_read s (resolve nmstateStatePath) x \<or> nmstate_accepted exec d \<and> x = d) \<and>
    (is_ok r \<longrightarrow> nmstate_accepted exec d \<and> reads t (resolve nmstateStatePath) = Some d \<and>
      (\<forall>x. may_read t (resolve nmstateStatePath) x \<longleftrightarrow> x = d))"
proof -
  from host_tools.configure_run [OF assms(1,6,2,3,4,5)]
  have "settled (nmstate_accepted exec d) (resolve nmstateStatePath) d s t"
    "is_ok r \<longrightarrow> nmstate_accepted exec d \<and> replaced (resolve nmstateStatePath) d s t \<and> lasting (resolve nmstateStatePath) t"
    by blast+
  with settled_reads [OF assms(2) this(1)] lasting_reads show ?thesis by blast
qed

definition sample_iface :: InterfaceConfig where
  "sample_iface = \<lparr>if_Name = ''eth0'', if_Type = ''ethernet'', if_IPAddress = ''10.0.0.2'', if_Subnet = ''10.0.0.0/24'',
     if_Gateway = [], if_DNS = [], if_MTU = None, if_IPv4Method = [], if_IPv6Method = [], if_IPv6AddrGenMode = [], if_TxQueueLen = Some 1000, if_VLAN = None, if_Bond = None\<rparr>"

lemma configureHostInterfaces_boot_document_witness:
  "{x. may_read (snd (configureHostInterfaces (\<lambda>_. Inr ''doc'') quiet_exec quiet_netlink [sample_iface] []
      (sample_fs [Fine, Fine, PowerOff 0]))) (resolve nmstateStatePath) x} \<subseteq> {''doc''}"
proof -
  let ?s = "sample_fs [Fine, Fine, PowerOff 0]"
  obtain r t where run: "configureHostInterfaces (\<lambda>_. Inr ''doc'') quiet_exec quiet_netlink [sample_iface] [] ?s = (r, t)"
    by (cases "configureHostInterfaces (\<lambda>_. Inr ''doc'') quiet_exec quiet_netlink [sample_iface] [] ?s")
  have "is_ok (buildNMState [sample_iface] [])" by code_simp
  then obtain st where st: "buildNMState [sample_iface] [] = Inr st" by (auto simp: is_ok_iff)
  have p: "resolve nmstateStatePath = [''etc'', ''nmstate'', ''edgecommander.yml'']" by code_simp
  have "\<not> may_read ?s (resolve nmstateStatePath) x" for x
    unfolding p by (simp add: may_read_def sample_fs_def)
  with configureHostInterfaces_boot_document [OF quiet.host_tools_axioms sample_fs_wf _ st _ run] run
  show ?thesis by auto
qed

text \<open>With neither interfaces nor routes declared the document is removed, whether it was there
  or not, and no other name changes; but the removal is not flushed: whatever could be found in the
  document after a power loss before may still be found after it, also when success was reported.\<close>

lemma removeNMStateDocument_volatile:
  assumes "configureHostInterfaces json exec nl [] [] s = (Inr u, t)"
  shows "name_of t (resolve nmstateStatePath) = None \<and>
    (\<forall>q. q \<noteq> resolve nmstateStatePath \<longrightarrow> name_of t q = name_of s q) \<and>
    (\<forall>x. may_read s (resolve nmstateStatePath) x \<longrightarrow> may_read t (resolve nmstateStatePath) x)"
proof -
  let ?p = "resolve nmstateStatePath"
  obtain r v where 1: "os_Remove nmstateStatePath s = (r, v)" by (cases "os_Remove nmstateStatePath s")
  with assms have "t = v \<and> (r = Inl ErrNotExist \<or> is_ok r)"
    by (cases r) (auto simp: configureHostInterfaces_def removeNMStateDocument_def run_bind run_try split: if_splits)
  with 1 have r: "os_Remove nmstateStatePath s = (r, t)" "r = Inl ErrNotExist \<or> is_ok r" by auto
  have lost: "False" if "r = Inl power_lost \<or> (\<exists>e. r = Inl (injected e))"
    using that r(2) by auto
  show ?thesis
  proof (cases "name_of s ?p")
    case None
    with r lost have "(\<forall>q. name_of t q = name_of s q) \<and> fs_disk t = fs_disk s \<and> fs_inodes t = fs_inodes s"
      by (auto simp: os_Remove_def syscall_def Let_def split: if_splits list.splits fault.splits)
    with None show ?thesis by (auto simp: may_read_def)
  next
    case (Some n)
    with Some r lost have "(\<forall>q. name_of t q = (if q = ?p then None else name_of s q)) \<and>
        fs_disk t = (fs_disk s)(?p := None # fs_disk s ?p) \<and> fs_inodes t = fs_inodes s"
      by (auto simp: os_Remove_def syscall_def Let_def split: if_splits list.splits fault.splits)
    then show ?thesis by (auto simp: may_read_def)
  qed
qed

lemma removeNMStateDocument_volatile_witness:
  "name_of (snd (configureHostInterfaces (\<lambda>_. Inr ''doc'') quiet_exec quiet_netlink [] [] (sample_fs []))) (resolve nmstateStatePath) = None"
proof -
  have run: "configureHostInterfaces (\<lambda>_. Inr ''doc'') quiet_exec quiet_netlink [] [] (sample_fs []) =
      (Inr (), snd (configureHostInterfaces (\<lambda>_. Inr ''doc'') quiet_exec quiet_netlink [] [] (sample_fs [])))"
    by (rule prod_eqI) (simp_all, code_simp)
  from removeNMStateDocument_volatile [OF run] show ?thesis by blast
qed

end
