(* ===== verification/Orchestration.thy ===== *)
theory Orchestration
  imports Network Podman Filesys
begin

text \<open>
  \<open>orchestration.go\<close> and the loading of the configuration: the apply of a configuration as the
  sequence of its steps, the startup run, and the lock around them.  The steps are the function
  variables of the code; the JSON decoder is a parameter.
\<close>

section \<open>Loading the configuration\<close>

definition loadConfig :: "(string \<Rightarrow> Config res) \<Rightarrow> string \<Rightarrow> ('x fs_scheme, Config) io" where
  "loadConfig json path = io_bind (os_ReadFile path) (\<lambda>raw. io_lift (json raw))"

definition validateConfigFile :: "users \<Rightarrow> (string \<Rightarrow> Config res) \<Rightarrow> string \<Rightarrow> ('x fs_scheme, unit) io" where
  "validateConfigFile us json path = io_bind (loadConfig json path) (\<lambda>cfg. io_lift (validateConfig us cfg))"

section \<open>Applying a configuration\<close>

text \<open>The seams; time is in nanoseconds.\<close>

record 's seams =
  validateConfigFunc :: "Config \<Rightarrow> ('s, unit) io"
  ensureHostnameFunc :: "string \<Rightarrow> ('s, unit) io"
  ensureFoldersFunc :: "FolderConfig list \<Rightarrow> ('s, unit) io"
  ensureFilesFunc :: "FileConfig list \<Rightarrow> ('s, unit) io"
  configureHostInterfacesFunc :: "InterfaceConfig list \<Rightarrow> RouteConfig list \<Rightarrow> ('s, unit) io"
  configureFirewallPortsFunc :: "FirewallPortConfig list \<Rightarrow> ('s, unit) io"
  startPodmanSocketFunc :: "('s, unit) io"
  waitForUnixSocketFunc :: "string \<Rightarrow> nat \<Rightarrow> ('s, unit) io"
  newPodmanConnectionFunc :: "string \<Rightarrow> ('s, unit) io"
  stopUnmanagedContainersFunc :: "ContainerConfig list \<Rightarrow> ('s, unit) io"
  reconcileContainerFunc :: "ContainerConfig \<Rightarrow> ('s, unit) io"

text \<open>The loop over the containers: every one is tried, the errors are kept in order.\<close>

primrec reconcile_all :: "('x host_scheme) seams \<Rightarrow> ContainerConfig list \<Rightarrow> ('x host_scheme, err list) io" where
  "reconcile_all sm [] = io_ok []"
| "reconcile_all sm (c # cs) =
     io_bind (io_try (reconcileContainerFunc sm c)) (\<lambda>r.
     case r of
       Inr _ \<Rightarrow> reconcile_all sm cs
     | Inl e \<Rightarrow> io_then (logf ''reconcile container %q failed: %v'' [co_Name c])
         (io_bind (reconcile_all sm cs) (\<lambda>es. io_ok (e # es))))"

definition reconcile_error :: "err list \<Rightarrow> ContainerConfig list \<Rightarrow> err" where
  "reconcile_error es cs =
     Wrapf ''%d of %d containers failed to reconcile: %w''
       [nat_string 10 (length es), nat_string 10 (length cs)] (Joined es)"

definition applyConfig :: "('x host_scheme) seams \<Rightarrow> Config \<Rightarrow> ('x host_scheme, unit) io" where
  "applyConfig sm cfg =
     io_then (validateConfigFunc sm cfg)
     (io_then (ensureHostnameFunc sm (cf_Hostname cfg))
     (io_then (ensureFoldersFunc sm (cf_Folders cfg))
     (io_then (ensureFilesFunc sm (cf_Files cfg))
     (io_then (configureHostInterfacesFunc sm (cf_Interfaces cfg) (cf_Routes cfg))
     (io_then (configureFirewallPortsFunc sm (cf_FirewallPorts cfg))
     (io_then (startPodmanSocketFunc sm)
     (io_then (waitForUnixSocketFunc sm podmanSocketPath 10000000000)
     (io_then (newPodmanConnectionFunc sm (''unix:'' @ podmanSocketPath))
     (io_then (stopUnmanagedContainersFunc sm (cf_Containers cfg))
     (io_bind (reconcile_all sm (cf_Containers cfg)) (\<lambda>reconcileErrors.
      if reconcileErrors \<noteq> [] then io_fail (reconcile_error reconcileErrors (cf_Containers cfg))
      else logf ''all containers started'' [])))))))))))"

definition run :: "(string \<Rightarrow> Config res) \<Rightarrow> (Config \<Rightarrow> ('x fs_scheme, unit) io) \<Rightarrow> string \<Rightarrow> ('x fs_scheme, unit) io" where
  "run json configApplier configPath = io_bind (loadConfig json configPath) configApplier"

text \<open>
  The startup run holds the lock; a failed run is logged and the service goes on until the web
  server ends.  \<open>serve\<close> starts the web server, \<open>server_end\<close> is its end.
\<close>

definition runService :: "(err \<Rightarrow> string) \<Rightarrow> ('x host_scheme, unit) io \<Rightarrow> ('x host_scheme, unit) io \<Rightarrow>
    ('x host_scheme, unit) io \<Rightarrow> ('x host_scheme, unit) io \<Rightarrow> ('x host_scheme, unit) io \<Rightarrow> ('x host_scheme, unit) io" where
  "runService err_text serve mu_Lock mu_Unlock run_config server_end =
     io_then serve
     (io_then mu_Lock
     (io_bind (io_try run_config) (\<lambda>runErr.
      io_then mu_Unlock
     (io_then (case runErr of Inl e \<Rightarrow> logf ''reconcile failed: %v'' [err_text e] | Inr _ \<Rightarrow> io_ok ())
       server_end))))"

section \<open>The loop over the containers\<close>

lemma reconcile_all_total: "\<exists>es t. reconcile_all sm cs s = (Inr es, t)"
proof (induction cs arbitrary: s)
  case (Cons c cs)
  obtain r u where 1: "reconcileContainerFunc sm c s = (r, u)" by (cases "reconcileContainerFunc sm c s")
  show ?case
  proof (cases r)
    case (Inr x)
    with Cons.IH [of u] 1 show ?thesis by (auto simp: io_laws)
  next
    case (Inl e)
    from Cons.IH [of "u\<lparr>ho_log := ho_log u @ [(''reconcile container %q failed: %v'', [co_Name c])]\<rparr>"]
    obtain es t where "reconcile_all sm cs (u\<lparr>ho_log := ho_log u @ [(''reconcile container %q failed: %v'', [co_Name c])]\<rparr>) = (Inr es, t)"
      by blast
    then show ?thesis by (simp only: reconcile_all.simps run_bind run_try 1 Inl prod.case sum.case run_then run_logf) simp
  qed
qed simp

text \<open>The number of errors is at most the number of containers, and none means all succeeded.\<close>

lemma reconcile_all_errors: "reconcile_all sm cs s = (Inr es, t) \<Longrightarrow> length es \<le> length cs"
proof (induction cs arbitrary: s es t)
  case (Cons c cs)
  obtain r u where 1: "reconcileContainerFunc sm c s = (r, u)" by (cases "reconcileContainerFunc sm c s")
  show ?case
  proof (cases r)
    case (Inr x)
    with Cons 1 show ?thesis by (fastforce simp: io_laws)
  next
    case (Inl e)
    let ?u = "u\<lparr>ho_log := ho_log u @ [(''reconcile container %q failed: %v'', [co_Name c])]\<rparr>"
    obtain es' t' where rest: "reconcile_all sm cs ?u = (Inr es', t')" using reconcile_all_total by blast
    have eq: "es = e # es' \<and> t' = t"
      using Cons.prems rest
      by (simp only: reconcile_all.simps run_bind run_try 1 Inl prod.case sum.case run_then run_logf) simp
    with Cons.IH [OF rest] eq show ?thesis by simp
  qed
qed simp

context libpod begin

text \<open>Reconciling containers of different names, one after the other.\<close>

lemma reconcile_all_run:
  assumes "reconcile_all sm cs s = (Inr es, t)" and "\<And>c. reconcileContainerFunc sm c = reconcileContainer pd c"
    and "\<forall>c \<in> set cs. co_Name c \<noteq> []"
  shows "(\<forall>n. n \<notin> co_Name ` set cs \<longrightarrow> ctrs t n = ctrs s n) \<and>
    (es = [] \<longrightarrow> distinct (map co_Name cs) \<longrightarrow>
      (\<forall>c \<in> set cs. configHash (pd_json pd) (pd_sha256 pd) c \<noteq> []) \<longrightarrow> (\<forall>c \<in> set cs. up_to_date c t))"
  using assms(1,3)
proof (induction cs arbitrary: s es t)
  case (Cons c cs)
  obtain r u where 1: "reconcileContainer pd c s = (r, u)" by (cases "reconcileContainer pd c s")
  have name: "co_Name c \<noteq> []" using Cons.prems(2) by simp
  note frame = reconcile_frame [OF 1 name]
  show ?case
  proof (cases r)
    case (Inl e)
    let ?u = "u\<lparr>ho_log := ho_log u @ [(''reconcile container %q failed: %v'', [co_Name c])]\<rparr>"
    obtain es' t' where rest: "reconcile_all sm cs ?u = (Inr es', t')" using reconcile_all_total by blast
    have eq: "es = e # es' \<and> t' = t"
      using Cons.prems(1) rest
      by (simp only: reconcile_all.simps run_bind run_try assms(2) 1 Inl prod.case sum.case run_then run_logf) simp
    have "(\<forall>n. n \<notin> co_Name ` set cs \<longrightarrow> ctrs t n = ctrs ?u n)"
      using Cons.IH [OF rest] Cons.prems(2) eq by simp
    then show ?thesis using frame eq by (simp add: output_frame)
  next
    case (Inr x)
    then have rest: "reconcile_all sm cs u = (Inr es, t)"
      using Cons.prems(1) 1 by (simp add: io_laws assms(2))
    have ih: "(\<forall>n. n \<notin> co_Name ` set cs \<longrightarrow> ctrs t n = ctrs u n) \<and>
      (es = [] \<longrightarrow> distinct (map co_Name cs) \<longrightarrow>
        (\<forall>c \<in> set cs. configHash (pd_json pd) (pd_sha256 pd) c \<noteq> []) \<longrightarrow> (\<forall>c \<in> set cs. up_to_date c t))"
      using Cons.IH [OF rest] Cons.prems(2) by simp
    have "up_to_date c t" if "co_Name c \<notin> co_Name ` set cs" "configHash (pd_json pd) (pd_sha256 pd) c \<noteq> []"
    proof -
      have "up_to_date c u" by (rule reconcile_converges [OF 1 [unfolded Inr] name that(2)])
      then show ?thesis using ih that(1) by (simp add: up_to_date_def)
    qed
    then show ?thesis using ih frame by auto
  qed
qed simp

lemma apply_converges:
  assumes run: "applyConfig sm cfg s = (Inr x, t)"
    and stop: "stopUnmanagedContainersFunc sm = stopUnmanagedContainers pd"
    and reconcile: "reconcileContainerFunc sm = reconcileContainer pd"
    and names: "\<forall>c \<in> set (cf_Containers cfg). co_Name c \<noteq> [] \<and> configHash (pd_json pd) (pd_sha256 pd) c \<noteq> []"
    and distinct: "distinct (map co_Name (cf_Containers cfg))"
  shows "(\<forall>c \<in> set (cf_Containers cfg). up_to_date c t) \<and>
    (\<forall>n k. ctrs t n = Some k \<longrightarrow> pc_running k \<longrightarrow> n \<in> co_Name ` set (cf_Containers cfg))"
proof -
  let ?cs = "cf_Containers cfg"
  from run obtain s1 s2 es s3 where 1: "stopUnmanagedContainers pd ?cs s1 = (Inr (), s2)"
    and 2: "reconcile_all sm ?cs s2 = (Inr es, s3)"
    and 3: "(if es \<noteq> [] then io_fail (reconcile_error es ?cs) else logf ''all containers started'' []) s3 = (Inr x, t)"
    unfolding applyConfig_def stop by (auto simp: success_simps)
  have es: "es = []" and t: "ctrs t = ctrs s3"
    using 3 by (auto simp: run_logf output_frame split: if_splits)
  have rest: "\<forall>n k. ctrs s2 n = Some k \<longrightarrow> pc_running k \<longrightarrow> n \<in> co_Name ` set ?cs"
    using stopUnmanaged_run [OF 1] by simp
  have all: "\<forall>n. n \<notin> co_Name ` set ?cs \<longrightarrow> ctrs s3 n = ctrs s2 n" "\<forall>c \<in> set ?cs. up_to_date c s3"
    using reconcile_all_run [OF 2] names distinct es by (simp_all add: reconcile)
  then show ?thesis using rest t by (metis up_to_date_def)
qed

end

section \<open>Properties\<close>

text \<open>The steps before the containers, in the order of the code.\<close>

definition apply_steps :: "('x host_scheme) seams \<Rightarrow> Config \<Rightarrow> ('x host_scheme, unit) io list" where
  "apply_steps sm cfg =
     [validateConfigFunc sm cfg, ensureHostnameFunc sm (cf_Hostname cfg), ensureFoldersFunc sm (cf_Folders cfg),
      ensureFilesFunc sm (cf_Files cfg), configureHostInterfacesFunc sm (cf_Interfaces cfg) (cf_Routes cfg),
      configureFirewallPortsFunc sm (cf_FirewallPorts cfg), startPodmanSocketFunc sm,
      waitForUnixSocketFunc sm podmanSocketPath 10000000000, newPodmanConnectionFunc sm (''unix:'' @ podmanSocketPath),
      stopUnmanagedContainersFunc sm (cf_Containers cfg)]"

lemma then_assoc: "io_then (io_then a b) c = io_then a (io_then b c)"
  by (simp add: fun_eq_iff io_laws split: prod.splits sum.splits)

lemma then_ok: "io_then a (io_ok ()) = a"
  by (auto simp: fun_eq_iff run_then split: prod.splits sum.splits)

lemma applyConfig_steps:
  "applyConfig sm cfg = io_then (io_iter (\<lambda>m. m) (apply_steps sm cfg))
     (io_bind (reconcile_all sm (cf_Containers cfg)) (\<lambda>reconcileErrors.
      if reconcileErrors \<noteq> [] then io_fail (reconcile_error reconcileErrors (cf_Containers cfg))
      else logf ''all containers started'' []))"
  by (simp only: applyConfig_def apply_steps_def io_iter.simps then_assoc then_ok)

text \<open>Seams on the in-memory Podman whose other steps do nothing.\<close>

definition pdm_seams :: "pdm seams" where
  "pdm_seams = \<lparr>validateConfigFunc = (\<lambda>cfg. io_lift (validateContainers (cf_Containers cfg))),
     ensureHostnameFunc = (\<lambda>_. io_ok ()), ensureFoldersFunc = (\<lambda>_. io_ok ()), ensureFilesFunc = (\<lambda>_. io_ok ()),
     configureHostInterfacesFunc = (\<lambda>_ _. io_ok ()), configureFirewallPortsFunc = (\<lambda>ports.
       if ports = [] then io_ok () else io_fail (Outside ''firewalld'')),
     startPodmanSocketFunc = io_ok (), waitForUnixSocketFunc = (\<lambda>_ _. io_ok ()), newPodmanConnectionFunc = (\<lambda>_. io_ok ()),
     stopUnmanagedContainersFunc = stopUnmanagedContainers pdm_podman,
     reconcileContainerFunc = reconcileContainer pdm_podman\<rparr>"

definition sample_config :: Config where
  "sample_config = \<lparr>cf_PodmanMode = [], cf_Hostname = [], cf_Folders = [], cf_Files = [], cf_Interfaces = [],
     cf_Routes = [], cf_FirewallPorts = [], cf_Containers = [sample_container], cf_Ostree = None\<rparr>"

text \<open>C11: a step that fails ends the apply with its own error and in the state it left: no later
  step is run.\<close>

theorem applyConfig_stops_at_failure:
  assumes "i < length (apply_steps sm cfg)"
    and "io_iter (\<lambda>m. m) (take i (apply_steps sm cfg)) s = (Inr (), u)"
    and "(apply_steps sm cfg ! i) u = (Inl e, t)"
  shows "applyConfig sm cfg s = (Inl e, t)"
proof -
  let ?xs = "apply_steps sm cfg"
  have "?xs = take i ?xs @ ?xs ! i # drop (Suc i) ?xs" by (rule id_take_nth_drop [OF assms(1)])
  then have "io_iter (\<lambda>m. m) ?xs = io_then (io_iter (\<lambda>m. m) (take i ?xs)) (io_then (?xs ! i) (io_iter (\<lambda>m. m) (drop (Suc i) ?xs)))"
    by (metis io_iter.simps(2) iter_append)
  then show ?thesis
    unfolding applyConfig_steps using assms(2,3) by (simp add: run_then)
qed

lemma applyConfig_stops_at_failure_witness:
  "applyConfig pdm_seams (sample_config\<lparr>cf_FirewallPorts := [\<lparr>fw_Zone = [], fw_Port = [], fw_Protocol = [], fw_Source = []\<rparr>]\<rparr>) sample_pdm =
     (Inl (Outside ''firewalld''), sample_pdm)"
proof -
  let ?cfg = "sample_config\<lparr>cf_FirewallPorts := [\<lparr>fw_Zone = [], fw_Port = [], fw_Protocol = [], fw_Source = []\<rparr>]\<rparr>"
  have v: "validateContainers [sample_container] = Inr ()" by code_simp
  have steps: "take 5 (apply_steps pdm_seams ?cfg) = [io_ok (), io_ok (), io_ok (), io_ok (), io_ok ()]"
    "apply_steps pdm_seams ?cfg ! 5 = io_fail (Outside ''firewalld'')" "5 < length (apply_steps pdm_seams ?cfg)"
    unfolding apply_steps_def pdm_seams_def sample_config_def
    by (simp_all add: v fun_eq_iff)
  show ?thesis
    by (rule applyConfig_stops_at_failure [OF steps(3), of sample_pdm sample_pdm])
       (simp_all only: steps io_iter.simps then_ok run_simps)
qed

text \<open>A successful apply converges the containers: every declared container runs with the
  label of its configuration, and no other container runs.\<close>

lemma applyConfig_converges:
  assumes "libpod pd ctrs images"
    and "stopUnmanagedContainersFunc sm = stopUnmanagedContainers pd" "reconcileContainerFunc sm = reconcileContainer pd"
    and "list_all (\<lambda>c. co_Name c \<noteq> [] \<and> configHash (pd_json pd) (pd_sha256 pd) c \<noteq> []) (cf_Containers cfg)"
    and "distinct (map co_Name (cf_Containers cfg))"
    and "applyConfig sm cfg s = (Inr u, t)"
  shows "list_all (\<lambda>c. \<exists>k. ctrs t (co_Name c) = Some k \<and> pc_running k \<and>
      pc_labels k configHashLabel = Some (configHash (pd_json pd) (pd_sha256 pd) c)) (cf_Containers cfg) \<and>
    (\<forall>n k. ctrs t n = Some k \<longrightarrow> pc_running k \<longrightarrow> n \<in> co_Name ` set (cf_Containers cfg))"
proof -
  have "\<forall>c \<in> set (cf_Containers cfg). co_Name c \<noteq> [] \<and> configHash (pd_json pd) (pd_sha256 pd) c \<noteq> []"
    using assms(4) by (simp add: list_all_iff)
  from libpod.apply_converges [OF assms(1,6,2,3) this assms(5)] show ?thesis
    unfolding libpod.up_to_date_def [OF assms(1)] by (simp add: list_all_iff)
qed

lemma applyConfig_converges_witness:
  "\<exists>t. applyConfig pdm_seams sample_config sample_pdm = (Inr (), t) \<and>
     {n. \<exists>k. pdm_ctrs t n = Some k \<and> pc_running k} \<subseteq> {''web''}"
proof -
  obtain r t where run: "applyConfig pdm_seams sample_config sample_pdm = (r, t)"
    by (cases "applyConfig pdm_seams sample_config sample_pdm")
  have "is_ok (fst (applyConfig pdm_seams sample_config sample_pdm))" by code_simp
  with run have r: "r = Inr ()" by (cases r) simp_all
  have cs: "cf_Containers sample_config = [sample_container]" by (simp add: sample_config_def)
  have "stopUnmanagedContainersFunc pdm_seams = stopUnmanagedContainers pdm_podman"
    "reconcileContainerFunc pdm_seams = reconcileContainer pdm_podman" by (simp_all add: pdm_seams_def)
  from applyConfig_converges [OF pdm.libpod_axioms this _ _ run [unfolded r]] run r
  show ?thesis by (auto simp: cs pdm_name sample_hash)
qed

end
