(* ===== verification/ApplyLock.thy ===== *)
theory ApplyLock
  imports Prelude
begin

text \<open>
  The lock \<open>applyMu\<close>: the startup run and every upload of a configuration as threads of one step
  relation.  An upload takes the lock, saves its body, applies it and gives the lock back; a failed
  save ends without an apply and may leave the old or the new file.  The startup run takes the
  lock, loads the file and applies what it loaded.
\<close>

section \<open>The step relation\<close>

datatype phase = Waiting | Holding | Ready | Applying | Finished

datatype 'b job = Startup | Upload 'b

text \<open>\<open>ap_applied\<close> is what each apply that has begun was given, with its thread, newest first.\<close>

record 'b applies =
  ap_holder :: "nat option"
  ap_phase :: "nat \<Rightarrow> phase"
  ap_given :: "nat \<Rightarrow> 'b option"
  ap_disk :: "'b option"
  ap_applied :: "(nat \<times> 'b) list"

definition ap_init :: "'b option \<Rightarrow> 'b applies" where
  "ap_init d = \<lparr>ap_holder = None, ap_phase = (\<lambda>_. Waiting), ap_given = (\<lambda>_. None), ap_disk = d, ap_applied = []\<rparr>"

definition set_phase :: "nat \<Rightarrow> phase \<Rightarrow> 'b applies \<Rightarrow> 'b applies" where
  "set_phase i ph w = w\<lparr>ap_phase := (ap_phase w)(i := ph)\<rparr>"

inductive ap_step :: "(nat \<Rightarrow> 'b job) \<Rightarrow> 'b applies \<Rightarrow> 'b applies \<Rightarrow> bool" for jobs where
  lock: "ap_phase w i = Waiting \<Longrightarrow> ap_holder w = None \<Longrightarrow>
    ap_step jobs w (set_phase i Holding (w\<lparr>ap_holder := Some i\<rparr>))"
| save: "ap_phase w i = Holding \<Longrightarrow> jobs i = Upload b \<Longrightarrow>
    ap_step jobs w (set_phase i Ready (w\<lparr>ap_disk := Some b, ap_given := (ap_given w)(i := Some b)\<rparr>))"
| save_fails: "ap_phase w i = Holding \<Longrightarrow> jobs i = Upload b \<Longrightarrow> d = ap_disk w \<or> d = Some b \<Longrightarrow>
    ap_step jobs w (set_phase i Finished (w\<lparr>ap_disk := d, ap_holder := None\<rparr>))"
| load: "ap_phase w i = Holding \<Longrightarrow> jobs i = Startup \<Longrightarrow> ap_disk w = Some b \<Longrightarrow>
    ap_step jobs w (set_phase i Ready (w\<lparr>ap_given := (ap_given w)(i := Some b)\<rparr>))"
| load_fails: "ap_phase w i = Holding \<Longrightarrow> jobs i = Startup \<Longrightarrow>
    ap_step jobs w (set_phase i Finished (w\<lparr>ap_holder := None\<rparr>))"
| run_apply: "ap_phase w i = Ready \<Longrightarrow> ap_given w i = Some b \<Longrightarrow>
    ap_step jobs w (set_phase i Applying (w\<lparr>ap_applied := (i, b) # ap_applied w\<rparr>))"
| unlock: "ap_phase w i = Applying \<Longrightarrow>
    ap_step jobs w (set_phase i Finished (w\<lparr>ap_holder := None\<rparr>))"

inductive ap_reach :: "(nat \<Rightarrow> 'b job) \<Rightarrow> 'b option \<Rightarrow> 'b applies \<Rightarrow> bool" for jobs d where
  start: "ap_reach jobs d (ap_init d)"
| "step": "ap_reach jobs d w \<Longrightarrow> ap_step jobs w w' \<Longrightarrow> ap_reach jobs d w'"

inductive_cases ap_stepE: "ap_step jobs w w'"

section \<open>Invariants\<close>

definition active :: "phase \<Rightarrow> bool" where
  "active ph \<longleftrightarrow> ph = Holding \<or> ph = Ready \<or> ph = Applying"

text \<open>A thread is at work exactly when it holds the lock; what it was given is what is on the
  disk; and the latest apply is its own once it applies.\<close>

definition ap_inv :: "'b applies \<Rightarrow> bool" where
  "ap_inv w \<longleftrightarrow> (\<forall>i. active (ap_phase w i) \<longleftrightarrow> ap_holder w = Some i) \<and>
     (\<forall>i. ap_phase w i = Ready \<or> ap_phase w i = Applying \<longrightarrow> ap_given w i \<noteq> None \<and> ap_given w i = ap_disk w) \<and>
     (\<forall>i. ap_phase w i = Applying \<longrightarrow> (case ap_applied w of [] \<Rightarrow> False | (j, b) # _ \<Rightarrow> j = i \<and> ap_given w i = Some b)) \<and>
     (\<forall>i b. (i, b) \<in> set (ap_applied w) \<longrightarrow> ap_phase w i = Applying \<or> ap_phase w i = Finished) \<and>
     distinct (map fst (ap_applied w))"

lemma set_phase_simps [simp]:
  "ap_phase (set_phase i ph w) j = (if j = i then ph else ap_phase w j)" "ap_holder (set_phase i ph w) = ap_holder w"
  "ap_given (set_phase i ph w) = ap_given w" "ap_disk (set_phase i ph w) = ap_disk w"
  "ap_applied (set_phase i ph w) = ap_applied w"
  by (simp_all add: set_phase_def)

lemma ap_inv_init: "ap_inv (ap_init d)"
  by (simp add: ap_inv_def ap_init_def active_def)

lemma active_simps [simp]: "active Holding" "active Ready" "active Applying" "\<not> active Waiting" "\<not> active Finished"
  by (simp_all add: active_def)

text \<open>Two threads are never at work at the same time.\<close>

lemma one_at_work: "ap_inv w \<Longrightarrow> active (ap_phase w i) \<Longrightarrow> active (ap_phase w j) \<Longrightarrow> i = j"
  by (metis ap_inv_def option.inject)

lemma ap_inv_step: "ap_step jobs w w' \<Longrightarrow> ap_inv w \<Longrightarrow> ap_inv w'"
proof (induction rule: ap_step.induct)
  case (lock w i)
  have idle: "\<not> active (ap_phase w j)" for j using lock by (simp add: ap_inv_def)
  show ?case using lock idle by (auto simp: ap_inv_def active_def split: list.splits prod.splits)
next
  case (save w i b)
  have others: "\<not> active (ap_phase w j)" if "j \<noteq> i" for j
    using one_at_work [OF save.prems, of i j] save.hyps that by auto
  show ?case using save others by (auto simp: ap_inv_def active_def split: list.splits prod.splits)
next
  case (save_fails w i b d)
  have others: "\<not> active (ap_phase w j)" if "j \<noteq> i" for j
    using one_at_work [OF save_fails.prems, of i j] save_fails.hyps that by auto
  show ?case using save_fails others by (auto simp: ap_inv_def active_def split: list.splits prod.splits)
next
  case (load w i b)
  have others: "\<not> active (ap_phase w j)" if "j \<noteq> i" for j
    using one_at_work [OF load.prems, of i j] load.hyps that by auto
  show ?case using load others by (auto simp: ap_inv_def active_def split: list.splits prod.splits)
next
  case (load_fails w i)
  have others: "\<not> active (ap_phase w j)" if "j \<noteq> i" for j
    using one_at_work [OF load_fails.prems, of i j] load_fails.hyps that by auto
  show ?case using load_fails others by (auto simp: ap_inv_def active_def split: list.splits prod.splits)
next
  case (run_apply w i b)
  have others: "\<not> active (ap_phase w j)" if "j \<noteq> i" for j
    using one_at_work [OF run_apply.prems, of i j] run_apply.hyps that by auto
  show ?case using run_apply others by (auto simp: ap_inv_def active_def split: list.splits prod.splits)
next
  case (unlock w i)
  have others: "\<not> active (ap_phase w j)" if "j \<noteq> i" for j
    using one_at_work [OF unlock.prems, of i j] unlock.hyps that by auto
  show ?case using unlock others by (auto simp: ap_inv_def active_def split: list.splits prod.splits)
qed

lemma ap_inv_reach: "ap_reach jobs d w \<Longrightarrow> ap_inv w"
  by (induction rule: ap_reach.induct) (auto intro: ap_inv_init ap_inv_step)

section \<open>Properties\<close>

text \<open>C12: at no time are two threads between taking and giving back the lock, and while a thread
  applies a configuration, that configuration is the one on the disk and the latest one applied:
  no other upload or startup run has come between.\<close>

theorem apply_exclusive:
  assumes "ap_reach jobs d w" and "ap_phase w i = Applying"
  shows "(\<forall>j. active (ap_phase w j) \<longrightarrow> j = i) \<and>
    (\<exists>b rest. ap_applied w = (i, b) # rest \<and> ap_disk w = Some b \<and> (jobs i = Startup \<or> ap_given w i = Some b))"
proof -
  have inv: "ap_inv w" by (rule ap_inv_reach [OF assms(1)])
  have "\<forall>j. active (ap_phase w j) \<longrightarrow> j = i" using one_at_work [OF inv] assms(2) by auto
  moreover have "case ap_applied w of [] \<Rightarrow> False | (j, b) # _ \<Rightarrow> j = i \<and> ap_given w i = Some b"
    and "ap_given w i = ap_disk w"
    using inv assms(2) unfolding ap_inv_def by blast+
  then obtain b rest where "ap_applied w = (i, b) # rest" "ap_given w i = Some b" "ap_given w i = ap_disk w"
    by (cases "ap_applied w") auto
  ultimately show ?thesis by auto
qed

text \<open>A run of one upload up to its apply.\<close>

definition sample_applying :: "string applies" where
  "sample_applying =
     (let w1 = set_phase 0 Holding (ap_init (Some ''old'')\<lparr>ap_holder := Some 0\<rparr>);
          w2 = set_phase 0 Ready (w1\<lparr>ap_disk := Some ''new'', ap_given := (ap_given w1)(0 := Some ''new'')\<rparr>)
      in set_phase 0 Applying (w2\<lparr>ap_applied := (0, ''new'') # ap_applied w2\<rparr>))"

lemma sample_reach: "ap_reach (\<lambda>_. Upload ''new'') (Some ''old'') sample_applying"
proof -
  let ?jobs = "\<lambda>_. Upload ''new''"
  let ?w0 = "ap_init (Some ''old'')"
  let ?w1 = "set_phase 0 Holding (?w0\<lparr>ap_holder := Some 0\<rparr>)"
  let ?w2 = "set_phase 0 Ready (?w1\<lparr>ap_disk := Some ''new'', ap_given := (ap_given ?w1)(0 := Some ''new'')\<rparr>)"
  let ?w3 = "set_phase 0 Applying (?w2\<lparr>ap_applied := (0, ''new'') # ap_applied ?w2\<rparr>)"
  have 1: "ap_step ?jobs ?w0 ?w1" by (rule ap_step.lock) (simp_all add: ap_init_def)
  have 2: "ap_step ?jobs ?w1 ?w2" by (rule ap_step.save) simp_all
  have 3: "ap_step ?jobs ?w2 ?w3" by (rule ap_step.run_apply) simp_all
  have "ap_reach ?jobs (Some ''old'') ?w3"
    by (rule ap_reach.step [OF ap_reach.step [OF ap_reach.step [OF ap_reach.start 1] 2] 3])
  then show ?thesis by (simp only: sample_applying_def Let_def)
qed

lemma apply_exclusive_witness: "\<exists>b rest. ap_applied sample_applying = (0, b) # rest \<and> ap_disk sample_applying = Some b"
proof -
  have "ap_phase sample_applying 0 = Applying" by (simp add: sample_applying_def Let_def)
  from apply_exclusive [OF sample_reach this] show ?thesis by blast
qed

text \<open>A thread that is done stays done, and its steps end: every step takes one thread on.\<close>

lemma finished_stays: "ap_step jobs w w' \<Longrightarrow> ap_phase w i = Finished \<Longrightarrow> ap_phase w' i = Finished"
  by (auto elim!: ap_stepE split: if_splits)

text \<open>C30: the lock is never lost: as long as some startup run or upload is not done, some thread can
  take its next step, whatever has failed before.\<close>

theorem apply_no_deadlock:
  assumes "ap_reach jobs d w" and "ap_phase w i \<noteq> Finished"
  shows "\<exists>w'. ap_step jobs w w'"
proof -
  have inv: "ap_inv w" by (rule ap_inv_reach [OF assms(1)])
  show ?thesis
  proof (cases "ap_holder w")
    case None
    then have "\<not> active (ap_phase w i)" using inv by (simp add: ap_inv_def)
    then have "ap_phase w i = Waiting" using assms(2) by (cases "ap_phase w i") simp_all
    with None show ?thesis by (blast intro: ap_step.lock)
  next
    case (Some j)
    then have act: "active (ap_phase w j)" using inv by (simp add: ap_inv_def)
    consider "ap_phase w j = Holding" | "ap_phase w j = Ready" | "ap_phase w j = Applying"
      using act by (auto simp: active_def)
    then show ?thesis
    proof cases
      case 1
      then show ?thesis by (cases "jobs j") (blast intro: ap_step.load_fails ap_step.save)+
    next
      case 2
      then have "ap_given w j \<noteq> None" using inv unfolding ap_inv_def by blast
      with 2 show ?thesis by (blast intro: ap_step.run_apply)
    next
      case 3
      then show ?thesis by (blast intro: ap_step.unlock)
    qed
  qed
qed

lemma apply_no_deadlock_witness: "\<exists>w'. ap_step (\<lambda>_. Upload ''new'') sample_applying w'"
proof -
  have "ap_phase sample_applying 0 \<noteq> Finished" by (simp add: sample_applying_def Let_def)
  from apply_no_deadlock [OF sample_reach this] show ?thesis .
qed

end
