(* ===== verification/Ostree.thy ===== *)
theory Ostree
  imports Config PodmanSpec Services
begin

text \<open>
  \<open>ostree.go\<close>: where an uploaded image goes, the command that applies it, and the status of the
  booted image.  Decoding JSON text is a parameter; a decoded document is a value of type \<open>json\<close>.
\<close>

section \<open>Upload path and apply command\<close>

definition defaultOstreeUploadPath :: string where
  "defaultOstreeUploadPath = ''/var/data/ostree/update.tar''"

definition ostreeUploadPath :: "Config option \<Rightarrow> string" where
  "ostreeUploadPath cfg =
     (case cfg of
        None \<Rightarrow> defaultOstreeUploadPath
      | Some c \<Rightarrow>
          (case cf_Ostree c of
             None \<Rightarrow> defaultOstreeUploadPath
           | Some os \<Rightarrow> let path = TrimSpace (os_UploadPath os) in
               if path \<noteq> [] then path else defaultOstreeUploadPath))"

definition ostreeApplyCommand :: "Config option \<Rightarrow> string list" where
  "ostreeApplyCommand cfg =
     (case Option.bind cfg cf_Ostree of
        Some os \<Rightarrow> if os_ApplyCommand os \<noteq> [] then os_ApplyCommand os
                   else [''bootc'', ''switch'', ''--transport'', ''oci-archive'', ostreeUploadPath cfg]
      | None \<Rightarrow> [''bootc'', ''switch'', ''--transport'', ''oci-archive'', ostreeUploadPath cfg])"

section \<open>JSON documents\<close>

datatype json = JNull | JBool bool | JNum string | JStr string | JArr "json list" | JObj "(string \<times> json) list"

text \<open>A Go map made from an object: the last of several members with one name counts.\<close>

definition member_of :: "(string \<times> json) list \<Rightarrow> string \<Rightarrow> json option" where
  "member_of obj k = map_of (rev obj) k"

definition unmarshal_map :: "json \<Rightarrow> (string \<times> json) list res" where
  "unmarshal_map j = (case j of JObj obj \<Rightarrow> Inr obj | JNull \<Rightarrow> Inr [] | _ \<Rightarrow> Inl (Outside ''json: cannot unmarshal''))"

fun nestedMap :: "(string \<times> json) list \<Rightarrow> string list \<Rightarrow> (string \<times> json) list option" where
  "nestedMap current [] = Some current"
| "nestedMap current (key # keys) =
     (case member_of current key of Some (JObj next_map) \<Rightarrow> nestedMap next_map keys | _ \<Rightarrow> None)"

fun nested_any :: "json \<Rightarrow> string list \<Rightarrow> json option" where
  "nested_any current [] = Some current"
| "nested_any current (key # keys) =
     (case current of
        JObj obj \<Rightarrow> nested_any (case member_of obj key of None \<Rightarrow> JNull | Some j \<Rightarrow> j) keys
      | _ \<Rightarrow> None)"

definition nestedString :: "(string \<times> json) list \<Rightarrow> string list \<Rightarrow> string" where
  "nestedString root keys = (case nested_any (JObj root) keys of Some (JStr v) \<Rightarrow> v | _ \<Rightarrow> [])"

fun firstNestedString :: "(string \<times> json) list \<Rightarrow> string list list \<Rightarrow> string" where
  "firstNestedString root [] = []"
| "firstNestedString root (path # paths) =
     (let v = nestedString root path in if v \<noteq> [] then v else firstNestedString root paths)"

section \<open>The status of the image\<close>

record ostreeStatus =
  st_Source :: string
  st_Version :: string
  st_Checksum :: string
  st_Image :: string
  st_Booted :: bool
  st_Deployment :: string
  st_Error :: string

definition no_ostreeStatus :: ostreeStatus where
  "no_ostreeStatus = \<lparr>st_Source = [], st_Version = [], st_Checksum = [], st_Image = [], st_Booted = False,
     st_Deployment = [], st_Error = []\<rparr>"

record rpmOstreeDeployment =
  de_Booted :: bool
  de_Version :: string
  de_Checksum :: string
  de_BaseCommit :: string
  de_ContainerImageReference :: string
  de_Origin :: string
  de_BaseCommitMeta :: "(string \<times> json) list option"

text \<open>The first booted deployment, or the first one.\<close>

definition choose_deployment :: "rpmOstreeDeployment list \<Rightarrow> rpmOstreeDeployment" where
  "choose_deployment ds = (case find de_Booted ds of Some d \<Rightarrow> d | None \<Rightarrow> hd ds)"

definition deployment_version :: "rpmOstreeDeployment \<Rightarrow> string \<Rightarrow> string" where
  "deployment_version d checksum =
     (let v1 = de_Version d;
          v2 = (if v1 = [] then (case Option.bind (de_BaseCommitMeta d) (\<lambda>m. member_of m ''version'') of
                   Some (JStr v) \<Rightarrow> v | _ \<Rightarrow> v1) else v1);
          v3 = (if v2 = [] then imageReferenceVersion (de_ContainerImageReference d) else v2)
      in if v3 = [] then checksum else v3)"

definition parseRPMOstreeStatus :: "(string \<Rightarrow> rpmOstreeDeployment list res) \<Rightarrow> string \<Rightarrow> ostreeStatus res" where
  "parseRPMOstreeStatus decode raw =
     res_bind (res_wrap (Wrapf ''parse rpm-ostree status: %w'' []) (decode raw)) (\<lambda>ds.
     if ds = [] then Inl (Errf ''rpm-ostree status has no deployments'' [])
     else let d = choose_deployment ds;
              checksum = (if de_Checksum d = [] then de_BaseCommit d else de_Checksum d)
          in Inr \<lparr>st_Source = ''rpm-ostree status --json'', st_Version = deployment_version d checksum,
               st_Checksum = checksum, st_Image = de_ContainerImageReference d, st_Booted = de_Booted d,
               st_Deployment = de_Origin d, st_Error = []\<rparr>)"

definition parseBootcStatus :: "(string \<Rightarrow> json res) \<Rightarrow> string \<Rightarrow> ostreeStatus res" where
  "parseBootcStatus decode raw =
     res_bind (res_wrap (Wrapf ''parse bootc status: %w'' []) (res_bind (decode raw) unmarshal_map)) (\<lambda>root.
     let booted = (case nestedMap root [''status'', ''booted''] of None \<Rightarrow> root | Some m \<Rightarrow> m);
         version = firstNestedString booted [[''image'', ''version''], [''version''], [''base'', ''version'']];
         checksum = firstNestedString booted [[''image'', ''image_digest''], [''image'', ''digest''], [''checksum''], [''base'', ''checksum'']];
         image = firstNestedString booted [[''image'', ''image''], [''image'', ''reference''], [''image'']]
     in if version = [] \<and> checksum = [] \<and> image = [] then Inl (Errf ''bootc status has no booted image/version fields'' [])
        else let v2 = (if version = [] then imageReferenceVersion image else version);
                 v3 = (if v2 = [] then checksum else v2)
             in Inr \<lparr>st_Source = ''bootc status --json'', st_Version = v3, st_Checksum = checksum, st_Image = image,
                  st_Booted = True, st_Deployment = [], st_Error = []\<rparr>)"

definition parseOstreeAdminStatus :: "string \<Rightarrow> ostreeStatus" where
  "parseOstreeAdminStatus raw =
     (case find (\<lambda>line. HasPrefix (TrimSpace line) ''*'') (Split raw (CHR 0x0A)) of
        Some line \<Rightarrow> no_ostreeStatus\<lparr>st_Source := ''ostree admin status'', st_Booted := True,
          st_Deployment := TrimSpace (TrimPrefix (TrimSpace line) ''*'')\<rparr>
      | None \<Rightarrow> no_ostreeStatus\<lparr>st_Source := ''ostree admin status''\<rparr>)"

definition runStatusCommand :: "'s runner \<Rightarrow> string \<Rightarrow> string list \<Rightarrow> ('s, string) io" where
  "runStatusCommand exec name args = runCommandOutput exec name args"

definition collectOstreeStatus :: "(string \<Rightarrow> rpmOstreeDeployment list res) \<Rightarrow> (string \<Rightarrow> json res) \<Rightarrow> 's runner \<Rightarrow>
    ('s, ostreeStatus) io" where
  "collectOstreeStatus decode_rpm decode exec =
     io_bind (io_try (runStatusCommand exec ''rpm-ostree'' [''status'', ''--json''])) (\<lambda>r1.
     case res_bind r1 (parseRPMOstreeStatus decode_rpm) of
       Inr status \<Rightarrow> io_ok status
     | Inl e1 \<Rightarrow>
     io_bind (io_try (runStatusCommand exec ''bootc'' [''status'', ''--json''])) (\<lambda>r2.
     case res_bind r2 (parseBootcStatus decode) of
       Inr status \<Rightarrow> io_ok status
     | Inl e2 \<Rightarrow>
     io_bind (io_try (runStatusCommand exec ''ostree'' [''admin'', ''status''])) (\<lambda>r3.
     case res_bind r3 (\<lambda>output. let status = parseOstreeAdminStatus output in
         if st_Deployment status \<noteq> [] then Inr status
         else Inl (Errf ''ostree admin status did not report a booted deployment'' [])) of
       Inr status \<Rightarrow> io_ok status
     | Inl e3 \<Rightarrow> io_fail (Wrapf ''ostree status unavailable: %w'' [] (Joined [e1, e2, e3])))))"

text \<open>A status is always one that a tool reported; the error names the failures of all three.\<close>

lemma collectOstreeStatus_cases:
  assumes "collectOstreeStatus decode_rpm decode exec s = (r, t)"
  shows "case r of
      Inr st \<Rightarrow> (\<exists>raw. parseRPMOstreeStatus decode_rpm raw = Inr st) \<or> (\<exists>raw. parseBootcStatus decode raw = Inr st) \<or>
        (\<exists>raw. st = parseOstreeAdminStatus raw \<and> st_Deployment st \<noteq> [])
    | Inl e \<Rightarrow> (\<exists>e1 e2 e3. e = Wrapf ''ostree status unavailable: %w'' [] (Joined [e1, e2, e3]))"
proof -
  let ?r1 = "runStatusCommand exec ''rpm-ostree'' [''status'', ''--json'']"
  let ?r2 = "runStatusCommand exec ''bootc'' [''status'', ''--json'']"
  let ?r3 = "runStatusCommand exec ''ostree'' [''admin'', ''status'']"
  obtain r1 s1 where 1: "?r1 s = (r1, s1)" by (cases "?r1 s")
  obtain r2 s2 where 2: "?r2 s1 = (r2, s2)" by (cases "?r2 s1")
  obtain r3 s3 where 3: "?r3 s2 = (r3, s3)" by (cases "?r3 s2")
  show ?thesis
  proof (cases "res_bind r1 (parseRPMOstreeStatus decode_rpm)")
    case (Inr st)
    then have "r = Inr st" using assms 1 by (simp add: collectOstreeStatus_def run_bind run_try)
    then show ?thesis using Inr by (auto simp: res_bind_Inr_iff)
  next
    case e1: (Inl e1)
    show ?thesis
    proof (cases "res_bind r2 (parseBootcStatus decode)")
      case (Inr st)
      then have "r = Inr st" using assms 1 2 e1 by (simp add: collectOstreeStatus_def run_bind run_try)
      then show ?thesis using Inr by (auto simp: res_bind_Inr_iff)
    next
      case e2: (Inl e2)
      with assms 1 2 3 e1 show ?thesis
        by (cases r3) (auto simp: collectOstreeStatus_def run_bind run_try Let_def split: if_splits)
    qed
  qed
qed

lemma find_split: "find P xs = Some d \<Longrightarrow> \<exists>ys zs. xs = ys @ d # zs \<and> P d \<and> list_all (\<lambda>x. \<not> P x) ys"
proof (induction xs)
  case (Cons x xs)
  show ?case
  proof (cases "P x")
    case True
    with Cons.prems have "x # xs = [] @ d # xs \<and> P d \<and> list_all (\<lambda>x. \<not> P x) []" by simp
    then show ?thesis by blast
  next
    case False
    with Cons obtain ys zs where "xs = ys @ d # zs" "P d" "list_all (\<lambda>x. \<not> P x) ys" by auto
    with False have "x # xs = (x # ys) @ d # zs \<and> P d \<and> list_all (\<lambda>x. \<not> P x) (x # ys)" by simp
    then show ?thesis by blast
  qed
qed simp

section \<open>Properties\<close>

text \<open>The apply command is never empty, so taking its first element is safe; without a declared
  command it switches to exactly the file an upload writes.\<close>

lemma ostreeApplyCommand_nonempty:
  "ostreeApplyCommand cfg \<noteq> [] \<and>
   (case Option.bind cfg cf_Ostree of
      Some os \<Rightarrow> (if os_ApplyCommand os = [] then last (ostreeApplyCommand cfg) = ostreeUploadPath cfg
                  else ostreeApplyCommand cfg = os_ApplyCommand os)
    | None \<Rightarrow> last (ostreeApplyCommand cfg) = defaultOstreeUploadPath) \<and>
   ostreeUploadPath cfg \<noteq> [] \<and> TrimSpace (ostreeUploadPath cfg) = ostreeUploadPath cfg"
proof -
  have "TrimSpace defaultOstreeUploadPath = defaultOstreeUploadPath" by code_simp
  moreover have "defaultOstreeUploadPath \<noteq> []" by (simp add: defaultOstreeUploadPath_def)
  ultimately show ?thesis
    by (cases cfg) (auto simp: ostreeApplyCommand_def ostreeUploadPath_def Let_def split: option.splits)
qed


definition sample_deployment :: "bool \<Rightarrow> string \<Rightarrow> rpmOstreeDeployment" where
  "sample_deployment b v = \<lparr>de_Booted = b, de_Version = v, de_Checksum = ''abc'', de_BaseCommit = [],
     de_ContainerImageReference = ''quay.io/os:41'', de_Origin = v, de_BaseCommitMeta = None\<rparr>"


end
