(* ===== verification/Server.thy ===== *)
theory Server
  imports Orchestration Provision Ostree LogRing
begin

text \<open>
  \<open>server.go\<close>: the listener, the routes and the handlers of the HTTP API.  The JSON decoder, the
  status collector, the lock, the commands and the apply of a configuration are parameters.  Closing the body of a
  request and a response that cannot be written have no effect the code looks at and are left out.
\<close>

section \<open>Listening\<close>

definition defaultListenAddress :: string where
  "defaultListenAddress = ''unix:///run/edgecommander/edgecommander.sock''"

definition parseListenAddress :: "string \<Rightarrow> string \<times> string" where
  "parseListenAddress address =
     (case CutPrefix address ''unix:'' of
        (rest, ok) \<Rightarrow> if ok then (''unix'', TrimPrefix rest ''//'') else (''tcp'', address))"

datatype listener = UnixListener string | TCPListener string

text \<open>Binding a Unix socket makes a file of its own kind; closing the listener removes it.\<close>

definition bind_unix :: "string \<Rightarrow> ('x fs_scheme, listener) io" where
  "bind_unix path = syscall nothing (\<lambda>s.
     let p = resolve path in
     if p = [] \<or> name_of s p \<noteq> None then (Inl (Outside ''address already in use''), s)
     else if \<not> is_dir s (butlast p) then (Inl (path_error s p), s)
     else (Inr (UnixListener path), create_at p Socket 511 s))"

definition close_listener :: "listener \<Rightarrow> ('x fs_scheme, unit) io" where
  "close_listener l = (case l of UnixListener path \<Rightarrow> os_Remove path | TCPListener _ \<Rightarrow> io_ok ())"

definition os_Lstat :: "string \<Rightarrow> ('x fs_scheme, inode) io" where
  "os_Lstat path = os_Stat (resolve path)"

definition clear_stale_socket :: "string \<Rightarrow> ('x fs_scheme, unit) io" where
  "clear_stale_socket path =
     io_bind (io_try (os_Lstat path)) (\<lambda>st.
     case st of
       Inr info \<Rightarrow>
         if ino_kind info \<noteq> Socket then io_fail (Errf ''refusing to remove non-socket file at %q'' [path])
         else io_wrap (Wrapf ''remove stale socket %q: %w'' [path]) (os_Remove path)
     | Inl e \<Rightarrow> if e \<noteq> ErrNotExist then io_fail (Wrapf ''stat socket %q: %w'' [path] e) else io_ok ())"

definition listenUnix :: "string \<Rightarrow> ('x fs_scheme, listener) io" where
  "listenUnix path =
     (if path = [] then io_fail (Errf ''empty unix socket path'' [])
      else
        io_then (io_wrap (Wrapf ''create socket dir %q: %w'' [Dir path]) (os_MkdirAll (Dir path) 493))
        (io_then (clear_stale_socket path)
        (io_bind (bind_unix path) (\<lambda>l.
         io_bind (io_try (os_Chmod path 432)) (\<lambda>r.
         case r of
           Inl e \<Rightarrow> io_then (io_try (close_listener l)) (io_fail (Wrapf ''set socket mode %q: %w'' [path] e))
         | Inr _ \<Rightarrow> io_ok l)))))"

definition listen :: "(string \<Rightarrow> ('x fs_scheme, unit) io) \<Rightarrow> string \<Rightarrow> ('x fs_scheme, listener) io" where
  "listen tcp address =
     (case parseListenAddress address of
        (network, addr) \<Rightarrow>
          if network = ''unix'' then listenUnix addr
          else io_then (tcp addr) (io_ok (TCPListener addr)))"

definition startWebServer :: "(string \<Rightarrow> ('x fs_scheme, unit) io) \<Rightarrow> string \<Rightarrow> ('x fs_scheme, listener) io" where
  "startWebServer tcp address =
     io_bind (io_wrap (Wrapf ''start webserver on %s failed: %w'' [address]) (listen tcp address)) (\<lambda>l.
     io_then (logf ''webserver listening on %s'' [address]) (io_ok l))"

text \<open>What the goroutine sends when \<open>Serve\<close> returns.\<close>

definition serve_result :: "(err \<Rightarrow> bool) \<Rightarrow> unit res \<Rightarrow> err option" where
  "serve_result is_closed r = (case r of Inl e \<Rightarrow> if \<not> is_closed e then Some e else None | Inr _ \<Rightarrow> None)"

section \<open>Requests and responses\<close>

record request =
  rq_Method :: string
  rq_Path :: string
  rq_RawQuery :: string
  rq_Body :: "string list \<times> err option"

record response =
  rs_Code :: nat
  rs_Type :: string
  rs_Allow :: "string list"
  rs_Body :: string

definition text_plain :: string where "text_plain = ''text/plain; charset=utf-8''"

definition newline :: string where "newline = [CHR 0x0A]"

definition http_Error :: "string \<Rightarrow> nat \<Rightarrow> response" where
  "http_Error msg c = \<lparr>rs_Code = c, rs_Type = text_plain, rs_Allow = [], rs_Body = msg @ newline\<rparr>"

definition respond :: "string \<Rightarrow> response" where
  "respond msg = \<lparr>rs_Code = 200, rs_Type = text_plain, rs_Allow = [], rs_Body = msg @ newline\<rparr>"

lemma response_code [simp]: "rs_Code (http_Error msg c) = c" "rs_Code (respond msg) = 200"
  by (simp_all add: http_Error_def respond_def)

text \<open>\<open>io.ReadAll\<close> of a \<open>http.MaxBytesReader\<close>.\<close>

definition read_limited :: "nat \<Rightarrow> string list \<times> err option \<Rightarrow> string res" where
  "read_limited limit body =
     (if limit < length (concat (fst body)) then Inl (Outside ''http: request body too large'')
      else case snd body of None \<Rightarrow> Inr (concat (fst body)) | Some e \<Rightarrow> Inl e)"

text \<open>\<open>url.Values\<close> of a query string: pairs that cannot be decoded are left out.\<close>

definition hex_digit :: "char \<Rightarrow> nat option" where
  "hex_digit c =
     (if is_digit c then Some (code c - 48)
      else if 97 \<le> code c \<and> code c \<le> 102 then Some (code c - 87)
      else if 65 \<le> code c \<and> code c \<le> 70 then Some (code c - 55) else None)"

fun QueryUnescape :: "string \<Rightarrow> string option" where
  "QueryUnescape [] = Some []"
| "QueryUnescape (c # r) =
     (if c = CHR ''%'' then
        (case r of
           a # b # q \<Rightarrow>
             (case (hex_digit a, hex_digit b) of
                (Some x, Some y) \<Rightarrow> map_option (Cons (char_of (16 * x + y))) (QueryUnescape q)
              | _ \<Rightarrow> None)
         | _ \<Rightarrow> None)
      else map_option (Cons (if c = CHR ''+'' then CHR '' '' else c)) (QueryUnescape r))"

definition query_pair :: "string \<Rightarrow> (string \<times> string) option" where
  "query_pair part =
     (if CHR '';'' \<in> set part \<or> part = [] then None
      else case Cut part (CHR ''='') of (k, v, _) \<Rightarrow>
        (case (QueryUnescape k, QueryUnescape v) of (Some key, Some val) \<Rightarrow> Some (key, val) | _ \<Rightarrow> None))"

definition ParseQuery :: "string \<Rightarrow> (string \<times> string) list" where
  "ParseQuery q = List.map_filter query_pair (Split q (CHR ''&''))"

definition query_Get :: "(string \<times> string) list \<Rightarrow> string \<Rightarrow> string" where
  "query_Get q k = (case map_of q k of None \<Rightarrow> [] | Some v \<Rightarrow> v)"

section \<open>Handlers\<close>

text \<open>The state counts the goroutines started to reboot the host.\<close>

record web = fs +
  wb_reboots :: nat

definition go_rebootScheduler :: "('x web_scheme, unit) io" where
  "go_rebootScheduler = (\<lambda>s. (Inr (), s\<lparr>wb_reboots := Suc (wb_reboots s)\<rparr>))"

text \<open>What the handlers are given: the seams of the code, the lock, the user database, the decoder
  and the text of an error.\<close>

record ('x, 'st) server_env =
  sv_json :: "string \<Rightarrow> Config res"
  sv_users :: users
  sv_configApplier :: "Config \<Rightarrow> ('x web_scheme, unit) io"
  sv_Lock :: "('x web_scheme, unit) io"
  sv_Unlock :: "('x web_scheme, unit) io"
  sv_exec :: "'x web_scheme runner"
  sv_statusCollector :: "string \<Rightarrow> ('x web_scheme, 'st) io"
  sv_encode :: "'st \<Rightarrow> string res"
  sv_err :: "err \<Rightarrow> string"

definition maxConfigUploadBytes :: nat where
  "maxConfigUploadBytes = 2 ^ 20"

definition handleHealth :: "('x web_scheme, response) io" where
  "handleHealth = io_ok (respond ''edgecommander running'')"

definition handleEdgecommanderStatus :: "('x, 'st) server_env \<Rightarrow> string \<Rightarrow> ('x web_scheme, response) io" where
  "handleEdgecommanderStatus sv configPath =
     io_bind (sv_statusCollector sv configPath) (\<lambda>status.
     case sv_encode sv status of
       Inr doc \<Rightarrow> io_ok \<lparr>rs_Code = 200, rs_Type = ''application/json; charset=utf-8'', rs_Allow = [], rs_Body = doc\<rparr>
     | Inl e \<Rightarrow> io_then (logf ''write edgecommander status failed: %v'' [sv_err sv e])
         (io_ok \<lparr>rs_Code = 200, rs_Type = ''application/json; charset=utf-8'', rs_Allow = [], rs_Body = []\<rparr>))"

definition rejected :: "string \<Rightarrow> ('x web_scheme, response) io" where
  "rejected msg = io_then (logf ''config upload rejected: %s'' [msg]) (io_ok (http_Error msg 400))"

definition save_and_apply :: "('x, 'st) server_env \<Rightarrow> string \<Rightarrow> string \<Rightarrow> Config \<Rightarrow> ('x web_scheme, response) io" where
  "save_and_apply sv configPath body cfg =
     io_bind (io_try (writeConfigFile configPath body)) (\<lambda>w.
     case w of
       Inl e \<Rightarrow> let msg = ''save config: '' @ sv_err sv e in
         io_then (logf ''config upload failed: %s'' [msg]) (io_ok (http_Error msg 500))
     | Inr _ \<Rightarrow>
     io_bind (io_try (sv_configApplier sv cfg)) (\<lambda>a.
     case a of
       Inl e \<Rightarrow> io_then (logf ''apply uploaded config failed: %v'' [sv_err sv e])
         (io_ok (http_Error (''config saved to '' @ configPath @ '' but apply failed: '' @ sv_err sv e) 500))
     | Inr _ \<Rightarrow> io_then (logf ''config uploaded and applied to %s (%d bytes)'' [configPath, nat_string 10 (length body)])
         (io_ok (respond (''config saved to '' @ configPath @ '' and applied'')))))"

definition handleConfigUpload :: "('x, 'st) server_env \<Rightarrow> request \<Rightarrow> string \<Rightarrow> ('x web_scheme, response) io" where
  "handleConfigUpload sv r configPath =
     (case read_limited maxConfigUploadBytes (rq_Body r) of
        Inl e \<Rightarrow> rejected (''read config: '' @ sv_err sv e)
      | Inr body \<Rightarrow>
      (case sv_json sv body of
        Inl e \<Rightarrow> rejected (''parse config: '' @ sv_err sv e)
      | Inr cfg \<Rightarrow>
      (case validateConfig (sv_users sv) cfg of
        Inl e \<Rightarrow> rejected (''invalid config: '' @ sv_err sv e)
      | Inr _ \<Rightarrow> io_then (sv_Lock sv) (io_finally (save_and_apply sv configPath body cfg) (sv_Unlock sv)))))"

definition handleRestart :: "('x web_scheme, response) io" where
  "handleRestart =
     io_then (logf ''restart requested; scheduling reboot'' [])
     (io_then go_rebootScheduler (io_ok (respond ''rebooting'')))"

definition load_failed :: "('x, 'st) server_env \<Rightarrow> err \<Rightarrow> response" where
  "load_failed sv e = http_Error (''load config: '' @ sv_err sv e) 500"

definition handleOstreeUpload :: "('x, 'st) server_env \<Rightarrow> request \<Rightarrow> string \<Rightarrow> ('x web_scheme, response) io" where
  "handleOstreeUpload sv r configPath =
     io_bind (io_try (loadConfig (sv_json sv) configPath)) (\<lambda>l.
     case l of
       Inl e \<Rightarrow> io_ok (load_failed sv e)
     | Inr cfg \<Rightarrow>
     let dest = ostreeUploadPath (Some cfg) in
     io_bind (io_try (streamToFileAtomic dest (rq_Body r))) (\<lambda>w.
     case w of
       Inl e \<Rightarrow> io_ok (http_Error (sv_err sv e) 500)
     | Inr written \<Rightarrow> io_then (logf ''ostree image uploaded to %s (%d bytes)'' [dest, nat_string 10 written])
         (io_ok (respond (''uploaded '' @ nat_string 10 written @ '' bytes to '' @ dest)))))"

definition handleOstreeUpgrade :: "('x, 'st) server_env \<Rightarrow> request \<Rightarrow> string \<Rightarrow> ('x web_scheme, response) io" where
  "handleOstreeUpgrade sv r configPath =
     io_bind (io_try (loadConfig (sv_json sv) configPath)) (\<lambda>l.
     case l of
       Inl e \<Rightarrow> io_ok (load_failed sv e)
     | Inr cfg \<Rightarrow>
     let reboot = (query_Get (ParseQuery (rq_RawQuery r)) ''reboot'' \<noteq> ''false'');
         command = ostreeApplyCommand (Some cfg)
     in io_then (logf ''applying ostree update: %s'' [Join command '' ''])
        (io_bind (io_try (runCommand (sv_exec sv) (hd command) (tl command))) (\<lambda>a.
         case a of
           Inl e \<Rightarrow> io_then (logf ''ostree apply failed: %v'' [sv_err sv e])
             (io_ok (http_Error (''apply update failed: '' @ sv_err sv e) 500))
         | Inr _ \<Rightarrow>
             if \<not> reboot then io_then (logf ''ostree update applied; reboot skipped'' [])
               (io_ok (respond ''update applied; reboot skipped''))
             else io_then (logf ''ostree update applied; scheduling reboot'' [])
               (io_then go_rebootScheduler (io_ok (respond ''update applied; rebooting''))))))"

text \<open>The goroutine: a pause, then the command.\<close>

definition scheduleReboot :: "('x host_scheme, unit) io \<Rightarrow> 'x host_scheme runner \<Rightarrow> (err \<Rightarrow> string) \<Rightarrow> ('x host_scheme, unit) io" where
  "scheduleReboot sleep rebootCommandFunc err_text =
     io_then sleep
     (io_bind (io_try (runCommand rebootCommandFunc ''systemctl'' [''reboot''])) (\<lambda>r.
      case r of Inl e \<Rightarrow> logf ''reboot failed: %v'' [err_text e] | Inr _ \<Rightarrow> io_ok ()))"

section \<open>Routes\<close>

datatype endpoint = Health | Status | ConfigUpload | Restart | OstreeUpload | OstreeUpgrade

definition newServeMux :: "(string \<times> string \<times> endpoint) list" where
  "newServeMux =
     [(''GET'', ''/edgecommander/health'', Health), (''GET'', ''/edgecommander/status'', Status),
      (''POST'', ''/edgecommander/config'', ConfigUpload), (''PUT'', ''/edgecommander/config'', ConfigUpload),
      (''POST'', ''/edgecommander/restart'', Restart),
      (''POST'', ''/edgecommander/ostree/upload'', OstreeUpload), (''PUT'', ''/edgecommander/ostree/upload'', OstreeUpload),
      (''POST'', ''/edgecommander/ostree/upgrade'', OstreeUpgrade)]"

text \<open>The handlers as an enumerated type, so that what holds for every handler can be evaluated.\<close>

instantiation endpoint :: enum
begin

definition enum_endpoint :: "endpoint list" where
  "enum_endpoint = [Health, Status, ConfigUpload, Restart, OstreeUpload, OstreeUpgrade]"

definition enum_all_endpoint :: "(endpoint \<Rightarrow> bool) \<Rightarrow> bool" where
  "enum_all_endpoint P \<longleftrightarrow> list_all P enum_class.enum"

definition enum_ex_endpoint :: "(endpoint \<Rightarrow> bool) \<Rightarrow> bool" where
  "enum_ex_endpoint P \<longleftrightarrow> list_ex P enum_class.enum"

instance
proof
  show all: "UNIV = set (enum_class.enum :: endpoint list)"
    using endpoint.exhaust by (auto simp: enum_endpoint_def)
  show "distinct (enum_class.enum :: endpoint list)" by (simp add: enum_endpoint_def)
  show "enum_class.enum_all P \<longleftrightarrow> Ball UNIV P" "enum_class.enum_ex P \<longleftrightarrow> Bex UNIV P" for P :: "endpoint \<Rightarrow> bool"
    unfolding all by (simp_all add: enum_all_endpoint_def enum_ex_endpoint_def list_all_iff list_ex_iff)
qed

end

text \<open>
  The documented behaviour of \<open>http.ServeMux\<close> for patterns of a method and a whole path: \<open>GET\<close>
  stands for \<open>HEAD\<close> too; a path that is not clean is redirected; a path with other methods gives
  405 and those methods, which the library sorts and the model leaves as registered.
\<close>

definition methods_of :: "string \<Rightarrow> string list" where
  "methods_of m = (if m = ''GET'' then [''GET'', ''HEAD''] else [m])"

definition cleanPath :: "string \<Rightarrow> string" where
  "cleanPath p =
     (let q = (if HasPrefix p ''/'' then p else ''/'' @ p); np = Clean q
      in if HasSuffix p ''/'' \<and> np \<noteq> ''/'' then np @ ''/'' else np)"

datatype route = To endpoint | Redirected string | NotAllowed "string list" | Missing

definition mux_route :: "(string \<times> string \<times> endpoint) list \<Rightarrow> string \<Rightarrow> string \<Rightarrow> route" where
  "mux_route routes meth path =
     (if meth \<noteq> ''CONNECT'' \<and> cleanPath path \<noteq> path then Redirected (cleanPath path)
      else case find (\<lambda>(m, p, _). p = path \<and> meth \<in> set (methods_of m)) routes of
        Some (_, _, e) \<Rightarrow> To e
      | None \<Rightarrow>
          let allowed = concat (map (\<lambda>(m, _, _). methods_of m) (filter (\<lambda>(_, p, _). p = path) routes)) in
          if allowed = [] then Missing else NotAllowed allowed)"

text \<open>Every handler is reached by each of the routes registered for it.\<close>

lemma routes_reach_handlers:
  "\<forall>e. list_ex (\<lambda>(m, p, e'). e' = e) newServeMux \<and>
     list_all (\<lambda>(m, p, e'). if e' = e then mux_route newServeMux m p = To e else True) newServeMux"
  by code_simp

definition handle :: "('x, 'st) server_env \<Rightarrow> endpoint \<Rightarrow> request \<Rightarrow> string \<Rightarrow> ('x web_scheme, response) io" where
  "handle sv e r configPath =
     (case e of
        Health \<Rightarrow> handleHealth
      | Status \<Rightarrow> handleEdgecommanderStatus sv configPath
      | ConfigUpload \<Rightarrow> handleConfigUpload sv r configPath
      | Restart \<Rightarrow> handleRestart
      | OstreeUpload \<Rightarrow> handleOstreeUpload sv r configPath
      | OstreeUpgrade \<Rightarrow> handleOstreeUpgrade sv r configPath)"

text \<open>The redirect is written by the library; its value here is \<open>None\<close>.\<close>

definition ServeHTTP :: "('x, 'st) server_env \<Rightarrow> string \<Rightarrow> request \<Rightarrow> ('x web_scheme, response option) io" where
  "ServeHTTP sv configPath r =
     (case mux_route newServeMux (rq_Method r) (rq_Path r) of
        To e \<Rightarrow> io_bind (handle sv e r configPath) (\<lambda>w. io_ok (Some w))
      | Redirected _ \<Rightarrow> io_ok None
      | NotAllowed allowed \<Rightarrow> io_ok (Some ((http_Error ''Method Not Allowed'' 405)\<lparr>rs_Allow := allowed\<rparr>))
      | Missing \<Rightarrow> io_ok (Some (http_Error ''404 page not found'' 404)))"

section \<open>The listener\<close>

lemma name_none_inode: "name_of s p = None \<Longrightarrow> inode_at s p = None"
  by (simp add: inode_at_def)

lemma sep_unlink: "sep s \<Longrightarrow> sep (set_name p None s)"
  by (auto simp: sep_def intro: fs_wf_set_name)

lemma inode_at_unlink: "inode_at (set_name p None s) q = (if q = p then None else inode_at s q)"
  by (simp add: inode_at_def split: option.splits)

lemma kept_unlink: "kept_but P s t \<Longrightarrow> p \<in> P \<or> inode_at s p = None \<Longrightarrow> kept_but P s (set_name p None t)"
  by (auto simp: kept_but_def sep_unlink inode_at_unlink)

lemma Remove_keeps:
  assumes "resolve path \<in> P \<or> inode_at s (resolve path) = None"
  shows "io_keeps (kept_but P s) (os_Remove path)"
  unfolding os_Remove_def Let_def
  by (rule keeps_syscall) (use assms in \<open>auto split: option.splits if_splits intro: kept_unlink\<close>)

lemma bind_keeps: "io_keeps (kept_but P s) (bind_unix path)"
  unfolding bind_unix_def Let_def
  by (rule keeps_syscall) (auto split: if_splits simp: kept_create_new name_none_inode)

lemma bind_run:
  assumes "bind_unix path s = (Inr l, t)" "sep s"
  shows "l = UnixListener path \<and> inode_at s (resolve path) = None \<and>
    (\<exists>i. inode_at t (resolve path) = Some i \<and> ino_kind i = Socket)"
  using assms(1) unfolding bind_unix_def Let_def
proof (cases rule: syscall_cases)
  case (ran fs)
  have "fs_wf (s\<lparr>fs_faults := fs\<rparr>)" using assms(2) by (simp add: sep_def)
  with ran show ?thesis by (auto simp: inode_at_create new_inode_def name_none_inode split: if_splits)
qed simp_all

lemma kept_change_new:
  "kept_but P s t \<Longrightarrow> name_of t p = Some n \<Longrightarrow> p \<in> P \<or> inode_at s p = None \<Longrightarrow> kept_but P s (change n g t)"
  by (auto simp: kept_but_def sep_change inode_at_change)

lemma Chmod_keeps:
  assumes "resolve path \<in> P \<or> inode_at s (resolve path) = None"
  shows "io_keeps (kept_but P s) (os_Chmod path m)"
  unfolding os_Chmod_def
  by (rule keeps_syscall) (use assms in \<open>auto split: option.splits intro: kept_change_new\<close>)

lemma syscall_not_missing:
  assumes "syscall part eff s = (r, t)" "\<And>fs. fst (eff (s\<lparr>fs_faults := fs\<rparr>)) \<noteq> Inl ErrNotExist"
  shows "r \<noteq> Inl ErrNotExist"
proof -
  have "s\<lparr>fs_faults := fs_faults s\<rparr> = s" by simp
  with assms(2) [of "fs_faults s"] have "fst (eff s) \<noteq> Inl ErrNotExist" by simp
  with assms show ?thesis
    unfolding syscall_def by (auto split: if_splits list.splits fault.splits) (metis fst_conv)+
qed

lemma Lstat_run:
  assumes "os_Lstat path s = (r, t)" "inode_at s (resolve path) = Some i" "ino_kind i \<noteq> Socket"
  shows "(\<exists>j. r = Inr j \<and> ino_kind j \<noteq> Socket) \<or> (\<exists>e. r = Inl e \<and> e \<noteq> ErrNotExist)"
proof -
  have "r \<noteq> Inl ErrNotExist"
    by (rule syscall_not_missing [OF assms(1) [unfolded os_Lstat_def os_Stat_def]]) (simp add: assms(2,3))
  moreover have "(\<exists>j. r = Inr j \<and> ino_kind j \<noteq> Socket) \<or> (\<exists>e. r = Inl e)"
    using assms(1) unfolding os_Lstat_def os_Stat_def
    by (cases rule: syscall_cases) (use assms(2,3) in \<open>auto simp: new_inode_def split: if_splits\<close>)
  ultimately show ?thesis by auto
qed

text \<open>A file of another kind at the path stops the listener.\<close>

lemma clear_stale_refuses:
  assumes "inode_at s (resolve path) = Some i" "ino_kind i \<noteq> Socket" "clear_stale_socket path s = (r, t)"
  shows "\<not> is_ok r \<and> t = snd (os_Lstat path s)"
proof -
  obtain st u where st: "os_Lstat path s = (st, u)" by (cases "os_Lstat path s")
  from Lstat_run [OF this assms(1,2)] assms(3) st show ?thesis
    by (auto simp: clear_stale_socket_def io_laws)
qed

lemma listenUnix_refuses:
  assumes "sep s" "listenUnix path s = (r, t)" "inode_at s (resolve path) = Some i" "ino_kind i \<noteq> Socket"
  shows "\<not> is_ok r \<and> kept_but {} s t"
proof (cases "path = []")
  case False
  obtain mk u where 1: "os_MkdirAll (Dir path) 493 s = (mk, u)" by (cases "os_MkdirAll (Dir path) 493 s")
  have k: "kept_but {} s u" by (rule io_keepsD [OF MkdirAll_keeps kept_refl [OF assms(1)] 1])
  obtain c v where 2: "clear_stale_socket path u = (c, v)" by (cases "clear_stale_socket path u")
  have "inode_at u (resolve path) = Some i" using k assms(3) by (simp add: kept_but_def)
  from clear_stale_refuses [OF this assms(4) 2] obtain e where c: "c = Inl e" "v = snd (os_Lstat path u)"
    by (cases c) auto
  have "io_keeps (kept_but {} s) (os_Lstat path)" by (simp add: os_Lstat_def Stat_keeps)
  then have "kept_but {} s v" using k c(2) by (metis io_keepsD prod.collapse)
  with k False assms(2) 1 2 c(1) show ?thesis
    by (cases mk) (auto simp: listenUnix_def run_then run_wrap)
qed (use assms in \<open>auto simp: listenUnix_def kept_refl\<close>)

lemma clear_stale_keeps:
  assumes "resolve path \<in> P \<or> inode_at s (resolve path) = None"
  shows "io_keeps (kept_but P s) (clear_stale_socket path)"
  unfolding clear_stale_socket_def os_Lstat_def
  by (intro keep_rules Stat_keeps Remove_keeps assms)

lemma listenUnix_keeps:
  assumes "resolve path \<in> P \<or> inode_at s (resolve path) = None"
  shows "io_keeps (kept_but P s) (listenUnix path)"
  unfolding listenUnix_def
proof (intro keeps_pure keeps_if keeps_then keeps_wrap MkdirAll_keeps clear_stale_keeps assms)
  show "io_keeps (kept_but P s) (io_bind (bind_unix path) (\<lambda>l. io_bind (io_try (os_Chmod path 432)) (\<lambda>r.
      case r of Inl e \<Rightarrow> io_then (io_try (close_listener l)) (io_fail (Wrapf ''set socket mode %q: %w'' [path] e))
      | Inr _ \<Rightarrow> io_ok l)))"
  proof (rule keeps_bind_value [OF bind_keeps])
    fix t l u assume t: "kept_but P s t" and l: "bind_unix path t = (Inr l, u)"
    from t have "sep t" by (simp add: kept_but_def)
    with bind_run [OF l] have "l = UnixListener path" by simp
    then have "io_keeps (kept_but P s) (close_listener l)" by (simp add: close_listener_def Remove_keeps assms)
    then show "io_keeps (kept_but P s) (io_bind (io_try (os_Chmod path 432)) (\<lambda>r.
      case r of Inl e \<Rightarrow> io_then (io_try (close_listener l)) (io_fail (Wrapf ''set socket mode %q: %w'' [path] e))
      | Inr _ \<Rightarrow> io_ok l))"
      by (intro keep_rules Chmod_keeps assms)
  qed
qed

lemma listenUnix_success:
  assumes "listenUnix path s = (Inr l, t)" "sep s"
  shows "\<exists>i. inode_at t (resolve path) = Some i \<and> ino_kind i = Socket \<and> ino_mode i = 432"
proof -
  from assms(1) obtain u1 u2 u3 where path: "path \<noteq> []" and 1: "os_MkdirAll (Dir path) 493 s = (Inr (), u1)"
    and 2: "clear_stale_socket path u1 = (Inr (), u2)" and 3: "bind_unix path u2 = (Inr l, u3)"
    and 4: "os_Chmod path 432 u3 = (Inr (), t)"
    by (auto simp: listenUnix_def success_simps split: if_splits sum.splits) (metis obj_sumE old.unit.exhaust)
  let ?P = "{resolve path}"
  have k1: "kept_but ?P s u1" by (rule io_keepsD [OF MkdirAll_keeps kept_refl [OF assms(2)] 1])
  have k2: "kept_but ?P s u2" by (rule io_keepsD [OF clear_stale_keeps k1 2]) simp
  then have "sep u2" by (simp add: kept_but_def)
  note b = bind_run [OF 3 this]
  have "kept_but ?P s u3" by (rule io_keepsD [OF bind_keeps k2 3])
  then have "sep u3" by (simp add: kept_but_def)
  from Chmod_run [OF 4 this] b show ?thesis by (auto simp: syscallMode_def)
qed

section \<open>What the handlers do\<close>

lemma web_frame [simp]: "wb_reboots (s\<lparr>ho_log := l\<rparr>) = wb_reboots s" "wb_reboots (s\<lparr>fs_faults := fs\<rparr>) = wb_reboots s"
    "wb_reboots (s\<lparr>fs_off := b\<rparr>) = wb_reboots s" "wb_reboots (s\<lparr>wb_reboots := n\<rparr>) = n"
  by (cases s; simp)+

lemma read_limited_ok: "read_limited n body = Inr x \<longleftrightarrow> snd body = None \<and> x = concat (fst body) \<and> length x \<le> n"
  by (auto simp: read_limited_def split: option.splits)

text \<open>The file a configuration is kept in, as a reader and as the next boot may find it.\<close>

definition same_content :: "loc \<Rightarrow> 'x fs_scheme \<Rightarrow> 'x fs_scheme \<Rightarrow> bool" where
  "same_content p s t \<longleftrightarrow> reads t p = reads s p \<and> (\<forall>x. may_read t p x \<longleftrightarrow> may_read s p x)"

lemma inode_at_log [simp]: "inode_at (t\<lparr>ho_log := l\<rparr>) p = inode_at t p"
  by (simp add: inode_at_def split: option.splits)

lemma same_content_log [simp]: "same_content p s (t\<lparr>ho_log := l\<rparr>) = same_content p s t"
  by (simp add: same_content_def reads_def may_read_def)

lemma same_content_refl [simp]: "same_content p s s"
  by (simp add: same_content_def)

text \<open>The body and the configuration of a request that passes all checks.\<close>

definition accepted :: "('x, 'st) server_env \<Rightarrow> request \<Rightarrow> (string \<times> Config) option" where
  "accepted sv r =
     (case read_limited maxConfigUploadBytes (rq_Body r) of
        Inl _ \<Rightarrow> None
      | Inr body \<Rightarrow>
      (case sv_json sv body of
        Inl _ \<Rightarrow> None
      | Inr cfg \<Rightarrow> if is_ok (validateConfig (sv_users sv) cfg) then Some (body, cfg) else None))"

text \<open>What the handlers rely on: the lock can be taken, and neither taking it nor giving it back
  nor the apply changes the configuration file.\<close>

locale upload_env =
  fixes sv :: "('x, 'st) server_env" and p :: loc
  assumes lock: "\<exists>t. sv_Lock sv s = (Inr (), t) \<and> same_content p s t \<and> (fs_wf s \<longrightarrow> fs_wf t)"
    and unlock: "sv_Unlock sv s = (r, t) \<Longrightarrow> same_content p s t"
    and applied: "sv_configApplier sv cfg s = (a, t) \<Longrightarrow> same_content p s t"
begin

definition saved :: "string \<Rightarrow> 'x web_scheme \<Rightarrow> 'x web_scheme \<Rightarrow> bool" where
  "saved body s t \<longleftrightarrow> (\<forall>x. may_read t p x \<longrightarrow> may_read s p x \<or> x = body) \<and> (reads t p = reads s p \<or> reads t p = Some body)"

definition on_disk :: "string \<Rightarrow> 'x web_scheme \<Rightarrow> bool" where
  "on_disk body t \<longleftrightarrow> reads t p = Some body \<and> (\<forall>x. may_read t p x \<longleftrightarrow> x = body)"

lemma saved_from: "same_content p s t \<Longrightarrow> saved body t u \<Longrightarrow> saved body s u"
  by (simp add: saved_def same_content_def)

lemma saved_same: "saved body s t \<Longrightarrow> same_content p t u \<Longrightarrow> saved body s u"
  by (simp add: saved_def same_content_def)

lemma on_disk_same: "on_disk body t \<Longrightarrow> same_content p t u \<Longrightarrow> on_disk body u"
  by (simp add: on_disk_def same_content_def)

text \<open>Saving and applying always gives a response; 200 means saved on the disk and applied.\<close>

lemma save_and_apply_run:
  assumes "fs_wf s" "plain_elem b" "\<not> HasPrefix b ''.config-''" "p = resolve d @ [b]"
    and run: "save_and_apply sv (d @ CHR ''/'' # b) body cfg s = (q, t)"
  shows "\<exists>w. q = Inr w \<and> saved body s t \<and> (rs_Code w = 500 \<or> rs_Code w = 200 \<and> on_disk body t \<and>
    (\<exists>u v. on_disk body u \<and> sv_configApplier sv cfg u = (Inr (), v)))"
proof -
  let ?path = "d @ CHR ''/'' # b"
  obtain wr u where 1: "writeConfigFile ?path body s = (wr, u)" by (cases "writeConfigFile ?path body s")
  have wf: "settled True p body s u" "is_ok wr \<longrightarrow> replaced p body s u \<and> lasting p u"
    using writeConfigFile_run [OF assms(1-3) 1] by (simp_all add: assms(4))
  from settled_reads [OF assms(1) wf(1)] have sv: "saved body s u"
    unfolding saved_def by blast
  show ?thesis
  proof (cases wr)
    case (Inl e)
    have "q = Inr (http_Error (''save config: '' @ sv_err sv e) 500) \<and> same_content p u t"
      using run 1 Inl by (auto simp: save_and_apply_def io_laws Let_def)
    with saved_same [OF sv] show ?thesis by auto
  next
    case (Inr x)
    from wf(2) Inr have "replaced p body s u" "lasting p u" by simp_all
    with lasting_reads have disk: "on_disk body u" unfolding on_disk_def by blast
    obtain a v where 2: "sv_configApplier sv cfg u = (a, v)" by (cases "sv_configApplier sv cfg u")
    note keep = applied [OF 2]
    show ?thesis
    proof (cases a)
      case (Inl e)
      have "\<exists>w. q = Inr w \<and> rs_Code w = 500 \<and> same_content p v t"
        using run 1 2 Inr Inl by (auto simp: save_and_apply_def io_laws)
      with saved_same [OF saved_same [OF sv keep]] show ?thesis by auto
    next
      case a: (Inr z)
      have "\<exists>w. q = Inr w \<and> rs_Code w = 200 \<and> same_content p v t"
        using run 1 2 Inr a by (auto simp: save_and_apply_def io_laws)
      with saved_same [OF saved_same [OF sv keep]] on_disk_same [OF on_disk_same [OF disk keep]] disk 2 a
      show ?thesis by auto
    qed
  qed
qed

lemma upload_run:
  assumes "fs_wf s" "plain_elem b" "\<not> HasPrefix b ''.config-''" "p = resolve d @ [b]"
    and run: "handleConfigUpload sv r (d @ CHR ''/'' # b) s = (q, t)"
  shows "\<exists>w. q = Inr w \<and>
    (case accepted sv r of
       None \<Rightarrow> rs_Code w = 400 \<and> (\<exists>l. t = s\<lparr>ho_log := l\<rparr>)
     | Some (body, cfg) \<Rightarrow> saved body s t \<and> (rs_Code w = 500 \<or> rs_Code w = 200 \<and> on_disk body t \<and>
         (\<exists>u v. on_disk body u \<and> sv_configApplier sv cfg u = (Inr (), v))))"
proof (cases "accepted sv r")
  case None
  then show ?thesis
    using run by (auto simp: handleConfigUpload_def accepted_def rejected_def io_laws is_ok_iff split: sum.splits)
next
  case (Some bc)
  obtain body cfg where bc: "bc = (body, cfg)" by (cases bc)
  obtain u where 1: "sv_Lock sv s = (Inr (), u)" "same_content p s u" "fs_wf u" using lock [of s] assms(1) by blast
  obtain q' v where 2: "save_and_apply sv (d @ CHR ''/'' # b) body cfg u = (q', v)"
    by (cases "save_and_apply sv (d @ CHR ''/'' # b) body cfg u")
  obtain x z where 3: "sv_Unlock sv v = (x, z)" by (cases "sv_Unlock sv v")
  have "q = q' \<and> t = z"
    using run 1(1) 2 3 Some bc
    by (auto simp: handleConfigUpload_def accepted_def io_laws is_ok_iff split: sum.splits if_splits)
  with save_and_apply_run [OF 1(3) assms(2-4) 2] saved_same on_disk_same unlock [OF 3] Some bc saved_from [OF 1(2)]
  show ?thesis by fastforce
qed

end

section \<open>A server on the model\<close>

text \<open>The apply with its steps that change files left out, on commands that do nothing.\<close>

definition web_seams :: "users \<Rightarrow> ('x web_scheme) seams" where
  "web_seams us = \<lparr>validateConfigFunc = (\<lambda>cfg. io_lift (validateConfig us cfg)),
     ensureHostnameFunc = ensureHostname (io_ok ''localhost'') (\<lambda>_ _ s. (\<lparr>oc_output = [], oc_err = None, oc_ctx = None\<rparr>, s)),
     ensureFoldersFunc = (\<lambda>_. io_ok ()), ensureFilesFunc = (\<lambda>_. io_ok ()),
     configureHostInterfacesFunc = (\<lambda>_ _. io_ok ()), configureFirewallPortsFunc = (\<lambda>_. io_ok ()),
     startPodmanSocketFunc = io_ok (), waitForUnixSocketFunc = (\<lambda>_ _. io_ok ()), newPodmanConnectionFunc = (\<lambda>_. io_ok ()),
     stopUnmanagedContainersFunc = (\<lambda>_. io_ok ()), reconcileContainerFunc = (\<lambda>_. io_ok ())\<rparr>"

definition web_server :: "(string \<Rightarrow> Config res) \<Rightarrow> (unit, unit) server_env" where
  "web_server json = \<lparr>sv_json = json, sv_users = sample_users, sv_configApplier = applyConfig (web_seams sample_users),
     sv_Lock = io_ok (), sv_Unlock = io_ok (), sv_exec = (\<lambda>_ _ s. (\<lparr>oc_output = [], oc_err = None, oc_ctx = None\<rparr>, s)),
     sv_statusCollector = (\<lambda>_. io_ok ()), sv_encode = (\<lambda>_. Inr ''{}''), sv_err = (\<lambda>_. ''error'')\<rparr>"

lemma keeps_logging: "(\<And>t l. I t \<Longrightarrow> I (t\<lparr>ho_log := l\<rparr>)) \<Longrightarrow> io_keeps I (logf f a)"
  by (rule io_keepsI) (auto simp: run_logf)

lemma keeps_reconcile_all:
  assumes "\<And>c. io_keeps I (reconcileContainerFunc sm c)" "\<And>t l. I t \<Longrightarrow> I (t\<lparr>ho_log := l\<rparr>)"
  shows "io_keeps I (reconcile_all sm cs)"
  by (induction cs) (simp_all only: reconcile_all.simps, (assumption | rule keep_rules keeps_logging assms)+)

text \<open>What every step keeps, the apply keeps.\<close>

lemma keeps_applyConfig:
  assumes log: "\<And>t l. I t \<Longrightarrow> I (t\<lparr>ho_log := l\<rparr>)"
    and steps: "list_all (io_keeps I) (apply_steps sm cfg)"
    and containers: "\<And>c. io_keeps I (reconcileContainerFunc sm c)"
  shows "io_keeps I (applyConfig sm cfg)"
  unfolding applyConfig_steps
proof (intro keeps_then keeps_iter)
  show "io_keeps I m" if "m \<in> set (apply_steps sm cfg)" for m using steps that by (simp add: list_all_iff)
qed (intro keep_rules keeps_logging keeps_reconcile_all log containers)

lemma web_apply_keeps: "io_keeps (same_content p s) (applyConfig (web_seams us) cfg)"
proof (rule keeps_applyConfig)
  have "io_keeps (same_content p s) (ensureHostname (io_ok ''localhost'')
      (\<lambda>_ _ s. (\<lparr>oc_output = [], oc_err = None, oc_ctx = None\<rparr>, s)) h)" for h
    unfolding ensureHostname_def runCommand_def Let_def
    by (intro keep_rules keeps_logging) (auto simp: io_keeps_def run_command command_result_def)
  then show "list_all (io_keeps (same_content p s)) (apply_steps (web_seams us) cfg)"
    by (simp add: apply_steps_def web_seams_def keeps_pure)
qed (simp_all add: web_seams_def keeps_pure)

interpretation web: upload_env "web_server json" p
proof
  show "\<exists>t. sv_Lock (web_server json) s = (Inr (), t) \<and> same_content p s t \<and> (fs_wf s \<longrightarrow> fs_wf t)" for s
    by (simp add: web_server_def)
  show "sv_Unlock (web_server json) s = (r, t) \<Longrightarrow> same_content p s t" for s r t
    by (simp add: web_server_def)
  show "sv_configApplier (web_server json) cfg s = (a, t) \<Longrightarrow> same_content p s t" for cfg s a t
    using io_keepsD [OF web_apply_keeps same_content_refl] by (auto simp: web_server_def)
qed

section \<open>Properties\<close>

lemma keeps_loadConfig: "io_keeps (\<lambda>t. wb_reboots t = n) (loadConfig json path)"
  unfolding loadConfig_def os_ReadFile_def Let_def
  by (intro keep_rules keeps_syscall) (auto split: if_splits option.splits)

lemma ostreeApplyCommand_filled: "ostreeApplyCommand cfg \<noteq> []"
  by (simp add: ostreeApplyCommand_def split: option.splits)

lemma runCommand_failure:
  "oc_err (fst (exec name args s)) = Some e \<Longrightarrow> \<exists>e'. runCommand exec name args s = (Inl e', snd (exec name args s))"
  by (auto simp: runCommand_def run_bind run_command command_result_def Let_def)


definition sample_web :: "fault list \<Rightarrow> web" where
  "sample_web faults = fs.extend (sample_fs faults) \<lparr>wb_reboots = 0\<rparr>"

lemma sample_web_sep: "sep (sample_web faults)"
  by (auto simp: sep_def fs_wf_def sample_web_def sample_fs_def fs.defs name_of_def split: if_splits)

definition sample_upload :: request where
  "sample_upload = \<lparr>rq_Method = ''POST'', rq_Path = ''/edgecommander/config'', rq_RawQuery = [], rq_Body = ([''{}'', [CHR 0x0A]], None)\<rparr>"

definition sample_json :: "string \<Rightarrow> Config res" where
  "sample_json x = Inr sample_config"


text \<open>C9: an upgrade is answered with 200 exactly when the configuration could be loaded and the
  apply command, never empty, ended without an error; a reboot is scheduled exactly then, once, and
  only if the request does not say reboot=false.\<close>

theorem handleOstreeUpgrade_reboots:
  assumes "\<And>name args u. wb_reboots (snd (sv_exec sv name args u)) = wb_reboots u"
    and "handleOstreeUpgrade sv r configPath s = (q, t)"
  shows "\<exists>w. q = Inr w \<and> (rs_Code w = 200 \<or> rs_Code w = 500) \<and>
    (rs_Code w = 200 \<longleftrightarrow> (\<exists>cfg u c args. loadConfig (sv_json sv) configPath s = (Inr cfg, u) \<and>
       ostreeApplyCommand (Some cfg) = c # args \<and>
       oc_err (fst (sv_exec sv c args (snd (logf ''applying ostree update: %s'' [Join (c # args) '' ''] u)))) = None)) \<and>
    wb_reboots t = wb_reboots s +
      (if rs_Code w = 200 \<and> query_Get (ParseQuery (rq_RawQuery r)) ''reboot'' \<noteq> ''false'' then 1 else 0)"
proof -
  obtain l u where 1: "loadConfig (sv_json sv) configPath s = (l, u)" by (cases "loadConfig (sv_json sv) configPath s")
  have u: "wb_reboots u = wb_reboots s" by (rule io_keepsD [OF keeps_loadConfig refl 1])
  show ?thesis
  proof (cases l)
    case (Inl e)
    with 1 assms(2) have "q = Inr (load_failed sv e) \<and> t = u" by (auto simp: handleOstreeUpgrade_def run_bind run_try)
    with 1 u Inl show ?thesis by (simp add: load_failed_def)
  next
    case (Inr cfg)
    obtain c args where cmd: "ostreeApplyCommand (Some cfg) = c # args"
      using ostreeApplyCommand_filled by (meson neq_Nil_conv)
    let ?u = "u\<lparr>ho_log := ho_log u @ [(''applying ostree update: %s'', [Join (c # args) '' ''])]\<rparr>"
    obtain oc v where 2: "sv_exec sv c args ?u = (oc, v)" by (cases "sv_exec sv c args ?u")
    have v: "wb_reboots v = wb_reboots s" using assms(1) [of c args ?u] 2 u by simp
    show ?thesis
    proof (cases "oc_err oc")
      case None
      have "runCommand (sv_exec sv) c args ?u = (Inr (), v)" using None 2 by (simp add: runCommand_success)
      with 1 2 Inr cmd v None assms(2) show ?thesis
        by (auto simp: handleOstreeUpgrade_def run_bind run_try run_then run_logf go_rebootScheduler_def Let_def split: if_splits)
    next
      case (Some e)
      obtain e' where "runCommand (sv_exec sv) c args ?u = (Inl e', v)"
        using runCommand_failure [of "sv_exec sv" c args ?u e] unfolding 2 fst_conv snd_conv using Some by blast
      with 1 2 Inr cmd assms(2) obtain w where "q = Inr w" "rs_Code w = 500" "wb_reboots t = wb_reboots v"
        by (auto simp: handleOstreeUpgrade_def run_bind run_try run_then run_logf Let_def)
      with 1 2 Inr cmd v Some show ?thesis by (simp add: run_logf)
    qed
  qed
qed

definition upgrade_request :: "string \<Rightarrow> request" where
  "upgrade_request query = \<lparr>rq_Method = ''POST'', rq_Path = ''/edgecommander/ostree/upgrade'', rq_RawQuery = query, rq_Body = ([], None)\<rparr>"

lemma handleOstreeUpgrade_reboots_witness:
  "wb_reboots (snd (handleOstreeUpgrade (web_server sample_json) (upgrade_request ''x=1&reboot=f%61lse'') ''/etc/ec.json'' (sample_web []))) = 0 \<and>
   wb_reboots (snd (handleOstreeUpgrade (web_server sample_json) (upgrade_request ''reboot=no'') ''/etc/ec.json'' (sample_web []))) = 1"
proof -
  have calm: "wb_reboots (snd (sv_exec (web_server sample_json) n a u)) = wb_reboots u" for n a u
    by (simp add: web_server_def)
  let ?run = "\<lambda>x. handleOstreeUpgrade (web_server sample_json) (upgrade_request x) ''/etc/ec.json'' (sample_web [])"
  have pair: "?run x = (fst (?run x), snd (?run x))" for x by simp
  have q: "query_Get (ParseQuery (rq_RawQuery (upgrade_request ''x=1&reboot=f%61lse''))) ''reboot'' = ''false''"
    "query_Get (ParseQuery (rq_RawQuery (upgrade_request ''reboot=no''))) ''reboot'' \<noteq> ''false''" by code_simp+
  have ok: "case fst (?run ''reboot=no'') of Inr w \<Rightarrow> rs_Code w = 200 | Inl _ \<Rightarrow> False" by code_simp
  have zero: "wb_reboots (sample_web []) = 0" by code_simp
  from handleOstreeUpgrade_reboots [OF calm pair [of "''x=1&reboot=f%61lse''"]] q(1) zero
  have "wb_reboots (snd (?run ''x=1&reboot=f%61lse'')) = 0" by auto
  moreover from handleOstreeUpgrade_reboots [OF calm pair [of "''reboot=no''"]] q(2) zero ok
  have "wb_reboots (snd (?run ''reboot=no'')) = 1" by (auto split: if_splits)
  ultimately show ?thesis by simp
qed

text \<open>C13: when the server listens on a Unix socket, the path is a socket that only its owner and its
  group may use (mode 0660); and whether it succeeds or fails, nothing that was there is changed or
  removed but a socket at that very path.\<close>

theorem listenUnix_safe:
  assumes "sep s" "listenUnix path s = (r, t)"
  shows "kept_but {q. q = resolve path \<and> map_option ino_kind (inode_at s q) = Some Socket} s t \<and>
    (is_ok r \<longrightarrow> (\<exists>i. inode_at t (resolve path) = Some i \<and> ino_kind i = Socket \<and> ino_mode i = 432))"
proof (cases "map_option ino_kind (inode_at s (resolve path)) \<in> {None, Some Socket}")
  case True
  let ?P = "{q. q = resolve path \<and> map_option ino_kind (inode_at s q) = Some Socket}"
  have "kept_but ?P s t"
    by (rule io_keepsD [OF listenUnix_keeps kept_refl [OF assms(1)] assms(2)]) (use True in auto)
  with listenUnix_success [OF _ assms(1)] assms(2) show ?thesis by (cases r) auto
next
  case False
  then obtain i where "inode_at s (resolve path) = Some i" "ino_kind i \<noteq> Socket" by auto
  from listenUnix_refuses [OF assms this] show ?thesis using kept_mono by blast
qed

lemma listenUnix_safe_witness:
  "map_option ino_mode (inode_at (snd (listenUnix ''/run/edge.sock'' (sample_fs []))) [''run'', ''edge.sock'']) = Some 432 \<and>
   inode_at (snd (listenUnix ''/etc/ec.json'' (sample_fs []))) [''etc'', ''ec.json''] = inode_at (sample_fs []) [''etc'', ''ec.json'']"
proof -
  have pair: "listenUnix p (sample_fs []) = (fst (listenUnix p (sample_fs [])), snd (listenUnix p (sample_fs [])))" for p by simp
  have ok: "is_ok (fst (listenUnix ''/run/edge.sock'' (sample_fs [])))" by code_simp
  have p: "resolve ''/run/edge.sock'' = [''run'', ''edge.sock'']" "resolve ''/etc/ec.json'' = [''etc'', ''ec.json'']" by code_simp+
  have regular: "case inode_at (sample_fs []) [''etc'', ''ec.json''] of Some i \<Rightarrow> ino_kind i = File | None \<Rightarrow> False"
    by code_simp
  from listenUnix_safe [OF sample_fs_sep pair [of "''/run/edge.sock''"]] ok
  have 1: "map_option ino_mode (inode_at (snd (listenUnix ''/run/edge.sock'' (sample_fs []))) [''run'', ''edge.sock'']) = Some 432"
    unfolding p by auto
  from listenUnix_safe [OF sample_fs_sep pair [of "''/etc/ec.json''"]] regular
  have "inode_at (snd (listenUnix ''/etc/ec.json'' (sample_fs []))) [''etc'', ''ec.json''] = inode_at (sample_fs []) [''etc'', ''ec.json'']"
    unfolding p by (auto simp: kept_but_def split: option.splits)
  with 1 show ?thesis by blast
qed

section \<open>Requests that change nothing\<close>

definition unchanged :: "'x web_scheme \<Rightarrow> 'x web_scheme \<Rightarrow> bool" where
  "unchanged s t \<longleftrightarrow> fs_names t = fs_names s \<and> fs_disk t = fs_disk s \<and> fs_inodes t = fs_inodes s \<and> wb_reboots t = wb_reboots s"

lemma unchanged_refl [simp]: "unchanged s s"
  by (simp add: unchanged_def)

lemma unchanged_log [simp]: "unchanged s (t\<lparr>ho_log := l\<rparr>) = unchanged s t"
  by (simp add: unchanged_def)

lemma mux_reading: "mux_route newServeMux m p = To e \<Longrightarrow> m \<noteq> ''POST'' \<Longrightarrow> m \<noteq> ''PUT'' \<Longrightarrow> e = Health \<or> e = Status"
  by (auto simp: mux_route_def newServeMux_def methods_of_def Let_def split: if_splits)

lemma unchanged_reading:
  assumes "\<And>c u. io_keeps (unchanged u) (sv_statusCollector sv c)" "e = Health \<or> e = Status"
  shows "io_keeps (unchanged s) (handle sv e r c)"
proof (cases e)
  case Status
  have "io_keeps (unchanged s) (handleEdgecommanderStatus sv c)"
    unfolding handleEdgecommanderStatus_def by (intro keep_rules keeps_logging assms(1)) simp
  with Status show ?thesis by (simp add: handle_def)
qed (use assms(2) in \<open>simp_all add: handle_def handleHealth_def keeps_pure\<close>)



section \<open>The command line\<close>

record flags =
  fl_config :: string
  fl_validatefile :: string
  fl_listen :: string

text \<open>The exit code and what is printed; \<open>captureServiceLog\<close> only gives the log a second destination.\<close>

definition main_run :: "users \<Rightarrow> (string \<Rightarrow> Config res) \<Rightarrow> (string \<Rightarrow> string \<Rightarrow> ('x fs_scheme, unit) io) \<Rightarrow> (err \<Rightarrow> string) \<Rightarrow>
    flags \<Rightarrow> ('x fs_scheme, nat \<times> string) io" where
  "main_run us json runServiceFunc err_text fl =
     (if fl_validatefile fl \<noteq> [] then
        io_bind (io_try (validateConfigFile us json (fl_validatefile fl))) (\<lambda>r.
        case r of
          Inl e \<Rightarrow> io_then (eprint (''config '' @ fl_validatefile fl @ '' is invalid: '' @ err_text e @ newline)) (io_ok (1, []))
        | Inr _ \<Rightarrow> io_ok (0, ''config '' @ fl_validatefile fl @ '' is valid'' @ newline))
      else
        io_bind (io_try (runServiceFunc (fl_listen fl) (fl_config fl))) (\<lambda>r.
        case r of
          Inl e \<Rightarrow> io_then (logf ''%v'' [err_text e]) (io_ok (1, []))
        | Inr _ \<Rightarrow> io_ok (0, [])))"

text \<open>C39: with -validatefile the program never starts the service: it ends with code 0 exactly when
  the file could be read, decoded and validated, with code 1 otherwise, and changes no file.\<close>

theorem main_validates_only:
  assumes "fl_validatefile fl \<noteq> []" and "main_run us json runServiceFunc err_text fl s = (q, t)"
  shows "fs_names t = fs_names s \<and> fs_disk t = fs_disk s \<and> fs_inodes t = fs_inodes s \<and> ho_log t = ho_log s \<and>
    (\<exists>c out. q = Inr (c, out) \<and> (c = 0 \<or> c = 1) \<and>
       (c = 0 \<longleftrightarrow> (\<exists>raw cfg. fst (os_ReadFile (fl_validatefile fl) s) = Inr raw \<and> json raw = Inr cfg \<and> validateConfig us cfg = Inr ())))"
proof -
  obtain l u where 1: "os_ReadFile (fl_validatefile fl) s = (l, u)" by (cases "os_ReadFile (fl_validatefile fl) s")
  have "io_keeps (\<lambda>t. fs_names t = fs_names s \<and> fs_disk t = fs_disk s \<and> fs_inodes t = fs_inodes s \<and> ho_log t = ho_log s)
      (os_ReadFile (fl_validatefile fl))"
    unfolding os_ReadFile_def Let_def by (rule keeps_syscall) (auto split: if_splits option.splits)
  from io_keepsD [OF this _ 1]
  have u: "fs_names u = fs_names s \<and> fs_disk u = fs_disk s \<and> fs_inodes u = fs_inodes s \<and> ho_log u = ho_log s" by simp
  show ?thesis
    using assms 1 u
    by (auto simp: main_run_def validateConfigFile_def loadConfig_def io_laws split: sum.splits)
qed

lemma main_validates_only_witness:
  "\<exists>out. fst (main_run sample_users sample_json (\<lambda>_ _. io_fail (Outside ''started'')) (\<lambda>_. [])
     \<lparr>fl_config = [], fl_validatefile = ''/etc/ec.json'', fl_listen = []\<rparr> (sample_fs [])) = Inr (0, out)"
proof -
  let ?fl = "\<lparr>fl_config = [], fl_validatefile = ''/etc/ec.json'', fl_listen = []\<rparr>"
  have "fl_validatefile ?fl \<noteq> []" by simp
  note main = main_validates_only [OF this prod.collapse [symmetric], of sample_users sample_json
    "\<lambda>_ _. io_fail (Outside ''started'')" "\<lambda>_. []" "sample_fs []"]
  have "fst (os_ReadFile ''/etc/ec.json'' (sample_fs [])) = Inr ''old''" "is_ok (validateConfig sample_users sample_config)"
    by code_simp+
  with main show ?thesis by (auto simp: sample_json_def is_ok_iff)
qed

end
