(* ===== verification/Node.thy ===== *)
theory Node
  imports Server NetworkApply Firewall
begin

text \<open>
  The components put together: \<open>applyConfig\<close> over the functions the service runs with
  (\<open>orchestration.go\<close>), on one state with the files, firewalld and Podman.  The locale \<open>node\<close> joins
  the contracts of the parts and says that they leave each other alone; a node whose firewalld and
  Podman live in memory is its instance.
\<close>

section \<open>The functions of the service\<close>

text \<open>Everything outside the repository that the apply calls.\<close>

record 'x backend =
  nd_users :: users
  nd_Hostname :: "('x fs_scheme, string) io"
  nd_exec :: "'x fs_scheme runner"
  nd_json :: "nmState \<Rightarrow> string res"
  nd_netlink :: "'x fs_scheme netlink"
  nd_systemd :: "'x fs_scheme systemd"
  nd_dbus :: "'x fs_scheme dbus"
  nd_timer :: "'x fs_scheme timer"
  nd_podman :: "'x fs_scheme podman"

text \<open>A wait that does not return would be the second case; with a clock that runs there is none.\<close>

definition wait_for :: "'s timer \<Rightarrow> string \<Rightarrow> nat \<Rightarrow> ('s, unit) io" where
  "wait_for tm path timeout = (\<lambda>s.
     case waitForUnixSocket tm path timeout s of Some y \<Rightarrow> y | None \<Rightarrow> (Inl (Outside ''does not return''), s))"

definition host_seams :: "'x backend \<Rightarrow> ('x fs_scheme) seams" where
  "host_seams nd = \<lparr>validateConfigFunc = (\<lambda>cfg. io_lift (validateConfig (nd_users nd) cfg)),
     ensureHostnameFunc = ensureHostname (nd_Hostname nd) (nd_exec nd),
     ensureFoldersFunc = ensureFolders (nd_users nd),
     ensureFilesFunc = ensureFiles (nd_users nd),
     configureHostInterfacesFunc = configureHostInterfaces (nd_json nd) (nd_exec nd) (nd_netlink nd),
     configureFirewallPortsFunc = configureFirewallPorts (ensureFirewalldRunning (nd_systemd nd)) (nd_dbus nd),
     startPodmanSocketFunc = startPodmanSocket (nd_systemd nd),
     waitForUnixSocketFunc = wait_for (nd_timer nd),
     newPodmanConnectionFunc = pd_NewConnection (nd_podman nd),
     stopUnmanagedContainersFunc = stopUnmanagedContainers (nd_podman nd),
     reconcileContainerFunc = reconcileContainer (nd_podman nd)\<rparr>"

section \<open>What the steps keep\<close>

lemma keeps_request:
  assumes "io_keeps I (pd_GetClient pd)" "\<And>rq. io_keeps I (pd_DoRequest pd rq)" "io_keeps I (pd_CloseBody pd)"
    and "\<And>v. io_keeps I (k v)"
  shows "io_keeps I (request pd rq k)"
  unfolding request_def by (intro keep_rules assms)

text \<open>The containers: what the log, the standard error and the requests keep.\<close>

lemma keeps_containers:
  assumes log: "\<And>t l. I t \<Longrightarrow> I (t\<lparr>ho_log := l\<rparr>)" "\<And>t l. I t \<Longrightarrow> I (t\<lparr>ho_stderr := l\<rparr>)"
    and pd: "io_keeps I (pd_GetClient pd)" "\<And>rq. io_keeps I (pd_DoRequest pd rq)" "io_keeps I (pd_CloseBody pd)"
  shows "io_keeps I (stopUnmanagedContainers pd cs)" "io_keeps I (reconcileContainer pd c)"
proof -
  note rules = keep_rules keeps_request pd keeps_logging log(1)
  have pull: "io_keeps I (pullImage pd i)" for i
  proof -
    have "io_keeps I (eprint m)" for m by (rule io_keepsI) (auto simp: run_eprint log(2))
    then show ?thesis unfolding pullImage_def by (intro rules)
  qed
  show "io_keeps I (stopUnmanagedContainers pd cs)"
    unfolding stopUnmanagedContainers_def stop_unmanaged_def listContainers_def stopContainer_def
    by (intro rules)
  show "io_keeps I (reconcileContainer pd c)"
    unfolding reconcileContainer_def containerExists_def imageExists_def containerIsCurrent_def inspectContainer_def
      removeContainer_def createContainer_def startContainer_def Let_def
    by (intro rules pull)
qed

text \<open>The wait for the socket: what dialling and sleeping keep.\<close>

lemma keeps_wait_for:
  assumes dial: "\<And>p. io_keeps I (tm_dial tm p)" and sleep: "\<And>u n. I u \<Longrightarrow> I (tm_sleep tm n u)"
  shows "io_keeps I (wait_for tm path timeout)"
proof (rule io_keepsI)
  have loop: "(\<forall>p. io_keeps I (tm_dial tm p)) \<longrightarrow> (\<forall>u n. I u \<longrightarrow> I (tm_sleep tm n u)) \<longrightarrow> I s \<longrightarrow> I (snd y)"
    if "wait_loop tm path deadline s = Some y" for deadline s y
  proof (rule wait_loop.raw_induct [where P = "\<lambda>tm path deadline s y.
      (\<forall>p. io_keeps I (tm_dial tm p)) \<longrightarrow> (\<forall>u n. I u \<longrightarrow> I (tm_sleep tm n u)) \<longrightarrow> I s \<longrightarrow> I (snd y)", OF _ that], goal_cases)
    case (1 f tm path deadline s y)
    show ?case
    proof (intro impI)
      assume keep: "\<forall>p. io_keeps I (tm_dial tm p)" "\<forall>u n. I u \<longrightarrow> I (tm_sleep tm n u)" "I s"
      obtain r t where rt: "tm_dial tm path s = (r, t)" by (cases "tm_dial tm path s")
      then have t: "I t" using io_keepsD [OF keep(1) [rule_format, of path] keep(3)] by blast
      show "I (snd y)"
      proof (cases "tm_now tm s < deadline")
        case False
        then have "y = (Inl (Errf ''socket not reachable: %s'' [path]), s)" using 1(2) by simp
        with keep(3) show ?thesis by simp
      next
        case True
        show ?thesis
        proof (cases r)
          case (Inr u)
          then have "y = (Inr (), t)" using 1(2) True rt by simp
          with t show ?thesis by simp
        next
          case (Inl e)
          then have "f tm path deadline (tm_sleep tm 200000000 t) = Some y" using 1(2) True rt by simp
          from 1(1) [OF this] keep t show ?thesis by blast
        qed
      qed
    qed
  qed
  fix s r t assume s: "I s" and run: "wait_for tm path timeout s = (r, t)"
  show "I t"
  proof (cases "waitForUnixSocket tm path timeout s")
    case None
    with s run show ?thesis by (simp add: wait_for_def)
  next
    case (Some y)
    with loop [of _ s y] dial sleep s have "I (snd y)" by (simp add: waitForUnixSocket_def)
    with Some run show ?thesis by (simp add: wait_for_def)
  qed
qed

text \<open>The firewall: what the log and the bus keep.\<close>

lemma keeps_firewall:
  assumes log: "\<And>t l. I t \<Longrightarrow> I (t\<lparr>ho_log := l\<rparr>)"
    and bus: "io_keeps I (db_connect db)" "io_keeps I (db_close db)" "\<And>p m a. io_keeps I (db_call db p m a)"
    and ensure: "io_keeps I ensure"
  shows "io_keeps I (configureFirewallPorts ensure db ports)"
proof -
  note rules = keep_rules keeps_logging log bus
  have call: "io_keeps I (call_store db p m a st)" "io_keeps I (call_err db p m a)" for p m a st
    unfolding call_store_def call_err_def by (intro rules)+
  have zone: "io_keeps I (getDefaultZone db)" "io_keeps I (zone_path db z)" for z
    unfolding getDefaultZone_def zone_path_def by (intro rules call)+
  have permanent: "io_keeps I (ensurePermanentFirewallPort db z port protocol)" for z port protocol
    unfolding ensurePermanentFirewallPort_def permanent_zone_name_def by (intro rules call zone)
  have "io_keeps I (ensurePermanentFirewallRichRule db z rule)" for z rule
    unfolding ensurePermanentFirewallRichRule_def permanent_zone_name_def by (intro rules call zone)
  with permanent have opens: "io_keeps I (openDeclaredFirewallPort db port)" for port
    unfolding openDeclaredFirewallPort_def openDeclaredPlainFirewallPort_def openDeclaredSourceFirewallPort_def
      queryFirewallPort_def addFirewallPort_def queryFirewallRichRule_def addFirewallRichRule_def Let_def
    by (intro rules call permanent)
  have port: "io_keeps I (prune_runtime_port db z d entry)" for z d entry
    unfolding prune_runtime_port_def by (split list.split, intro allI conjI impI rules call)+
  have prune: "io_keeps I (removeUnmanagedFirewallRules db declared)" for declared
    unfolding removeUnmanagedFirewallRules_def removeUnmanagedRuntimeRules_def removeUnmanagedPermanentRules_def
      pruneRuntimeZone_def pruneRuntimeZonePorts_def pruneRuntimeZoneRichRules_def
      pruneRuntimeZoneServices_def prunePermanentZone_def prunePermanentZonePorts_def
      prunePermanentZoneRichRules_def prunePermanentZoneServices_def Let_def
    by (intro rules call zone port)
  show ?thesis
    unfolding configureFirewallPorts_def reconcileFirewall_def
    by (intro rules opens prune zone ensure)
qed

section \<open>The interfaces and the files of others\<close>

lemma same_files_view: "same_files s t \<Longrightarrow> name_of t p = name_of s p \<and> inode_at t p = inode_at s p"
  by (auto simp: same_files_def name_of_def inode_at_def split: option.splits)

lemma sep_same: "same_files s t \<Longrightarrow> sep t = sep s"
  using same_files_view [of s t] by (simp add: sep_def fs_wf_def same_files_def)

lemma same_files_refl [simp]: "same_files s s" "same_files s (t\<lparr>ho_log := l\<rparr>) = same_files s t"
    "same_files s (t\<lparr>ho_stderr := m\<rparr>) = same_files s t"
  by (simp_all add: same_files_def)

lemma same_files_trans: "same_files s t \<Longrightarrow> same_files t u \<Longrightarrow> same_files s u"
  by (simp add: same_files_def)

text \<open>\<open>held P s f t\<close>: beside what \<open>kept_but\<close> says, the file \<open>f\<close> has no name but those in \<open>P\<close>.\<close>

definition held :: "loc set \<Rightarrow> 'x fs_scheme \<Rightarrow> nat \<Rightarrow> 'x fs_scheme \<Rightarrow> bool" where
  "held P s f t \<longleftrightarrow> kept_but P s t \<and> (\<forall>q. name_of t q = Some f \<longrightarrow> q \<in> P)"

lemma held_same: "same_files t u \<Longrightarrow> held P s f t \<Longrightarrow> held P s f u"
  using same_files_view [of t u] sep_same [of t u] by (simp add: held_def kept_but_def)

lemma held_ctl [simp]: "held P s f (t\<lparr>fs_faults := a\<rparr>) = held P s f t" "held P s f (t\<lparr>fs_off := b\<rparr>) = held P s f t"
  by (simp_all add: held_def)

lemma held_change: "held P s f t \<Longrightarrow> held P s f (change f g t)"
proof -
  assume t: "held P s f t"
  have "inode_at (change f g t) q = inode_at t q" if "q \<notin> P" for q
    using t that by (auto simp: held_def inode_at_def split: option.splits)
  with t show ?thesis by (auto simp: held_def kept_but_def sep_change)
qed

lemma held_unlink: "held P s f t \<Longrightarrow> p \<in> P \<Longrightarrow> held P s f (set_name p None t)"
  by (auto simp: held_def intro: kept_unlink)

lemma held_move:
  assumes "held P s f t" "name_of t p = Some n" "p \<in> P" "q \<in> P" "p \<noteq> q"
  shows "held P s f (set_name p None (set_name q (Some n) t))"
proof -
  let ?u = "set_name p None (set_name q (Some n) t)"
  from assms(1) have t: "sep t" "fs_inodes t n \<noteq> None"
    using fs_wf_named [OF _ assms(2)] by (simp_all add: held_def kept_but_def sep_def)
  have "fs_wf ?u" using t by (intro fs_wf_set_name) (simp_all add: sep_def)
  then have "sep ?u" using t(1) assms(2,5) by (auto simp: sep_def split: if_splits)
  moreover have "inode_at ?u r = inode_at t r" if "r \<notin> P" for r
    using that assms(3,4) by (auto simp: inode_at_def split: option.splits)
  ultimately show ?thesis using assms by (auto simp: held_def kept_but_def)
qed

lemma held_syscall:
  assumes "\<And>t n. held P s f t \<Longrightarrow> held P s f (part n t)"
    and "\<And>t r u. held P s f t \<Longrightarrow> eff t = (r, u) \<Longrightarrow> held P s f u"
  shows "io_keeps (held P s f) (syscall part eff)"
  by (rule keeps_syscall) (use assms in \<open>auto split del: if_split\<close>)

lemma held_calls:
  "io_keeps (held P s f) (file_Write f b)" "io_keeps (held P s f) (file_Chmod f m)" "io_keeps (held P s f) (file_Sync f)"
  "io_keeps (held P s f) (file_Close g)" "io_keeps (held P s f) (open_dir d)" "io_keeps (held P s f) (dir_Close e)"
  unfolding file_Write_def file_Chmod_def file_Sync_def file_Close_def open_dir_def dir_Close_def Let_def
  by (rule held_syscall; auto intro: held_change split: if_splits)+

lemma held_dir_Sync: "io_keeps (held P s f) (dir_Sync d)"
  unfolding dir_Sync_def
proof (rule held_syscall)
  fix t r u
  assume t: "held P s f t" and "(Inr (), t\<lparr>fs_disk := \<lambda>p. if p \<noteq> [] \<and> butlast p = d then [name_of t p] else fs_disk t p\<rparr>) = (r, u)"
  then have u: "u = t\<lparr>fs_disk := \<lambda>p. if p \<noteq> [] \<and> butlast p = d then [name_of t p] else fs_disk t p\<rparr>" by simp
  have "sep u" using t fs_wf_flush [of t "\<lambda>p. p \<noteq> [] \<and> butlast p = d"] unfolding u by (auto simp: held_def kept_but_def sep_def)
  moreover have "inode_at u q = inode_at t q" "name_of u q = name_of t q" for q
    unfolding u by (simp_all add: inode_at_def split: option.splits)
  ultimately show "held P s f u" using t by (simp add: held_def kept_but_def)
qed

lemma held_Rename:
  assumes "resolve old \<in> P" "resolve new \<in> P"
  shows "io_keeps (held P s f) (os_Rename old new)"
  unfolding os_Rename_def Let_def
  by (rule held_syscall) (use assms in \<open>auto split: option.splits if_splits intro: held_move\<close>)

lemma held_Remove: "resolve old \<in> P \<Longrightarrow> io_keeps (held P s f) (os_Remove old)"
  unfolding os_Remove_def Let_def
  by (rule held_syscall) (auto split: option.splits if_splits intro: held_unlink)

lemma held_or_close: "io_keeps (held P s f) m \<Longrightarrow> io_keeps (held P s f) (or_close g w m)"
  unfolding or_close_def by (intro keep_rules held_calls)

lemma held_syncDir: "io_keeps (held P s f) (syncDir d)"
  unfolding syncDir_def by (intro keep_rules held_calls held_dir_Sync)

text \<open>A temporary file is new, so every name that was there is as it was.\<close>

lemma open_excl_keeps: "io_keeps (kept_but P s) (open_excl q m)"
  unfolding open_excl_def by (rule keeps_syscall) (auto split: if_splits simp: kept_create_new)

lemma kept_drawn [simp]: "kept_but P s (t\<lparr>fs_drawn := d\<rparr>) = kept_but P s t"
proof -
  have "inode_at (t\<lparr>fs_drawn := d\<rparr>) q = inode_at t q" for q by (simp add: inode_at_def split: option.splits)
  then show ?thesis by (simp add: kept_but_def sep_def)
qed

lemma create_temp_keeps: "io_keeps (kept_but P s) (create_temp n prefix suffix)"
proof (induction n)
  case (Suc n)
  have "io_keeps (kept_but P s) draw" by (rule io_keepsI) (auto simp: draw_def)
  with Suc show ?case
    unfolding create_temp.simps Let_def by (intro keep_rules open_excl_keeps)
qed (simp only: create_temp.simps keeps_pure)

lemma create_temp_held:
  assumes "create_temp n prefix suffix t = (Inr (name, f), u)" "kept_but P s t"
  shows "held (insert (resolve name) P) s f u \<and> (inode_at s (resolve name) = None \<or> resolve name \<in> P)"
  using assms
proof (induction n arbitrary: t)
  case (Suc n)
  let ?name = "prefix @ random_text t @ suffix" and ?t = "t\<lparr>fs_drawn := Suc (fs_drawn t)\<rparr>"
  obtain r v where 1: "open_excl (resolve ?name) 384 ?t = (r, v)" by (cases "open_excl (resolve ?name) 384 ?t")
  have t: "kept_but P s ?t" using Suc.prems(2) by simp
  then have wf: "fs_wf ?t" by (simp add: kept_but_def sep_def)
  have v: "kept_but P s v" by (rule io_keepsD [OF open_excl_keeps t 1])
  show ?case
  proof (cases r)
    case (Inl e)
    with Suc.prems(1) 1 have "create_temp n prefix suffix v = (Inr (name, f), u)"
      by (simp add: run_bind run_try draw_def Let_def split: if_splits)
    from Suc.IH [OF this v] show ?thesis .
  next
    case (Inr g)
    with Suc.prems(1) 1 have eq: "name = ?name" "f = g" "u = v"
      by (auto simp: run_bind run_try draw_def Let_def)
    note new = open_excl_success [OF 1 [unfolded Inr] wf]
    have "inode_at ?t (resolve name) = None" using new eq by (simp add: name_none_inode)
    then have none: "inode_at s (resolve name) = None \<or> resolve name \<in> P"
      using t by (metis kept_but_def)
    have only: "q = resolve name" if "name_of u q = Some f" for q
      using that new eq v by (metis kept_but_def sep_def)
    show ?thesis
      using kept_mono [OF v, of "insert (resolve name) P"] none only eq by (auto simp: held_def)
  qed
qed simp

lemma kept_temp: "kept_but (insert q P) s t \<Longrightarrow> inode_at s q = None \<Longrightarrow> kept_but P s t"
  unfolding kept_but_def by (metis insert_iff)

context host_tools begin

lemma held_tools:
  "io_keeps (held P s f) (runCommandOutput exec name args)" "io_keeps (held P s f) (applyTxQueueLengths nl interfaces)"
proof -
  have files: "io_keeps (held P s f) m" if "\<And>t r u. m t = (r, u) \<Longrightarrow> same_files t u" for m :: "('x fs_scheme, 'b) io"
    by (rule io_keepsI) (use that held_same in blast)
  show "io_keeps (held P s f) (runCommandOutput exec name args)"
    by (rule files) (auto simp: run_command intro: exec_files [OF surjective_pairing])
  have "io_keeps (held P s f) (logf a b)" for a b
    by (rule files) (auto simp: run_logf)
  moreover have "io_keeps (held P s f) (nl_LinkByName nl n)" "io_keeps (held P s f) (nl_LinkSetTxQLen nl l q)" for n l q
    by (rule files, erule link_files txqlen_files)+
  ultimately show "io_keeps (held P s f) (applyTxQueueLengths nl interfaces)"
    unfolding applyTxQueueLengths_def applyTxQueueLength_def by (intro keep_rules)
qed

text \<open>The interfaces change no file that was there but the document.\<close>

lemma configure_interfaces_keeps:
  "io_keeps (kept_but {resolve nmstateStatePath} s) (configureHostInterfaces json exec nl interfaces routes)"
proof -
  let ?P = "{resolve nmstateStatePath}" and ?dir = "Dir nmstateStatePath"
  have remove: "io_keeps (kept_but ?P s) removeNMStateDocument"
    unfolding removeNMStateDocument_def by (intro keep_rules Remove_keeps) simp
  have body: "io_keeps (kept_but ?P s) (io_bind (io_wrap g (os_CreateTemp ?dir ''.edgecommander.*.yml.tmp''))
      (\<lambda>(tmpPath, tmp). io_finally (nmstate_steps exec nl interfaces d tmpPath tmp) (os_Remove tmpPath)))" for g d
  proof (rule io_keepsI)
    fix t r u
    assume t: "kept_but ?P s t" and run: "io_bind (io_wrap g (os_CreateTemp ?dir ''.edgecommander.*.yml.tmp''))
      (\<lambda>(tmpPath, tmp). io_finally (nmstate_steps exec nl interfaces d tmpPath tmp) (os_Remove tmpPath)) t = (r, u)"
    obtain c v where 1: "os_CreateTemp ?dir ''.edgecommander.*.yml.tmp'' t = (c, v)"
      by (cases "os_CreateTemp ?dir ''.edgecommander.*.yml.tmp'' t")
    obtain pre suf where ct: "os_CreateTemp ?dir ''.edgecommander.*.yml.tmp'' t = create_temp 10000 pre suf t"
      by (auto simp: os_CreateTemp_def Let_def)
    show "kept_but ?P s u"
    proof (cases c)
      case (Inl e)
      with run 1 ct io_keepsD [OF create_temp_keeps t] show ?thesis by (auto simp: run_bind run_wrap)
    next
      case (Inr nf)
      obtain tmpPath f where nf: "nf = (tmpPath, f)" by (cases nf)
      let ?Q = "insert (resolve tmpPath) ?P"
      have start: "held ?Q s f v \<and> (inode_at s (resolve tmpPath) = None \<or> resolve tmpPath \<in> ?P)"
        using create_temp_held [of 10000 pre suf t tmpPath f v ?P s] 1 ct Inr nf t by simp
      have keep: "io_keeps (held ?Q s f) (io_finally (nmstate_steps exec nl interfaces d tmpPath f) (os_Remove tmpPath))"
        unfolding nmstate_steps_def
        by (intro keeps_finally keeps_then keeps_wrap held_or_close held_calls held_tools held_Rename held_Remove held_syncDir
            insertI1 insertI2)
      have rest: "io_finally (nmstate_steps exec nl interfaces d tmpPath f) (os_Remove tmpPath) v = (r, u)"
        using run 1 Inr nf by (simp add: run_bind run_wrap)
      have "held ?Q s f u" by (rule io_keepsD [OF keep conjunct1 [OF start] rest])
      then have "kept_but ?Q s u" by (simp add: held_def)
      with start kept_temp [of "resolve tmpPath" ?P s u] show ?thesis by (cases "resolve tmpPath \<in> ?P") (simp_all add: insert_absorb)
    qed
  qed
  show ?thesis
    unfolding configureHostInterfaces_def by (intro keep_rules remove MkdirAll_keeps body)
qed

end

section \<open>The parts leave each other alone\<close>

text \<open>Neither what firewalld has open nor a file changes; \<open>view\<close> is what firewalld shows.\<close>

definition apart :: "('x fs_scheme \<Rightarrow> 'v) \<Rightarrow> 'x fs_scheme \<Rightarrow> 'x fs_scheme \<Rightarrow> bool" where
  "apart view s t \<longleftrightarrow> view t = view s \<and> same_files s t"

lemma apart_refl: "apart view s s"
  by (simp add: apart_def)

text \<open>
  Starting units, talking to firewalld and to Podman and dialling the socket write no file that the
  service manages; and only firewalld's own unit and bus change what firewalld has open.
\<close>

locale node =
  fw: firewalld "nd_dbus nd" items zones defzone zpath +
  pc: libpod "nd_podman nd" ctrs images +
  tm: clock "nd_timer nd" +
  tools: host_tools "nd_exec nd" "nd_netlink nd"
  for nd :: "'x backend"
    and items :: "'x fs_scheme \<Rightarrow> slot \<Rightarrow> string list set"
    and zones :: "'x fs_scheme \<Rightarrow> bool \<Rightarrow> string set"
    and defzone :: "'x fs_scheme \<Rightarrow> string"
    and zpath :: "string \<Rightarrow> string"
    and ctrs :: "'x fs_scheme \<Rightarrow> string \<rightharpoonup> pctr"
    and images :: "'x fs_scheme \<Rightarrow> string set" +
  assumes hostname_files: "nd_Hostname nd s = (r, t) \<Longrightarrow> same_files s t"
    and stderr_frame: "items (s\<lparr>ho_stderr := l\<rparr>) = items s" "zones (s\<lparr>ho_stderr := l\<rparr>) = zones s"
      "defzone (s\<lparr>ho_stderr := l\<rparr>) = defzone s"
    and unit_files: "ensureFirewalldRunning (nd_systemd nd) s = (r1, t) \<Longrightarrow> same_files s t"
    and bus_files: "db_connect (nd_dbus nd) s = (r1, t) \<Longrightarrow> same_files s t"
      "db_close (nd_dbus nd) s = (r1, t) \<Longrightarrow> same_files s t"
      "db_call (nd_dbus nd) p m a s = (r2, t) \<Longrightarrow> same_files s t"
    and socket_apart: "startPodmanSocket (nd_systemd nd) s = (r1, t) \<Longrightarrow> apart (\<lambda>u. (items u, zones u, defzone u)) s t"
    and wait_apart: "tm_dial (nd_timer nd) p s = (r1, t) \<Longrightarrow> apart (\<lambda>u. (items u, zones u, defzone u)) s t"
      "apart (\<lambda>u. (items u, zones u, defzone u)) s (tm_sleep (nd_timer nd) n s)"
    and podman_apart: "pd_NewConnection (nd_podman nd) p s = (r1, t) \<Longrightarrow> apart (\<lambda>u. (items u, zones u, defzone u)) s t"
      "pd_GetClient (nd_podman nd) s = (r1, t) \<Longrightarrow> apart (\<lambda>u. (items u, zones u, defzone u)) s t"
      "pd_DoRequest (nd_podman nd) rq s = (r3, t) \<Longrightarrow> apart (\<lambda>u. (items u, zones u, defzone u)) s t"
      "pd_CloseBody (nd_podman nd) s = (r1, t) \<Longrightarrow> apart (\<lambda>u. (items u, zones u, defzone u)) s t"
begin

definition view :: "'x fs_scheme \<Rightarrow> (slot \<Rightarrow> string list set) \<times> (bool \<Rightarrow> string set) \<times> string" where
  "view u = (items u, zones u, defzone u)"


lemma view_eta: "(\<lambda>u. (items u, zones u, defzone u)) = view"
  by (simp add: fun_eq_iff view_def)

lemma apart_keeps:
  assumes "\<And>t r u. m t = (r, u) \<Longrightarrow> apart view t u"
  shows "io_keeps (apart view s) m"
proof (rule io_keepsI)
  fix t r u assume "apart view s t" "m t = (r, u)"
  with assms [of t r u] same_files_trans show "apart view s u" unfolding apart_def by metis
qed

lemma apart_output: "apart view s t \<Longrightarrow> apart view s (t\<lparr>ho_log := l\<rparr>)" "apart view s t \<Longrightarrow> apart view s (t\<lparr>ho_stderr := m\<rparr>)"
  by (simp_all add: apart_def view_def fw.log_frame stderr_frame)

text \<open>The steps that come after the firewall change neither it nor a file.\<close>

lemma later_steps:
  "io_keeps (apart view s) (startPodmanSocket (nd_systemd nd))"
  "io_keeps (apart view s) (wait_for (nd_timer nd) path timeout)"
  "io_keeps (apart view s) (pd_NewConnection (nd_podman nd) uri)"
  "io_keeps (apart view s) (stopUnmanagedContainers (nd_podman nd) cs)"
  "io_keeps (apart view s) (reconcile_all (host_seams nd) cs)"
proof -

  have calls: "io_keeps (apart view s) (pd_GetClient (nd_podman nd))" "io_keeps (apart view s) (pd_DoRequest (nd_podman nd) rq)"
    "io_keeps (apart view s) (pd_CloseBody (nd_podman nd))" for rq
    by (rule apart_keeps, erule podman_apart [unfolded view_eta])+
  show "io_keeps (apart view s) (startPodmanSocket (nd_systemd nd))"
    "io_keeps (apart view s) (pd_NewConnection (nd_podman nd) uri)"
    by (rule apart_keeps, erule socket_apart [unfolded view_eta] podman_apart [unfolded view_eta])+
  show "io_keeps (apart view s) (wait_for (nd_timer nd) path timeout)"
  proof (rule keeps_wait_for)
    show "io_keeps (apart view s) (tm_dial (nd_timer nd) p)" for p
      by (rule apart_keeps) (erule wait_apart [unfolded view_eta])
    show "apart view s (tm_sleep (nd_timer nd) n u)" if "apart view s u" for u n
      using that wait_apart(2) [unfolded view_eta, of u n] same_files_trans unfolding apart_def by metis
  qed
  show "io_keeps (apart view s) (stopUnmanagedContainers (nd_podman nd) cs)"
    by (rule keeps_containers) (rule apart_output calls | assumption)+
  have "io_keeps (apart view s) (reconcileContainer (nd_podman nd) c)" for c
    by (rule keeps_containers) (rule apart_output calls | assumption)+
  then show "io_keeps (apart view s) (reconcile_all (host_seams nd) cs)"
    by (intro keeps_reconcile_all) (simp_all add: host_seams_def apart_output)
qed

lemma firewall_files: "io_keeps (same_files s) (configureFirewallPorts (ensureFirewalldRunning (nd_systemd nd)) (nd_dbus nd) ports)"
proof -
  have files: "io_keeps (same_files s) m" if "\<And>t r u. m t = (r, u) \<Longrightarrow> same_files t u" for m :: "('x fs_scheme, 'b) io"
    by (rule io_keepsI) (use that same_files_trans in blast)
  show ?thesis
    by (rule keeps_firewall) (simp, (rule files, erule bus_files unit_files)+)
qed

lemma hostname_keeps_files: "io_keeps (same_files s) (ensureHostname (nd_Hostname nd) (nd_exec nd) h)"
proof -
  have files: "io_keeps (same_files s) m" if "\<And>t r u. m t = (r, u) \<Longrightarrow> same_files t u" for m :: "('x fs_scheme, 'b) io"
    by (rule io_keepsI) (use that same_files_trans in blast)
  have "io_keeps (same_files s) (runCommandOutput (nd_exec nd) name args)" for name args
    by (rule files) (auto simp: run_command intro: tools.exec_files [OF surjective_pairing])
  moreover have "io_keeps (same_files s) (nd_Hostname nd)" by (rule files) (rule hostname_files)
  ultimately show ?thesis
    unfolding ensureHostname_def runCommand_def Let_def by (intro keep_rules keeps_logging) simp_all
qed

end

context node begin

text \<open>The clock runs, so the wait is the value of the loop.\<close>

lemma wait_for_value: "waitForUnixSocket (nd_timer nd) path timeout s = Some (wait_for (nd_timer nd) path timeout s)"
  using tm.wait_loop_returns [of path "tm_now (nd_timer nd) s + timeout" s]
  by (auto simp: wait_for_def waitForUnixSocket_def)

text \<open>The run of a successful apply, step by step.\<close>

lemma apply_success:
  assumes "applyConfig (host_seams nd) cfg s = (Inr x, t)"
  obtains s1 s2 s3 s4 s5 s6 where
    "ensureHostname (nd_Hostname nd) (nd_exec nd) (cf_Hostname cfg) s = (Inr (), s1)"
    "ensureFolders (nd_users nd) (cf_Folders cfg) s1 = (Inr (), s2)"
    "ensureFiles (nd_users nd) (cf_Files cfg) s2 = (Inr (), s3)"
    "configureHostInterfaces (nd_json nd) (nd_exec nd) (nd_netlink nd) (cf_Interfaces cfg) (cf_Routes cfg) s3 = (Inr (), s4)"
    "configureFirewallPorts (ensureFirewalldRunning (nd_systemd nd)) (nd_dbus nd) (cf_FirewallPorts cfg) s4 = (Inr (), s5)"
    "apart view s5 t"
proof -
  from assms obtain s1 s2 s3 s4 s5 u1 u2 u3 u4 u5 es where
    steps: "ensureHostname (nd_Hostname nd) (nd_exec nd) (cf_Hostname cfg) s = (Inr (), s1)"
    "ensureFolders (nd_users nd) (cf_Folders cfg) s1 = (Inr (), s2)"
    "ensureFiles (nd_users nd) (cf_Files cfg) s2 = (Inr (), s3)"
    "configureHostInterfaces (nd_json nd) (nd_exec nd) (nd_netlink nd) (cf_Interfaces cfg) (cf_Routes cfg) s3 = (Inr (), s4)"
    "configureFirewallPorts (ensureFirewalldRunning (nd_systemd nd)) (nd_dbus nd) (cf_FirewallPorts cfg) s4 = (Inr (), s5)"
    and 1: "startPodmanSocket (nd_systemd nd) s5 = (Inr (), u1)"
    and 2: "wait_for (nd_timer nd) podmanSocketPath 10000000000 u1 = (Inr (), u2)"
    and 3: "pd_NewConnection (nd_podman nd) (''unix:'' @ podmanSocketPath) u2 = (Inr (), u3)"
    and 4: "stopUnmanagedContainers (nd_podman nd) (cf_Containers cfg) u3 = (Inr (), u4)"
    and 5: "reconcile_all (host_seams nd) (cf_Containers cfg) u4 = (Inr es, u5)"
    and 6: "(if es \<noteq> [] then io_fail (reconcile_error es (cf_Containers cfg)) else logf ''all containers started'' []) u5 = (Inr x, t)"
    unfolding applyConfig_def
    by (auto simp: success_simps host_seams_def)
  have "apart view s5 u5"
    by (rule io_keepsD [OF later_steps(5) _ 5], rule io_keepsD [OF later_steps(4) _ 4], rule io_keepsD [OF later_steps(3) _ 3],
        rule io_keepsD [OF later_steps(2) _ 2], rule io_keepsD [OF later_steps(1) _ 1], rule apart_refl)
  then have "apart view s5 t" using 6 by (auto simp: run_logf apart_output split: if_splits)
  with steps that show ?thesis by blast
qed

lemma apply_host:
  assumes run: "applyConfig (host_seams nd) cfg s = (Inr x, t)" and s: "sep s"
    and apart: "distinct (resolve nmstateStatePath # map (\<lambda>f. resolve (fo_Path f)) (cf_Folders cfg) @
      map (\<lambda>f. resolve (fi_Path f)) (cf_Files cfg))"
    and folders: "list_all (\<lambda>f. resolve (fo_Path f) \<noteq> []) (cf_Folders cfg)"
  shows "list_all (\<lambda>f. case inode_at t (resolve (fo_Path f)) of None \<Rightarrow> False | Some i \<Rightarrow> folder_matches (nd_users nd) f i) (cf_Folders cfg)"
    and "list_all (\<lambda>f. case inode_at t (resolve (fi_Path f)) of None \<Rightarrow> False | Some i \<Rightarrow> file_matches (nd_users nd) f i) (cf_Files cfg)"
    and "enforced (cf_FirewallPorts cfg) (defzone t) (items t) (zones t) \<or>
      cf_FirewallPorts cfg = [] \<and> (\<exists>u e v. ensureFirewalldRunning (nd_systemd nd) u = (Inl e, v))"
proof -
  from run obtain s1 s2 s3 s4 s5 where
    1: "ensureHostname (nd_Hostname nd) (nd_exec nd) (cf_Hostname cfg) s = (Inr (), s1)" and
    2: "ensureFolders (nd_users nd) (cf_Folders cfg) s1 = (Inr (), s2)" and
    3: "ensureFiles (nd_users nd) (cf_Files cfg) s2 = (Inr (), s3)" and
    4: "configureHostInterfaces (nd_json nd) (nd_exec nd) (nd_netlink nd) (cf_Interfaces cfg) (cf_Routes cfg) s3 = (Inr (), s4)" and
    5: "configureFirewallPorts (ensureFirewalldRunning (nd_systemd nd)) (nd_dbus nd) (cf_FirewallPorts cfg) s4 = (Inr (), s5)" and
    6: "apart view s5 t"
    by (rule apply_success)
  let ?fo = "map (\<lambda>f. resolve (fo_Path f)) (cf_Folders cfg)" and ?fi = "map (\<lambda>f. resolve (fi_Path f)) (cf_Files cfg)"
  have doc: "resolve (fo_Path f) \<noteq> resolve nmstateStatePath \<and> resolve (fo_Path f) \<notin> set ?fi" if "f \<in> set (cf_Folders cfg)" for f
    using apart imageI [OF that, of "\<lambda>f. resolve (fo_Path f)"] by (metis (no_types, lifting) disjoint_iff distinct.simps(2) distinct_append in_set_conv_decomp list.set_map set_append UnI1)
  have doc_fi: "resolve (fi_Path f) \<noteq> resolve nmstateStatePath" if "f \<in> set (cf_Files cfg)" for f
    using apart imageI [OF that, of "\<lambda>f. resolve (fi_Path f)"] by (metis (no_types, lifting) distinct.simps(2) list.set_map set_append UnI2)
  have "same_files s s1" by (rule io_keepsD [OF hostname_keeps_files _ 1]) simp
  then have sep1: "sep s1" using s sep_same by blast
  have fo: "list_all (\<lambda>f. case inode_at s2 (resolve (fo_Path f)) of None \<Rightarrow> False | Some i \<Rightarrow> folder_matches (nd_users nd) f i) (cf_Folders cfg)"
    "kept_but (set ?fo) s1 s2"
    using ensureFolders_applied [OF sep1 _ folders 2] apart by simp_all
  then have sep2: "sep s2" by (simp add: kept_but_def)
  have fi: "list_all (\<lambda>f. case inode_at s3 (resolve (fi_Path f)) of None \<Rightarrow> False | Some i \<Rightarrow> file_matches (nd_users nd) f i) (cf_Files cfg)"
    "kept_but (set ?fi) s2 s3"
    using ensureFiles_applied [OF sep2 _ 3] apart by simp_all
  then have sep3: "sep s3" by (simp add: kept_but_def)
  have net: "kept_but {resolve nmstateStatePath} s3 s4"
    by (rule io_keepsD [OF tools.configure_interfaces_keeps kept_refl [OF sep3] 4])
  have "same_files s4 s5" by (rule io_keepsD [OF firewall_files _ 5]) simp
  with 6 have rest: "inode_at t q = inode_at s4 q" for q
    using same_files_view same_files_trans unfolding apart_def by metis
  have fi_t: "inode_at t q = inode_at s3 q" if "q \<noteq> resolve nmstateStatePath" "inode_at s3 q \<noteq> None" for q
    using net that rest by (simp add: kept_but_def)
  have fo_t: "inode_at t q = inode_at s2 q" if "q \<noteq> resolve nmstateStatePath" "q \<notin> set ?fi" "inode_at s2 q \<noteq> None" for q
    using fi(2) that fi_t by (simp add: kept_but_def)
  show "list_all (\<lambda>f. case inode_at t (resolve (fi_Path f)) of None \<Rightarrow> False | Some i \<Rightarrow> file_matches (nd_users nd) f i) (cf_Files cfg)"
    unfolding list_all_iff
  proof
    fix f assume f: "f \<in> set (cf_Files cfg)"
    then have "inode_at s3 (resolve (fi_Path f)) \<noteq> None" using fi(1) by (auto simp: list_all_iff split: option.splits)
    moreover have "resolve (fi_Path f) \<noteq> resolve nmstateStatePath" using f by (rule doc_fi)
    ultimately have "inode_at t (resolve (fi_Path f)) = inode_at s3 (resolve (fi_Path f))" by (intro fi_t)
    with fi(1) f show "case inode_at t (resolve (fi_Path f)) of None \<Rightarrow> False | Some i \<Rightarrow> file_matches (nd_users nd) f i"
      by (simp add: list_all_iff)
  qed
  show "list_all (\<lambda>f. case inode_at t (resolve (fo_Path f)) of None \<Rightarrow> False | Some i \<Rightarrow> folder_matches (nd_users nd) f i) (cf_Folders cfg)"
    unfolding list_all_iff
  proof
    fix f assume f: "f \<in> set (cf_Folders cfg)"
    then have "inode_at s2 (resolve (fo_Path f)) \<noteq> None" using fo(1) by (auto simp: list_all_iff split: option.splits)
    moreover have "resolve (fo_Path f) \<noteq> resolve nmstateStatePath" "resolve (fo_Path f) \<notin> set ?fi" using f doc by blast+
    ultimately have "inode_at t (resolve (fo_Path f)) = inode_at s2 (resolve (fo_Path f))" by (intro fo_t)
    with fo(1) f show "case inode_at t (resolve (fo_Path f)) of None \<Rightarrow> False | Some i \<Rightarrow> folder_matches (nd_users nd) f i"
      by (simp add: list_all_iff)
  qed
  have view: "items t = items s5" "zones t = zones s5" "defzone t = defzone s5" using 6 by (simp_all add: apart_def view_def)
  show "enforced (cf_FirewallPorts cfg) (defzone t) (items t) (zones t) \<or>
      cf_FirewallPorts cfg = [] \<and> (\<exists>u e v. ensureFirewalldRunning (nd_systemd nd) u = (Inl e, v))"
  proof (cases "ensureFirewalldRunning (nd_systemd nd) s4")
    case (Pair r v)
    show ?thesis
    proof (cases r)
      case (Inl e)
      with 5 Pair have "cf_FirewallPorts cfg = []"
        by (simp add: configureFirewallPorts_def run_bind run_try split: if_splits)
      with Pair Inl show ?thesis by blast
    next
      case (Inr y)
      with fw.configure_enforces [OF _ 5] Pair view show ?thesis by simp
    qed
  qed
qed

end

section \<open>A service with a state of its own\<close>

text \<open>Running an action on a part of the state.\<close>

definition on_part :: "('s \<Rightarrow> 'c) \<Rightarrow> ('c \<Rightarrow> 's \<Rightarrow> 's) \<Rightarrow> ('c, 'a) io \<Rightarrow> ('s, 'a) io" where
  "on_part get put m = (\<lambda>s. case m (get s) of (r, c) \<Rightarrow> (r, put c s))"

definition lift_dbus :: "('s \<Rightarrow> 'c) \<Rightarrow> ('c \<Rightarrow> 's \<Rightarrow> 's) \<Rightarrow> 'c dbus \<Rightarrow> 's dbus" where
  "lift_dbus get put db = \<lparr>db_connect = on_part get put (db_connect db), db_close = on_part get put (db_close db),
     db_call = (\<lambda>p m a. on_part get put (db_call db p m a))\<rparr>"

definition lift_podman :: "('s \<Rightarrow> 'c) \<Rightarrow> ('c \<Rightarrow> 's \<Rightarrow> 's) \<Rightarrow> 'c podman \<Rightarrow> 's podman" where
  "lift_podman get put pd = \<lparr>pd_GetClient = on_part get put (pd_GetClient pd),
     pd_DoRequest = (\<lambda>rq. on_part get put (pd_DoRequest pd rq)), pd_CloseBody = on_part get put (pd_CloseBody pd),
     pd_NewConnection = (\<lambda>uri. on_part get put (pd_NewConnection pd uri)), pd_json = pd_json pd,
     pd_sha256 = pd_sha256 pd, pd_text = pd_text pd\<rparr>"

locale part =
  fixes get :: "'y host_scheme \<Rightarrow> 'c" and put :: "'c \<Rightarrow> 'y host_scheme \<Rightarrow> 'y host_scheme"
  assumes get_put [simp]: "get (put c s) = c"
    and get_output [simp]: "get (s\<lparr>ho_log := l\<rparr>) = get s" "get (s\<lparr>ho_stderr := m\<rparr>) = get s"
begin

lemma on_part_run: "on_part get put m s = (r, t) \<Longrightarrow> m (get s) = (r, get t)"
  by (auto simp: on_part_def split: prod.splits)

lemma lift_calls:
  "db_connect (lift_dbus get put db) = on_part get put (db_connect db)"
  "db_close (lift_dbus get put db) = on_part get put (db_close db)"
  "db_call (lift_dbus get put db) p m a = on_part get put (db_call db p m a)"
  "pd_GetClient (lift_podman get put pd) = on_part get put (pd_GetClient pd)"
  "pd_CloseBody (lift_podman get put pd) = on_part get put (pd_CloseBody pd)"
  "pd_DoRequest (lift_podman get put pd) rq = on_part get put (pd_DoRequest pd rq)"
  by (simp_all add: lift_dbus_def lift_podman_def)

end

text \<open>A contract of the service is a contract of the whole.\<close>

locale firewalld_part = part get put + base: firewalld db items zones defzone zpath
  for get :: "'y host_scheme \<Rightarrow> 'x host_scheme" and put and db :: "'x hdbus" and items and zones and defzone and zpath
begin

end

sublocale firewalld_part \<subseteq> lifted: firewalld "lift_dbus get put db" "\<lambda>s. items (get s)" "\<lambda>s. zones (get s)" "\<lambda>s. defzone (get s)" zpath
proof (unfold_locales, unfold lift_calls, goal_cases)
  case (1 s b)
  show ?case by (rule base.zones_named)
next
  case (5 s r t)
  from on_part_run [OF 5] show ?case by (rule base.bus_frame(1))
next
  case (6 s r t)
  from on_part_run [OF 6] show ?case by (rule base.bus_frame(2))
next
  case (7 p m a s r' t)
  show ?case by (rule base.call_frame [OF on_part_run [OF 7]])
next
  case (8 p m a s e t)
  from on_part_run [OF 8] show ?case by (rule base.call_failed)
next
  case (9 s v t)
  from on_part_run [OF 9] show ?case by (rule base.default_zone)
next
  case (10 s v t)
  from on_part_run [OF 10] show ?case by (rule base.runtime_zones)
next
  case (11 s v t)
  from on_part_run [OF 11] show ?case by (rule base.permanent_zones)
next
  case (12 z s v t)
  from on_part_run [OF 12] show ?case by (rule base.zone_by_name)
next
  case (13 k z s v t)
  from on_part_run [OF 13] show ?case by (rule base.runtime_get)
next
  case (14 k z x s v t)
  from on_part_run [OF 14] show ?case by (rule base.runtime_query)
next
  case (15 k z x s v t)
  from on_part_run [OF 15] show ?case by (rule base.runtime_add)
next
  case (16 k z x s v t)
  from on_part_run [OF 16] show ?case by (rule base.runtime_remove)
next
  case (17 z k s v t)
  from on_part_run [OF 17] show ?case by (rule base.permanent_get)
next
  case (18 z k x s v t)
  from on_part_run [OF 18] show ?case by (rule base.permanent_query)
next
  case (19 z k x s v t)
  from on_part_run [OF 19] show ?case by (rule base.permanent_add)
next
  case (20 z k x s v t)
  from on_part_run [OF 20] show ?case by (rule base.permanent_remove)
qed simp_all

locale libpod_part = part get put + base: libpod pd ctrs images
  for get :: "'y host_scheme \<Rightarrow> 'x host_scheme" and put and pd :: "'x hpodman" and ctrs and images
begin

end

sublocale libpod_part \<subseteq> lifted: libpod "lift_podman get put pd" "\<lambda>s. ctrs (get s)" "\<lambda>s. images (get s)"
proof (unfold_locales, unfold lift_calls, goal_cases)
  case (5 s r t)
  from on_part_run [OF 5] show ?case by (rule base.client_frame(1))
next
  case (6 s r t)
  from on_part_run [OF 6] show ?case by (rule base.client_frame(2))
next
  case (7 s n c n' c')
  then show ?case by (rule base.unique_id)
next
  case (8 rq s r' t)
  show ?case by (rule base.get_frame [OF 8(1) on_part_run [OF 8(2)]])
next
  case (9 n s v t)
  from on_part_run [OF 9] show ?case by (rule base.container_exists)
next
  case (10 i s v t)
  from on_part_run [OF 10] show ?case by (rule base.image_exists)
next
  case (11 n s v t ins)
  show ?case by (rule base.inspect [OF on_part_run [OF 11(1)] 11(2)])
next
  case (12 s v t ls)
  show ?case by (rule base.container_list [OF on_part_run [OF 12(1)] 12(2)])
next
  case (13 i s r' t)
  from on_part_run [OF 13] show ?case by (rule base.pull)
next
  case (14 n s r' t)
  from on_part_run [OF 14] show ?case by (rule base.remove)
next
  case (15 spec s r' t)
  show ?case by (rule base.create [OF 15(1) on_part_run [OF 15(2)]])
next
  case (16 i s r' t)
  from on_part_run [OF 16] show ?case by (rule base.start)
next
  case (17 i s r' t)
  from on_part_run [OF 17] show ?case by (rule base.stop)
qed simp_all

section \<open>A node in memory\<close>

text \<open>The files, an in-memory firewalld, an in-memory Podman and a clock; each attempt to connect takes
  a millisecond and succeeds.\<close>

record mem = fs +
  me_fwd :: fwd
  me_pdm :: pdm
  me_clock :: nat

definition put_fwd :: "fwd \<Rightarrow> mem \<Rightarrow> mem" where
  "put_fwd c s = s\<lparr>me_fwd := c\<rparr>"

definition put_pdm :: "pdm \<Rightarrow> mem \<Rightarrow> mem" where
  "put_pdm c s = s\<lparr>me_pdm := c\<rparr>"

definition mem_node :: "unit mem_ext backend" where
  "mem_node = \<lparr>nd_users = sample_users, nd_Hostname = io_ok ''edge'', nd_exec = quiet_exec, nd_json = (\<lambda>_. Inr ''{}''),
     nd_netlink = quiet_netlink,
     nd_systemd = \<lparr>sd_connect = io_ok (), sd_close = io_ok (), sd_start = (\<lambda>_ _. io_ok 1), sd_wait = (\<lambda>s. (Some ''done'', s)),
       sd_ctx_err = Outside ''deadline''\<rparr>,
     nd_dbus = lift_dbus me_fwd put_fwd fwd_bus,
     nd_timer = \<lparr>tm_now = me_clock, tm_dial = (\<lambda>_ s. (Inr (), s\<lparr>me_clock := me_clock s + 1000000\<rparr>)),
       tm_sleep = (\<lambda>d s. s\<lparr>me_clock := me_clock s + d\<rparr>)\<rparr>,
     nd_podman = lift_podman me_pdm put_pdm pdm_podman\<rparr>"

lemma mem_fields:
  "nd_users mem_node = sample_users" "nd_Hostname mem_node = io_ok ''edge''" "nd_exec mem_node = quiet_exec"
  "nd_netlink mem_node = quiet_netlink" "nd_dbus mem_node = lift_dbus me_fwd put_fwd fwd_bus"
  "nd_podman mem_node = lift_podman me_pdm put_pdm pdm_podman"
  "tm_now (nd_timer mem_node) = me_clock"
  "tm_dial (nd_timer mem_node) p s = (Inr (), s\<lparr>me_clock := me_clock s + 1000000\<rparr>)"
  "tm_sleep (nd_timer mem_node) d s = s\<lparr>me_clock := me_clock s + d\<rparr>"
  "start_unit (nd_systemd mem_node) u s = (Inr (), s)"
  by (simp_all add: mem_node_def start_unit_def run_finally run_then run_wrap job_result_def)

lemma me_output:
  "me_fwd (s\<lparr>ho_log := l\<rparr>) = me_fwd s" "me_fwd (s\<lparr>ho_stderr := m\<rparr>) = me_fwd s"
  "me_pdm (s\<lparr>ho_log := l\<rparr>) = me_pdm s" "me_pdm (s\<lparr>ho_stderr := m\<rparr>) = me_pdm s"
  by (cases s; simp)+

interpretation mem_fwd: firewalld_part me_fwd put_fwd fwd_bus fwd_items "\<lambda>s _. set (fwd_zones s)" fd_default fwd_path
  by (unfold_locales; (simp add: put_fwd_def | rule me_output))

interpretation mem_pdm: libpod_part me_pdm put_pdm pdm_podman pdm_ctrs "\<lambda>s. set (pm_images s)"
  by (unfold_locales; (simp add: put_pdm_def | rule me_output))

lemma same_files_mem [simp]:
  "same_files s (put_fwd c s)" "same_files s (put_pdm d s)" "same_files s (s\<lparr>me_clock := n\<rparr>)"
  by (simp_all add: same_files_def put_fwd_def put_pdm_def)

lemma on_part_files: "on_part get put m s = (r, t) \<Longrightarrow> (\<And>c. same_files s (put c s)) \<Longrightarrow> same_files s t"
  by (auto simp: on_part_def split: prod.splits)

lemma me_fwd_other [simp]: "me_fwd (put_pdm d s) = me_fwd s" "me_fwd (s\<lparr>me_clock := n\<rparr>) = me_fwd s"
    "me_fwd (s\<lparr>ho_stderr := m\<rparr>) = me_fwd s"
  by (simp_all add: put_pdm_def me_output)

lemma on_pdm_apart:
  "on_part me_pdm put_pdm m s = (r, t) \<Longrightarrow>
     apart (\<lambda>u. (fwd_items (me_fwd u), (\<lambda>_. set (fwd_zones (me_fwd u))), fd_default (me_fwd u))) s t"
  by (auto simp: on_part_def apart_def split: prod.splits)

interpretation mem: node mem_node "\<lambda>s. fwd_items (me_fwd s)" "\<lambda>s _. set (fwd_zones (me_fwd s))" "\<lambda>s. fd_default (me_fwd s)"
  fwd_path "\<lambda>s. pdm_ctrs (me_pdm s)" "\<lambda>s. set (pm_images (me_pdm s))"
proof (intro_locales)
  show "firewalld (nd_dbus mem_node) (\<lambda>s. fwd_items (me_fwd s)) (\<lambda>s _. set (fwd_zones (me_fwd s))) (\<lambda>s. fd_default (me_fwd s)) fwd_path"
    unfolding mem_fields by (rule mem_fwd.lifted.firewalld_axioms)
  show "libpod (nd_podman mem_node) (\<lambda>s. pdm_ctrs (me_pdm s)) (\<lambda>s. set (pm_images (me_pdm s)))"
    unfolding mem_fields by (rule mem_pdm.lifted.libpod_axioms)
  show "clock (nd_timer mem_node)"
    by unfold_locales (auto simp: mem_fields)
  show "host_tools (nd_exec mem_node) (nd_netlink mem_node)"
    unfolding mem_fields by (rule quiet.host_tools_axioms)
  show "node_axioms mem_node (\<lambda>s. fwd_items (me_fwd s)) (\<lambda>s _. set (fwd_zones (me_fwd s))) (\<lambda>s. fd_default (me_fwd s))"
    unfolding node_axioms_def startPodmanSocket_def ensureFirewalldRunning_def mem_fields
    by (auto simp: apart_refl lift_dbus_def lift_podman_def apart_def dest: on_part_files on_pdm_apart)
qed

section \<open>Properties\<close>


definition node_config :: Config where
  "node_config = sample_config\<lparr>
     cf_Files := [\<lparr>fi_Path = ''/etc/ec.json'', fi_Chmod = [], fi_User = [], fi_Content = ''{}'', fi_Encoding = []\<rparr>],
     cf_FirewallPorts := [\<lparr>fw_Zone = [], fw_Port = ''8080-8090'', fw_Protocol = ''udp'', fw_Source = ''10.0.0.0/8''\<rparr>]\<rparr>"

definition sample_mem :: mem where
  "sample_mem = fs.extend (sample_fs []) \<lparr>me_fwd = sample_fwd, me_pdm = sample_pdm, me_clock = 0\<rparr>"

lemma sample_mem_sep: "sep sample_mem"
  by (auto simp: sep_def fs_wf_def sample_mem_def sample_fs_def fs.defs name_of_def split: if_splits)


end
