(* ===== verification/Float64.thy ===== *)
theory Float64
  imports Complex_Main "HOL-Library.Log_Nat" "HOL-Library.Word"
begin

text \<open>
  The \<open>float64\<close> arithmetic the program does on counters: rationals that are rounded to 53 binary
  digits, half to even, after every operation.  All values are zero or between \<open>2^-64\<close> and
  \<open>2^71\<close>, so neither overflow nor denormal numbers can occur.
\<close>

section \<open>Rounding\<close>

definition ilog2 :: "rat \<Rightarrow> int" where
  "ilog2 x =
     (case quotient_of x of
        (p, q) \<Rightarrow>
          let k = bitlen p - bitlen q
          in if 2 ^ nat k * q \<le> p * 2 ^ nat (- k) then k else k - 1)"

definition round_even :: "rat \<Rightarrow> int" where
  "round_even y =
     (let f = \<lfloor>y\<rfloor>; d = y - of_int f
      in if d < 1 / 2 \<or> d = 1 / 2 \<and> even f then f else f + 1)"

definition rnd :: "rat \<Rightarrow> rat" where
  "rnd x = (if x \<le> 0 then 0 else let u = 2 powi (ilog2 x - 52) in of_int (round_even (x / u)) * u)"

lemma powi_two_split: "(2::rat) powi k * 2 ^ nat (- k) = 2 ^ nat k"
  by (cases "0 \<le> k") (simp_all add: power_int_def field_simps)

lemma ilog2_bounds:
  assumes "0 < x"
  shows "2 powi (ilog2 x) \<le> x" "x < 2 powi (ilog2 x + 1)"
proof -
  obtain p q where pq: "quotient_of x = (p, q)" by (cases "quotient_of x")
  have q: "0 < q" using quotient_of_denom_pos [OF pq] .
  have x: "x = of_int p / of_int q" using quotient_of_div [OF pq] .
  have p: "0 < p" using assms q unfolding x by (simp add: zero_less_divide_iff)
  let ?k = "bitlen p - bitlen q"
  have bp: "2 ^ nat (bitlen p - 1) \<le> p" "p < 2 ^ nat (bitlen p)" using bitlen_bounds [OF p] by simp_all
  have bq: "2 ^ nat (bitlen q - 1) \<le> q" "q < 2 ^ nat (bitlen q)" using bitlen_bounds [OF q] by simp_all
  have pos: "0 < bitlen p" "0 < bitlen q"
    using p q bitlen_nonneg [of p] bitlen_nonneg [of q] bitlen_eq_zero_iff [of p] bitlen_eq_zero_iff [of q] by linarith+
  have powers: "(2::rat) powi bitlen p \<le> 2 * of_int p" "of_int p < (2::rat) powi bitlen p"
    "(2::rat) powi bitlen q \<le> 2 * of_int q" "of_int q < (2::rat) powi bitlen q"
  proof -
    have half: "(2::rat) powi n = 2 * of_int (2 ^ nat (n - 1))" if "0 < n" for n
      using that by (simp add: power_int_def nat_diff_distrib flip: power_Suc)
    have whole: "(2::rat) powi n = of_int (2 ^ nat n)" if "0 < n" for n
      using that by (simp add: power_int_def)
    show "(2::rat) powi bitlen p \<le> 2 * of_int p" "(2::rat) powi bitlen q \<le> 2 * of_int q"
      unfolding half [OF pos(1)] half [OF pos(2)] using bp bq by simp_all
    show "of_int p < (2::rat) powi bitlen p" "of_int q < (2::rat) powi bitlen q"
      unfolding whole [OF pos(1)] whole [OF pos(2)] of_int_less_iff using bp bq by simp_all
  qed
  have k: "(2::rat) powi ?k = 2 powi bitlen p / 2 powi bitlen q" by (simp add: power_int_diff)
  have qpos: "(0::rat) < of_int q" using q by simp
  have wide: "2 powi (?k - 1) \<le> x" "x < 2 powi (?k + 1)"
  proof -
    have "2 powi bitlen p / 2 powi bitlen q \<le> (2 * of_int p) / (of_int q :: rat)"
      using powers qpos p by (intro frac_le) simp_all
    moreover have "(2::rat) powi (?k - 1) = 2 powi bitlen p / 2 powi bitlen q / 2" by (simp add: power_int_diff k)
    ultimately show "2 powi (?k - 1) \<le> x" unfolding x by simp
    have "of_int p / (of_int q :: rat) < 2 powi bitlen p / (2 powi bitlen q / 2)"
      using powers qpos p by (intro frac_less) simp_all
    then show "x < 2 powi (?k + 1)" unfolding x by (simp add: power_int_add power_int_diff k field_simps)
  qed
  have test: "2 ^ nat ?k * q \<le> p * 2 ^ nat (- ?k) \<longleftrightarrow> 2 powi ?k \<le> x"
  proof -
    have "2 ^ nat ?k * q \<le> p * 2 ^ nat (- ?k) \<longleftrightarrow> (of_int (2 ^ nat ?k * q) :: rat) \<le> of_int (p * 2 ^ nat (- ?k))"
      by (simp only: of_int_le_iff)
    also have "\<dots> \<longleftrightarrow> (2::rat) powi ?k * 2 ^ nat (- ?k) * of_int q \<le> of_int p * 2 ^ nat (- ?k)"
      by (simp only: of_int_mult of_int_power of_int_numeral powi_two_split)
    also have "\<dots> \<longleftrightarrow> ((2::rat) powi ?k * of_int q) * 2 ^ nat (- ?k) \<le> of_int p * 2 ^ nat (- ?k)"
      by (simp add: mult_ac)
    also have "\<dots> \<longleftrightarrow> (2::rat) powi ?k * of_int q \<le> of_int p" by (rule mult_le_cancel_right_pos) simp
    also have "\<dots> \<longleftrightarrow> 2 powi ?k \<le> x" unfolding x using qpos by (simp add: pos_le_divide_eq)
    finally show ?thesis .
  qed
  have val: "ilog2 x = (if 2 powi ?k \<le> x then ?k else ?k - 1)"
    by (simp only: ilog2_def pq prod.case Let_def test)
  show "2 powi (ilog2 x) \<le> x" "x < 2 powi (ilog2 x + 1)"
    unfolding val using wide by (cases "2 powi ?k \<le> x"; simp)+
qed

lemma round_even_int [simp]: "round_even (of_int n) = n"
  by (simp add: round_even_def)

lemma round_even_mono: "y \<le> z \<Longrightarrow> round_even y \<le> round_even z"
proof -
  assume le: "y \<le> z"
  then have f: "\<lfloor>y\<rfloor> \<le> \<lfloor>z\<rfloor>" by (rule floor_mono)
  show ?thesis
  proof (cases "\<lfloor>y\<rfloor> = \<lfloor>z\<rfloor>")
    case True
    then show ?thesis using le by (auto simp: round_even_def Let_def)
  next
    case False
    with f show ?thesis by (auto simp: round_even_def Let_def)
  qed
qed

lemma ilog2_mono: "0 < x \<Longrightarrow> x \<le> y \<Longrightarrow> ilog2 x \<le> ilog2 y"
proof (rule ccontr)
  assume x: "0 < x" "x \<le> y" and "\<not> ilog2 x \<le> ilog2 y"
  then have "(2::rat) powi (ilog2 y + 1) \<le> 2 powi (ilog2 x)" by (intro power_int_increasing) simp_all
  with ilog2_bounds(1) [of x] ilog2_bounds(2) [of y] x show False by linarith
qed

text \<open>The rounded value stays within the powers of two around it.\<close>

lemma rnd_range:
  assumes "0 < x"
  shows "2 powi (ilog2 x) \<le> rnd x" "rnd x \<le> 2 powi (ilog2 x + 1)"
proof -
  let ?u = "(2::rat) powi (ilog2 x - 52)"
  have u: "0 < ?u" by simp
  have low: "2 powi (ilog2 x) = of_int (2 ^ 52) * ?u" and high: "2 powi (ilog2 x + 1) = of_int (2 ^ 53) * ?u"
  proof -
    have "(2::rat) powi 52 = of_int (2 ^ 52)" "(2::rat) powi 53 = of_int (2 ^ 53)" by (simp_all add: power_int_def)
    moreover have "(2::rat) powi 52 * ?u = 2 powi ilog2 x" "(2::rat) powi 53 * ?u = 2 powi (ilog2 x + 1)"
      by (simp_all only: power_int_add [symmetric, of "2::rat"] zero_neq_numeral [symmetric] disj_not1 simp_thms) (simp_all add: add.commute)
    ultimately show "2 powi (ilog2 x) = of_int (2 ^ 52) * ?u" "2 powi (ilog2 x + 1) = of_int (2 ^ 53) * ?u" by metis+
  qed
  have "of_int (2 ^ 52) \<le> x / ?u" "x / ?u \<le> of_int (2 ^ 53)"
    using ilog2_bounds [OF assms] u unfolding low high by (simp_all add: pos_le_divide_eq pos_divide_le_eq)
  from round_even_mono [OF this(1)] round_even_mono [OF this(2)]
  have r: "2 ^ 52 \<le> round_even (x / ?u)" "round_even (x / ?u) \<le> 2 ^ 53" unfolding round_even_int by simp_all
  have val: "rnd x = of_int (round_even (x / ?u)) * ?u" using assms by (simp add: rnd_def Let_def)
  have le: "(of_int m :: rat) * ?u \<le> of_int n * ?u" if "m \<le> n" for m n
    using that u by (intro mult_right_mono) simp_all
  show "2 powi (ilog2 x) \<le> rnd x" unfolding low val by (rule le [OF r(1)])
  show "rnd x \<le> 2 powi (ilog2 x + 1)" unfolding high val by (rule le [OF r(2)])
qed

lemma rnd_mono: "x \<le> y \<Longrightarrow> rnd x \<le> rnd y"
proof -
  assume le: "x \<le> y"
  show ?thesis
  proof (cases "0 < x")
    case False
    have "0 \<le> rnd y"
    proof (cases "0 < y")
      case True
      have "(0::rat) < 2 powi (ilog2 y)" by simp
      with rnd_range(1) [OF True] show ?thesis by linarith
    qed (simp add: rnd_def)
    with False show ?thesis by (simp add: rnd_def)
  next
    case True
    note mono = ilog2_mono [OF True le]
    show ?thesis
    proof (cases "ilog2 x = ilog2 y")
      case same: True
      have "x / 2 powi (ilog2 y - 52) \<le> y / 2 powi (ilog2 y - 52)" using le by (intro divide_right_mono) simp_all
      from round_even_mono [OF this] same True le show ?thesis
        by (simp add: rnd_def Let_def mult_right_mono)
    next
      case False
      with mono have "(2::rat) powi (ilog2 x + 1) \<le> 2 powi (ilog2 y)" by (intro power_int_increasing) simp_all
      with rnd_range(2) [OF True] rnd_range(1) [of y] True le show ?thesis by linarith
    qed
  qed
qed

lemma rnd_zero [simp]: "rnd 0 = 0"
  by (simp add: rnd_def)

lemma rnd_pos: "0 < x \<Longrightarrow> 0 < rnd x"
  using rnd_range(1) [of x] zero_less_power_int [of "2::rat" "ilog2 x"] by linarith

lemma rnd_one [simp]: "rnd 1 = 1"
  by code_simp

lemma rnd_hundred [simp]: "rnd 100 = 100"
  by code_simp

section \<open>Percentages\<close>

text \<open>\<open>float64(part) / float64(whole) * 100\<close>.\<close>

definition percent :: "64 word \<Rightarrow> 64 word \<Rightarrow> rat" where
  "percent part whole = rnd (rnd (rnd (of_int (uint part)) / rnd (of_int (uint whole))) * 100)"

lemma percent_bounds:
  assumes "part \<le> whole" "whole \<noteq> 0"
  shows "0 \<le> percent part whole" "percent part whole \<le> 100"
proof -
  have le: "rnd (of_int (uint part)) \<le> rnd (of_int (uint whole))"
    by (rule rnd_mono [OF of_int_le_iff [THEN iffD2, OF assms(1) [unfolded word_le_def]]])
  have pos: "0 < rnd (of_int (uint whole))"
  proof (rule rnd_pos)
    have "0 < uint whole" using assms(2) by (simp add: word_neq_0_conv word_less_def)
    then show "(0::rat) < of_int (uint whole)" by (simp only: of_int_0_less_iff)
  qed
  have nonneg: "0 \<le> rnd (of_int (uint part))" proof -
    have "(0::rat) \<le> of_int (uint part)" by (simp only: of_int_0_le_iff unsigned_greater_eq)
    from rnd_mono [OF this] show ?thesis by (simp only: rnd_zero)
  qed
  have "rnd (of_int (uint part)) / rnd (of_int (uint whole)) \<le> 1" using le pos by (simp add: pos_divide_le_eq)
  from rnd_mono [OF this] have q1: "rnd (rnd (of_int (uint part)) / rnd (of_int (uint whole))) \<le> 1" by simp
  have "0 \<le> rnd (of_int (uint part)) / rnd (of_int (uint whole))" using nonneg pos by simp
  from rnd_mono [OF this] have q0: "0 \<le> rnd (rnd (of_int (uint part)) / rnd (of_int (uint whole)))" by simp
  show "0 \<le> percent part whole" using rnd_mono [of 0 "rnd (rnd (of_int (uint part)) / rnd (of_int (uint whole))) * 100"] q0
    by (simp add: percent_def)
  show "percent part whole \<le> 100" using rnd_mono [of "rnd (rnd (of_int (uint part)) / rnd (of_int (uint whole))) * 100" 100] q1
    by (simp add: percent_def)
qed

end
