(* ===== verification/Hoststats.thy ===== *)
theory Hoststats
  imports Float64 Config
begin

text \<open>
  \<open>hoststats.go\<close>: disks, memory, processor and uptime.  What the collectors read of the kernel is a
  view of the host; the processor is read in two views, one before and one after the pause.
  Counters are 64-bit words.  Decoding the decimal fraction of the uptime is a parameter, which
  gives the value of a finite number.
\<close>

section \<open>The view of the host\<close>

record statfs =
  sf_Bsize :: "64 word"
  sf_Blocks :: "64 word"
  sf_Bfree :: "64 word"
  sf_Bavail :: "64 word"

record host_view =
  hv_ReadFile :: "string \<Rightarrow> string res"
  hv_Stat :: "string \<Rightarrow> 64 word res"
  hv_Statfs :: "string \<Rightarrow> statfs res"

definition newline_char :: char where "newline_char = CHR 0x0A"

section \<open>Disks\<close>

record diskStatus =
  ds_Path :: string
  ds_TotalBytes :: "64 word"
  ds_FreeBytes :: "64 word"
  ds_AvailableBytes :: "64 word"
  ds_UsedBytes :: "64 word"
  ds_UsedPercent :: rat

text \<open>\<open>strings.NewReplacer\<close> with the four escapes: at every position the first that matches.\<close>

fun replace_escapes :: "string \<Rightarrow> string" where
  "replace_escapes [] = []"
| "replace_escapes (c # s) =
     (if HasPrefix (c # s) [CHR 0x5C, CHR ''0'', CHR ''4'', CHR ''0''] then CHR '' '' # replace_escapes (drop 3 s)
      else if HasPrefix (c # s) [CHR 0x5C, CHR ''0'', CHR ''1'', CHR ''1''] then CHR 0x09 # replace_escapes (drop 3 s)
      else if HasPrefix (c # s) [CHR 0x5C, CHR ''0'', CHR ''1'', CHR ''2''] then CHR 0x0A # replace_escapes (drop 3 s)
      else if HasPrefix (c # s) [CHR 0x5C, CHR ''1'', CHR ''3'', CHR ''4''] then CHR 0x5C # replace_escapes (drop 3 s)
      else c # replace_escapes s)"

definition unescapeMountPoint :: "string \<Rightarrow> string" where
  "unescapeMountPoint field = (if CHR 0x5C \<notin> set field then field else replace_escapes field)"

definition mount_of_line :: "string \<Rightarrow> string option" where
  "mount_of_line line =
     (let fields = Fields line in
      if length fields < 3 then None
      else if \<not> HasPrefix (fields ! 0) ''/dev/'' then None
      else Some (unescapeMountPoint (fields ! 1)))"

definition readDiskMounts :: "host_view \<Rightarrow> string \<Rightarrow> string list res" where
  "readDiskMounts hv path =
     res_bind (res_wrap (Wrapf ''read mounts %q: %w'' [path]) (hv_ReadFile hv path)) (\<lambda>data.
     Inr (List.map_filter mount_of_line (Split data newline_char)))"

definition diskStatusForPath :: "host_view \<Rightarrow> string \<Rightarrow> diskStatus res" where
  "diskStatusForPath hv path =
     res_bind (res_wrap (Wrapf ''%s: %w'' [path]) (hv_Statfs hv path)) (\<lambda>stat.
     let blockSize = sf_Bsize stat;
         total = sf_Blocks stat * blockSize;
         free = sf_Bfree stat * blockSize;
         available = sf_Bavail stat * blockSize;
         used = (if total > free then total - free else 0);
         usedPercent = (if total > 0 then percent used total else 0)
     in Inr \<lparr>ds_Path = path, ds_TotalBytes = total, ds_FreeBytes = free, ds_AvailableBytes = available,
          ds_UsedBytes = used, ds_UsedPercent = usedPercent\<rparr>)"

fun collect_disks :: "host_view \<Rightarrow> 64 word list \<Rightarrow> string list \<Rightarrow> diskStatus list \<times> err list" where
  "collect_disks hv seen [] = ([], [])"
| "collect_disks hv seen (mountPoint # mounts) =
     (case hv_Stat hv mountPoint of
        Inl e \<Rightarrow> (case collect_disks hv seen mounts of (ss, es) \<Rightarrow> (ss, Wrapf ''%s: %w'' [mountPoint] e # es))
      | Inr dev \<Rightarrow>
          if dev \<in> set seen then collect_disks hv seen mounts
          else (case diskStatusForPath hv mountPoint of
                  Inl e \<Rightarrow> (case collect_disks hv (dev # seen) mounts of (ss, es) \<Rightarrow> (ss, e # es))
                | Inr d \<Rightarrow> (case collect_disks hv (dev # seen) mounts of (ss, es) \<Rightarrow> (d # ss, es))))"

definition collectDiskStatuses :: "host_view \<Rightarrow> diskStatus list \<times> err list" where
  "collectDiskStatuses hv =
     (case readDiskMounts hv ''/proc/mounts'' of
        Inl e \<Rightarrow> ([], [e])
      | Inr mounts \<Rightarrow> collect_disks hv [] mounts)"

section \<open>Memory\<close>

record memoryStatus =
  ms_TotalBytes :: "64 word"
  ms_FreeBytes :: "64 word"
  ms_AvailableBytes :: "64 word"
  ms_UsedBytes :: "64 word"
  ms_UsedPercent :: rat
  ms_Error :: string

definition no_memory :: "string \<Rightarrow> memoryStatus" where
  "no_memory e = \<lparr>ms_TotalBytes = 0, ms_FreeBytes = 0, ms_AvailableBytes = 0, ms_UsedBytes = 0, ms_UsedPercent = 0, ms_Error = e\<rparr>"

definition meminfo_line :: "string \<Rightarrow> (string \<Rightarrow> 64 word option) \<Rightarrow> string \<Rightarrow> 64 word option" where
  "meminfo_line line values =
     (case Cut line (CHR '':'') of
        (key, rest, ok) \<Rightarrow>
          if \<not> ok then values
          else let fields = Fields rest in
            if fields = [] then values
            else (case ParseUint (fields ! 0) 10 64 of
                    Inl _ \<Rightarrow> values
                  | Inr v \<Rightarrow>
                      values(key \<mapsto> (if length fields \<ge> 2 \<and> fields ! 1 = ''kB'' then word_of_nat v * 1024 else word_of_nat v))))"

definition readMeminfo :: "host_view \<Rightarrow> string \<Rightarrow> (string \<Rightarrow> 64 word option) res" where
  "readMeminfo hv path =
     res_bind (res_wrap (Wrapf ''read meminfo %q: %w'' [path]) (hv_ReadFile hv path)) (\<lambda>data.
     Inr (fold meminfo_line (Split data newline_char) (\<lambda>_. None)))"

definition value_or_zero :: "64 word option \<Rightarrow> 64 word" where
  "value_or_zero v = (case v of None \<Rightarrow> 0 | Some x \<Rightarrow> x)"

definition collectMemoryStatus :: "(err \<Rightarrow> string) \<Rightarrow> host_view \<Rightarrow> memoryStatus" where
  "collectMemoryStatus err_text hv =
     (case readMeminfo hv ''/proc/meminfo'' of
        Inl e \<Rightarrow> no_memory (err_text e)
      | Inr values \<Rightarrow>
          let total = value_or_zero (values ''MemTotal'') in
          if total = 0 then no_memory ''meminfo reported no MemTotal''
          else let free = value_or_zero (values ''MemFree'');
                   available = (case values ''MemAvailable'' of None \<Rightarrow> free | Some a \<Rightarrow> a);
                   used = (if total > available then total - available else 0)
               in \<lparr>ms_TotalBytes = total, ms_FreeBytes = free, ms_AvailableBytes = available, ms_UsedBytes = used,
                    ms_UsedPercent = percent used total, ms_Error = []\<rparr>)"

section \<open>Uptime\<close>

record uptimeStatus =
  ut_Seconds :: "64 word"
  ut_Human :: string
  ut_Error :: string

definition readUptimeSeconds :: "(string \<Rightarrow> rat res) \<Rightarrow> host_view \<Rightarrow> string \<Rightarrow> 64 word res" where
  "readUptimeSeconds parseFloat hv path =
     res_bind (res_wrap (Wrapf ''read uptime %q: %w'' [path]) (hv_ReadFile hv path)) (\<lambda>data.
     let fields = Fields data in
     if fields = [] then Inl (Errf ''uptime %q was empty'' [path])
     else res_bind (res_wrap (Wrapf ''parse uptime %q: %w'' [path]) (parseFloat (fields ! 0))) (\<lambda>seconds.
       Inr (word_of_int \<lfloor>if seconds < 0 then 0 else seconds\<rfloor>)))"

definition with_unit :: "64 word \<Rightarrow> char \<Rightarrow> string" where
  "with_unit n u = nat_string 10 (unat n) @ [u]"

definition formatUptime :: "64 word \<Rightarrow> string" where
  "formatUptime seconds =
     (let days = seconds div 86400;
          hours = seconds mod 86400 div 3600;
          minutes = seconds mod 3600 div 60;
          secs = seconds mod 60;
          parts1 = (if days > 0 then [with_unit days CHR ''d''] else []);
          parts2 = (if hours > 0 \<or> parts1 \<noteq> [] then parts1 @ [with_unit hours CHR ''h''] else parts1);
          parts3 = (if minutes > 0 \<or> parts2 \<noteq> [] then parts2 @ [with_unit minutes CHR ''m''] else parts2)
      in Join (parts3 @ [with_unit secs CHR ''s'']) '' '')"

definition collectUptimeStatus :: "(err \<Rightarrow> string) \<Rightarrow> (string \<Rightarrow> rat res) \<Rightarrow> host_view \<Rightarrow> uptimeStatus" where
  "collectUptimeStatus err_text parseFloat hv =
     (case readUptimeSeconds parseFloat hv ''/proc/uptime'' of
        Inl e \<Rightarrow> \<lparr>ut_Seconds = 0, ut_Human = [], ut_Error = err_text e\<rparr>
      | Inr seconds \<Rightarrow> \<lparr>ut_Seconds = seconds, ut_Human = formatUptime seconds, ut_Error = []\<rparr>)"

section \<open>Processor\<close>

record cpuTimes =
  ct_idle :: "64 word"
  ct_total :: "64 word"

record cpuStatus =
  cs_Cores :: int
  cs_UsedPercent :: rat
  cs_Error :: string

fun cpu_columns :: "nat \<Rightarrow> string list \<Rightarrow> cpuTimes \<Rightarrow> cpuTimes res" where
  "cpu_columns i [] acc = Inr acc"
| "cpu_columns i (field # cols) acc =
     (case ParseUint field 10 64 of
        Inl e \<Rightarrow> Inl (Wrapf ''parse cpu stat field %q: %w'' [field] (num_err ''ParseUint'' field e))
      | Inr value \<Rightarrow>
          cpu_columns (Suc i) cols
            \<lparr>ct_idle = (if i = 3 \<or> i = 4 then ct_idle acc + word_of_nat value else ct_idle acc),
             ct_total = ct_total acc + word_of_nat value\<rparr>)"

fun cpu_lines :: "string \<Rightarrow> string list \<Rightarrow> cpuTimes res" where
  "cpu_lines path [] = Inl (Errf ''no aggregate cpu line in %q'' [path])"
| "cpu_lines path (line # lines) =
     (let cols = Fields line in
      if length cols < 5 \<or> cols ! 0 \<noteq> ''cpu'' then cpu_lines path lines
      else cpu_columns 0 (tl cols) \<lparr>ct_idle = 0, ct_total = 0\<rparr>)"

definition readCPUTimes :: "host_view \<Rightarrow> string \<Rightarrow> cpuTimes res" where
  "readCPUTimes hv path =
     res_bind (res_wrap (Wrapf ''read cpu stat %q: %w'' [path]) (hv_ReadFile hv path)) (\<lambda>data.
     cpu_lines path (Split data newline_char))"

definition cpuUsedPercent :: "cpuTimes \<Rightarrow> cpuTimes \<Rightarrow> rat" where
  "cpuUsedPercent before after =
     (let totalDelta = ct_total after - ct_total before;
          idleDelta = ct_idle after - ct_idle before
      in if totalDelta = 0 \<or> idleDelta > totalDelta then 0
         else percent (totalDelta - idleDelta) totalDelta)"

definition collectCPUStatus :: "(err \<Rightarrow> string) \<Rightarrow> int \<Rightarrow> host_view \<Rightarrow> host_view \<Rightarrow> cpuStatus" where
  "collectCPUStatus err_text cores hv hv' =
     (let status = \<lparr>cs_Cores = cores, cs_UsedPercent = 0, cs_Error = []\<rparr> in
      case readCPUTimes hv ''/proc/stat'' of
        Inl e \<Rightarrow> status\<lparr>cs_Error := err_text e\<rparr>
      | Inr before \<Rightarrow>
      (case readCPUTimes hv' ''/proc/stat'' of
         Inl e \<Rightarrow> status\<lparr>cs_Error := err_text e\<rparr>
       | Inr after \<Rightarrow> status\<lparr>cs_UsedPercent := cpuUsedPercent before after\<rparr>))"

section \<open>Percentages\<close>

lemma word_minus_le: "(a::64 word) \<le> b \<Longrightarrow> b - a \<le> b"
  by (simp add: word_le_def uint_sub_if')

lemma diskStatus_bounds:
  "diskStatusForPath hv path = Inr d \<Longrightarrow>
     ds_UsedBytes d \<le> ds_TotalBytes d \<and> 0 \<le> ds_UsedPercent d \<and> ds_UsedPercent d \<le> 100"
  using word_minus_le percent_bounds
  by (auto simp: diskStatusForPath_def Let_def res_bind_Inr_iff word_greater_zero_iff split: if_splits)

lemma memory_bounds:
  "ms_UsedBytes (collectMemoryStatus err_text hv) \<le> ms_TotalBytes (collectMemoryStatus err_text hv) \<and>
     0 \<le> ms_UsedPercent (collectMemoryStatus err_text hv) \<and> ms_UsedPercent (collectMemoryStatus err_text hv) \<le> 100"
  using word_minus_le percent_bounds
  by (auto simp: collectMemoryStatus_def no_memory_def Let_def split: sum.splits)

lemma cpu_bounds: "0 \<le> cpuUsedPercent b a \<and> cpuUsedPercent b a \<le> 100"
proof (cases "ct_total a - ct_total b = 0 \<or> ct_idle a - ct_idle b > ct_total a - ct_total b")
  case False
  then have "ct_idle a - ct_idle b \<le> ct_total a - ct_total b" "ct_total a - ct_total b \<noteq> 0" by (auto simp: not_less)
  then show ?thesis using percent_bounds word_minus_le by (simp add: cpuUsedPercent_def Let_def)
qed (auto simp: cpuUsedPercent_def Let_def)

section \<open>The rendering of the uptime\<close>

definition unit_seconds :: "char \<Rightarrow> nat" where
  "unit_seconds u = (if u = CHR ''d'' then 86400 else if u = CHR ''h'' then 3600 else if u = CHR ''m'' then 60 else 1)"

definition part_value :: "string \<Rightarrow> nat" where
  "part_value p =
     (case rev p of
        [] \<Rightarrow> 0
      | u # ds \<Rightarrow> (case ParseUint (rev ds) 10 64 of Inl _ \<Rightarrow> 0 | Inr n \<Rightarrow> n * unit_seconds u))"

definition uptime_value :: "string \<Rightarrow> nat" where
  "uptime_value s = sum_list (map part_value (Split s (CHR '' '')))"

lemma part_value_unit: "part_value (with_unit n u) = unat n * unit_seconds u"
proof -
  have "unat n < 2 ^ 64" using unsigned_less [of n] by simp
  from ParseUint_nat_string [OF this] show ?thesis by (simp add: part_value_def with_unit_def)
qed

lemma with_unit_no_space: "u \<noteq> CHR '' '' \<Longrightarrow> CHR '' '' \<notin> set (with_unit n u)"
  using nat_string_plain [of 10 "unat n"] by (auto simp: with_unit_def list_all_iff plain_char_def ascii_space_def)

lemma unit_parts:
  "unat (s::64 word) = unat (s div 86400) * 86400 + unat (s mod 86400 div 3600) * 3600 +
     unat (s mod 3600 div 60) * 60 + unat (s mod 60)"
proof -
  let ?n = "unat s"
  have "?n = ?n div 86400 * 86400 + ?n mod 86400 div 3600 * 3600 + ?n mod 3600 div 60 * 60 + ?n mod 60"
  proof -
    have "?n = ?n div 86400 * 86400 + ?n mod 86400" by simp
    moreover have "?n mod 86400 = ?n mod 86400 div 3600 * 3600 + ?n mod 86400 mod 3600" by simp
    moreover have "?n mod 86400 mod 3600 = ?n mod 3600" by (simp add: mod_mod_cancel)
    moreover have "?n mod 3600 = ?n mod 3600 div 60 * 60 + ?n mod 3600 mod 60" by simp
    moreover have "?n mod 3600 mod 60 = ?n mod 60" by (simp add: mod_mod_cancel)
    ultimately show ?thesis by linarith
  qed
  then show ?thesis by (simp add: unat_div unat_mod)
qed

section \<open>The mount table\<close>

text \<open>The escapes the kernel writes, and a table of rows with the source, the mount point and the rest.\<close>

fun kernel_escape :: "string \<Rightarrow> string" where
  "kernel_escape [] = []"
| "kernel_escape (c # s) =
     (if c = CHR '' '' then [CHR 0x5C, CHR ''0'', CHR ''4'', CHR ''0'']
      else if c = CHR 0x09 then [CHR 0x5C, CHR ''0'', CHR ''1'', CHR ''1'']
      else if c = CHR 0x0A then [CHR 0x5C, CHR ''0'', CHR ''1'', CHR ''2'']
      else if c = CHR 0x5C then [CHR 0x5C, CHR ''1'', CHR ''3'', CHR ''4'']
      else [c]) @ kernel_escape s"

lemma replace_kernel_escape: "replace_escapes (kernel_escape p) = p"
  by (induction p) simp_all

lemma unescape_kernel_escape: "unescapeMountPoint (kernel_escape p) = p"
proof (cases "CHR 0x5C \<in> set (kernel_escape p)")
  case False
  then have "kernel_escape p = p" by (induction p) (auto split: if_splits)
  with False show ?thesis by (simp add: unescapeMountPoint_def)
qed (simp add: unescapeMountPoint_def replace_kernel_escape)

definition mount_name :: "string \<Rightarrow> bool" where
  "mount_name p \<longleftrightarrow> p \<noteq> [] \<and> list_all (\<lambda>c. plain_char c \<or> c = CHR '' '' \<or> c = CHR 0x09 \<or> c = CHR 0x0A) p"

lemma kernel_escape_plain: "mount_name p \<Longrightarrow> list_all plain_char (kernel_escape p) \<and> kernel_escape p \<noteq> []"
proof -
  have "list_all (\<lambda>c. plain_char c \<or> c = CHR '' '' \<or> c = CHR 0x09 \<or> c = CHR 0x0A) p \<Longrightarrow> list_all plain_char (kernel_escape p)"
    by (induction p) (auto simp: plain_char_def ascii_space_def)
  moreover have "p \<noteq> [] \<Longrightarrow> kernel_escape p \<noteq> []" by (cases p) auto
  ultimately show "mount_name p \<Longrightarrow> list_all plain_char (kernel_escape p) \<and> kernel_escape p \<noteq> []"
    by (simp add: mount_name_def)
qed

lemma fields_from_plain: "list_all plain_char w \<Longrightarrow> fields_from (w @ s) acc = fields_from s (rev w @ acc)"
proof (induction w arbitrary: acc)
  case (Cons c w)
  then show ?case by (simp add: fields_from.simps [of "c # w @ s"] lead_space_plain Let_def)
qed simp

lemma fields_from_blank: "acc \<noteq> [] \<Longrightarrow> fields_from (CHR '' '' # s) acc = rev acc # fields_from s []"
proof -
  have "lead_space (CHR '' '' # s) = 1" by (cases s rule: lead_space.cases) (simp_all add: ascii_space_def)
  then show "acc \<noteq> [] \<Longrightarrow> fields_from (CHR '' '' # s) acc = rev acc # fields_from s []"
    by (simp add: fields_from.simps [of "CHR '' '' # s"] Let_def)
qed

lemma Fields_Join:
  assumes "list_all (\<lambda>w. w \<noteq> [] \<and> list_all plain_char w) ws"
  shows "Fields (Join ws '' '') = ws"
proof -
  have "fields_from (Join ws '' '') [] = ws"
    using assms
  proof (induction ws "'' ''" rule: Join.induct)
    case (2 w)
    then show ?case using fields_from_plain [of w "[]" "[]"] by (simp add: fields_from.simps)
  next
    case (3 w v ws)
    then show ?case by (simp add: fields_from_plain fields_from_blank)
  qed (simp add: fields_from.simps)
  then show ?thesis by (simp add: Fields_def)
qed

record mount_row =
  mr_dev :: string
  mr_dir :: string
  mr_rest :: "string list"

definition row_ok :: "mount_row \<Rightarrow> bool" where
  "row_ok r \<longleftrightarrow> mount_name (mr_dev r) \<and> mount_name (mr_dir r) \<and> mr_rest r \<noteq> [] \<and>
     list_all (\<lambda>w. w \<noteq> [] \<and> list_all plain_char w) (mr_rest r)"

definition row_line :: "mount_row \<Rightarrow> string" where
  "row_line r = Join (kernel_escape (mr_dev r) # kernel_escape (mr_dir r) # mr_rest r) '' ''"

definition mount_table :: "mount_row list \<Rightarrow> string" where
  "mount_table rows = Join (map row_line rows @ [[]]) [newline_char]"

definition disk_dirs :: "mount_row list \<Rightarrow> string list" where
  "disk_dirs rows = map mr_dir (filter (\<lambda>r. HasPrefix (mr_dev r) ''/dev/'') rows)"

lemma kernel_escape_dev: "HasPrefix (kernel_escape d) ''/dev/'' = HasPrefix d ''/dev/''"
proof -
  have step: "HasPrefix (kernel_escape d) (c # p) = (case d of [] \<Rightarrow> False | x # r \<Rightarrow> x = c \<and> HasPrefix (kernel_escape r) p)"
    if "c \<notin> {CHR '' '', CHR 0x09, CHR 0x0A, CHR 0x5C}" for c p d
    using that by (cases d) auto
  show ?thesis by (simp add: step split: list.splits)
qed

lemma mount_of_row:
  "row_ok r \<Longrightarrow> mount_of_line (row_line r) = (if HasPrefix (mr_dev r) ''/dev/'' then Some (mr_dir r) else None)"
proof -
  assume r: "row_ok r"
  let ?ws = "kernel_escape (mr_dev r) # kernel_escape (mr_dir r) # mr_rest r"
  have "Fields (row_line r) = ?ws"
    unfolding row_line_def by (rule Fields_Join) (use r kernel_escape_plain in \<open>simp add: row_ok_def\<close>)
  moreover have "\<not> length ?ws < 3" using r by (cases "mr_rest r") (simp_all add: row_ok_def)
  ultimately show ?thesis by (simp add: mount_of_line_def Let_def unescape_kernel_escape kernel_escape_dev)
qed

lemma row_line_no_newline: "row_ok r \<Longrightarrow> newline_char \<notin> set (row_line r)"
proof -
  assume r: "row_ok r"
  have sub: "set (Join ws '' '') \<subseteq> \<Union> (set ` set ws) \<union> {CHR '' ''}" for ws
    by (induction ws "'' ''" rule: Join.induct) auto
  let ?ws = "kernel_escape (mr_dev r) # kernel_escape (mr_dir r) # mr_rest r"
  have plain: "list_all plain_char w" if "w \<in> set ?ws" for w
    using r that kernel_escape_plain by (auto simp: row_ok_def list_all_iff)
  have nl: "\<not> plain_char newline_char" "newline_char \<noteq> CHR '' ''"
    by (simp_all add: newline_char_def plain_char_def ascii_space_def)
  show ?thesis
  proof
    assume "newline_char \<in> set (row_line r)"
    with sub [of ?ws] nl(2) obtain w where "w \<in> set ?ws" "newline_char \<in> set w" unfolding row_line_def by auto
    with plain nl(1) show False by (auto simp: list_all_iff)
  qed
qed

lemma mount_of_blank: "mount_of_line [] = None"
  by (simp add: mount_of_line_def Fields_def fields_from.simps)

lemma readDiskMounts_table:
  assumes "list_all row_ok rows" "hv_ReadFile hv path = Inr (mount_table rows)"
  shows "readDiskMounts hv path = Inr (disk_dirs rows)"
proof -
  have split: "Split (mount_table rows) newline_char = map row_line rows @ [[]]"
    unfolding mount_table_def using assms(1) row_line_no_newline
    by (intro Split_Join) (auto simp: list_all_iff)
  have "List.map_filter mount_of_line (map row_line rows @ [[]]) = disk_dirs rows"
    using assms(1)
    by (induction rows) (simp_all add: map_filter_simps mount_of_blank mount_of_row disk_dirs_def)
  with assms(2) split show ?thesis by (simp add: readDiskMounts_def)
qed

text \<open>The disks: every device once, and none forgotten.\<close>

lemma diskStatus_path: "diskStatusForPath hv m = Inr d \<Longrightarrow> ds_Path d = m"
  by (auto simp: diskStatusForPath_def Let_def res_bind_Inr_iff)

lemma collect_disks_sound:
  assumes "collect_disks hv seen ms = (ss, es)"
  shows "distinct (map (\<lambda>d. hv_Stat hv (ds_Path d)) ss) \<and>
    (\<forall>d \<in> set ss. ds_Path d \<in> set ms \<and> diskStatusForPath hv (ds_Path d) = Inr d \<and>
       (\<exists>dev. hv_Stat hv (ds_Path d) = Inr dev \<and> dev \<notin> set seen))"
  using assms
proof (induction hv seen ms arbitrary: ss es rule: collect_disks.induct)
  case (2 hv seen m ms)
  show ?case
  proof (cases "hv_Stat hv m")
    case (Inl e)
    with 2 show ?thesis by (fastforce split: prod.splits)
  next
    case (Inr dev)
    show ?thesis
    proof (cases "dev \<in> set seen")
      case True
      with Inr 2 show ?thesis by fastforce
    next
      case new: False
      obtain ss' es' where rest: "collect_disks hv (dev # seen) ms = (ss', es')"
        by (cases "collect_disks hv (dev # seen) ms")
      show ?thesis
      proof (cases "diskStatusForPath hv m")
        case (Inl e)
        from "2.IH"(3) [OF Inr new Inl rest] "2.prems" Inr new Inl rest show ?thesis by fastforce
      next
        case d: (Inr d)
        from "2.IH"(4) [OF Inr new d rest] have ih: "distinct (map (\<lambda>d. hv_Stat hv (ds_Path d)) ss')"
          "\<forall>d \<in> set ss'. ds_Path d \<in> set ms \<and> diskStatusForPath hv (ds_Path d) = Inr d \<and>
             (\<exists>dev'. hv_Stat hv (ds_Path d) = Inr dev' \<and> dev' \<notin> set (dev # seen))" by blast+
        have "Inr dev \<notin> (\<lambda>d. hv_Stat hv (ds_Path d)) ` set ss'" using ih(2) by force
        with ih "2.prems" Inr new d rest diskStatus_path [OF d] show ?thesis by auto
      qed
    qed
  qed
qed simp

lemma collect_disks_complete:
  assumes "collect_disks hv seen ms = (ss, es)" "m \<in> set ms" "hv_Stat hv m = Inr dev" "dev \<notin> set seen"
  shows "\<exists>m'. m' \<in> set ms \<and> hv_Stat hv m' = Inr dev \<and>
    (case diskStatusForPath hv m' of Inr d \<Rightarrow> d \<in> set ss | Inl e \<Rightarrow> e \<in> set es)"
  using assms
proof (induction hv seen ms arbitrary: ss es rule: collect_disks.induct)
  case (2 hv seen n ms)
  show ?case
  proof (cases "hv_Stat hv n = Inr dev")
    case True
    with 2(5-) show ?thesis
      by (intro exI [of _ n]) (auto split: prod.splits sum.splits)
  next
    case False
    then have m: "m \<in> set ms" using 2(6,7) by auto
    have keep: "set ss' \<subseteq> set ss \<and> set es' \<subseteq> set es \<Longrightarrow>
        \<exists>m'. m' \<in> set ms \<and> hv_Stat hv m' = Inr dev \<and> (case diskStatusForPath hv m' of Inr d \<Rightarrow> d \<in> set ss' | Inl e \<Rightarrow> e \<in> set es') \<Longrightarrow> ?thesis"
      for ss' es' by (fastforce split: sum.splits)
    show ?thesis
    proof (cases "hv_Stat hv n")
      case (Inl e)
      obtain ss' es' where rest: "collect_disks hv seen ms = (ss', es')" by (cases "collect_disks hv seen ms")
      have "set ss' \<subseteq> set ss \<and> set es' \<subseteq> set es" using 2(5) Inl rest by auto
      then show ?thesis by (rule keep) (rule 2(1) [OF Inl rest m 2(7,8)])
    next
      case (Inr d)
      show ?thesis
      proof (cases "d \<in> set seen")
        case True
        then have "collect_disks hv seen ms = (ss, es)" using 2(5) Inr by simp
        then show ?thesis using 2(2) [OF Inr True _ m 2(7,8)] by (blast intro: keep)
      next
        case new: False
        obtain ss' es' where rest: "collect_disks hv (d # seen) ms = (ss', es')" by (cases "collect_disks hv (d # seen) ms")
        have sub: "set ss' \<subseteq> set ss \<and> set es' \<subseteq> set es" using 2(5) Inr new rest by (auto split: sum.splits)
        have "dev \<notin> set (d # seen)" using 2(8) False Inr by auto
        with sub show ?thesis
          using 2(3) [OF Inr new _ rest m 2(7)] 2(4) [OF Inr new _ rest m 2(7)]
          by (cases "diskStatusForPath hv n") (blast intro: keep)+
      qed
    qed
  qed
qed simp

section \<open>Properties\<close>

text \<open>C32: whatever the kernel reports, also when a product of counters wraps around, when counters run
  backwards or when columns are missing, the used bytes are at most the total bytes and every
  utilization is between 0 and 100 percent.\<close>

theorem usage_bounds:
  "(case diskStatusForPath hv path of
      Inl _ \<Rightarrow> True
    | Inr d \<Rightarrow> ds_UsedBytes d \<le> ds_TotalBytes d \<and> 0 \<le> ds_UsedPercent d \<and> ds_UsedPercent d \<le> 100) \<and>
   (let m = collectMemoryStatus err_text hv in
      ms_UsedBytes m \<le> ms_TotalBytes m \<and> 0 \<le> ms_UsedPercent m \<and> ms_UsedPercent m \<le> 100) \<and>
   (let c = collectCPUStatus err_text cores hv hv' in 0 \<le> cs_UsedPercent c \<and> cs_UsedPercent c \<le> 100)"
  using diskStatus_bounds [of hv path] memory_bounds cpu_bounds
  by (auto simp: collectCPUStatus_def Let_def split: sum.splits)

text \<open>C33: the rendered uptime is exact: its days, hours, minutes and seconds add up to the number of
  seconds it was made from, for every 64-bit number.\<close>

theorem formatUptime_exact: "uptime_value (formatUptime s) = unat s"
proof -
  have split: "Split (Join ps '' '') (CHR '' '') = ps" if "ps \<noteq> []" "list_all (\<lambda>p. CHR '' '' \<notin> set p) ps" for ps
    using that by (intro Split_Join) (auto simp: list_all_iff)
  have zero: "\<not> 0 < x \<Longrightarrow> unat x = 0" for x :: "64 word" by (simp add: word_greater_zero_iff)
  note parts = unit_parts [of s]
  show ?thesis
    unfolding formatUptime_def Let_def uptime_value_def
    by (subst split) (use parts zero in \<open>auto simp: with_unit_no_space part_value_unit unit_seconds_def split: if_splits\<close>)
qed


definition sample_rows :: "mount_row list" where
  "sample_rows = [\<lparr>mr_dev = ''proc'', mr_dir = ''/proc'', mr_rest = [''proc'', ''rw'']\<rparr>,
     \<lparr>mr_dev = ''/dev/sda1'', mr_dir = ''/'', mr_rest = [''xfs'']\<rparr>, \<lparr>mr_dev = ''/dev/sda1'', mr_dir = ''/var data'', mr_rest = [''xfs'']\<rparr>]"

definition sample_view :: host_view where
  "sample_view = \<lparr>hv_ReadFile = (\<lambda>_. Inr (mount_table sample_rows)), hv_Stat = (\<lambda>_. Inr 7),
     hv_Statfs = (\<lambda>_. Inr \<lparr>sf_Bsize = 4096, sf_Blocks = 1000, sf_Bfree = 250, sf_Bavail = 200\<rparr>)\<rparr>"


end
