(* ===== verification/Hardware.thy ===== *)
theory Hardware
  imports GoStrings
begin

text \<open>
  \<open>hardware.go\<close>: the hardware inventory made from the decoded DMI tables, which are a parameter: each
  table is a list of records with the fields the code reads, or an error.
\<close>

unbundle bit_operations_syntax

section \<open>Tables\<close>

record dmi_system = sy_SerialNumber :: string

record dmi_bios =
  bi_Vendor :: string
  bi_BIOSVersion :: string
  bi_ReleaseDate :: string

record dmi_baseboard =
  bb_Manufacturer :: string
  bb_ProductName :: string
  bb_Version :: string
  bb_SerialNumber :: string

record dmi_memory =
  me_Size :: "16 word"
  me_ExtendedSize :: "32 word"
  me_DeviceLocator :: string
  me_Manufacturer :: string
  me_PartNumber :: string
  me_SerialNumber :: string

record dmiDecoder =
  dd_System :: "dmi_system list res"
  dd_BIOS :: "dmi_bios list res"
  dd_BaseBoard :: "dmi_baseboard list res"
  dd_MemoryDevice :: "dmi_memory list res"

section \<open>Inventory\<close>

record Firmware =
  fm_BIOSVendor :: string
  fm_BIOSVersion :: string
  fm_BIOSReleaseDate :: string

record HardwareItem =
  hi_Type :: string
  hi_Manufacturer :: string
  hi_Product :: string
  hi_Version :: string
  hi_SerialNumber :: string
  hi_Locator :: string
  hi_Size :: string
  hi_PartNumber :: string
  hi_FirmwareVersion :: "string option"

record Inventory =
  iv_ServiceTag :: string
  iv_Firmware :: Firmware
  iv_Hardware :: "HardwareItem list"

definition no_item :: HardwareItem where
  "no_item = \<lparr>hi_Type = [], hi_Manufacturer = [], hi_Product = [], hi_Version = [], hi_SerialNumber = [],
     hi_Locator = [], hi_Size = [], hi_PartNumber = [], hi_FirmwareVersion = None\<rparr>"

definition memorySizeBytes :: "dmi_memory \<Rightarrow> 64 word \<times> bool" where
  "memorySizeBytes m =
     (let mib = 1024 * 1024 in
      if me_Size m = 0 then (0, False)
      else if me_Size m = 0xFFFF then (0, True)
      else if me_Size m = 0x7FFF then (ucast (me_ExtendedSize m) * mib, True)
      else if me_Size m AND 0x8000 \<noteq> 0 then (ucast (me_Size m AND 0x7FFF) * 1024, True)
      else (ucast (me_Size m) * mib, True))"

definition humanMemorySize :: "64 word \<Rightarrow> string" where
  "humanMemorySize bytes =
     (if bytes = 0 then ''unknown''
      else if bytes mod (1024 * 1024 * 1024) = 0 then nat_string 10 (unat (bytes div (1024 * 1024 * 1024))) @ '' GiB''
      else nat_string 10 (unat (bytes div (1024 * 1024))) @ '' MiB'')"

definition inventoryServiceTag :: "dmiDecoder \<Rightarrow> string res" where
  "inventoryServiceTag d =
     res_bind (res_wrap (Wrapf ''read system info: %w'' []) (dd_System d)) (\<lambda>systems.
     Inr (fold (\<lambda>s tag. sy_SerialNumber s) systems []))"

definition inventoryFirmware :: "dmiDecoder \<Rightarrow> Firmware res" where
  "inventoryFirmware d =
     res_bind (res_wrap (Wrapf ''read bios info: %w'' []) (dd_BIOS d)) (\<lambda>infos.
     Inr (fold (\<lambda>b firmware. \<lparr>fm_BIOSVendor = bi_Vendor b, fm_BIOSVersion = bi_BIOSVersion b, fm_BIOSReleaseDate = bi_ReleaseDate b\<rparr>)
       infos \<lparr>fm_BIOSVendor = [], fm_BIOSVersion = [], fm_BIOSReleaseDate = []\<rparr>))"

definition baseboard_item :: "dmi_baseboard \<Rightarrow> HardwareItem" where
  "baseboard_item bb = no_item\<lparr>hi_Type := ''baseboard'', hi_Manufacturer := bb_Manufacturer bb, hi_Product := bb_ProductName bb,
     hi_Version := bb_Version bb, hi_SerialNumber := bb_SerialNumber bb\<rparr>"

definition inventoryBaseBoards :: "dmiDecoder \<Rightarrow> HardwareItem list res" where
  "inventoryBaseBoards d =
     res_bind (res_wrap (Wrapf ''read baseboard info: %w'' []) (dd_BaseBoard d)) (\<lambda>boards.
     Inr (map baseboard_item boards))"

definition memory_item :: "dmi_memory \<Rightarrow> HardwareItem option" where
  "memory_item m =
     (case memorySizeBytes m of
        (sz, installed) \<Rightarrow>
          if \<not> installed then None
          else Some (no_item\<lparr>hi_Type := ''memory'', hi_Locator := me_DeviceLocator m, hi_Size := humanMemorySize sz,
            hi_Manufacturer := me_Manufacturer m, hi_PartNumber := me_PartNumber m, hi_SerialNumber := me_SerialNumber m\<rparr>))"

definition inventoryMemory :: "dmiDecoder \<Rightarrow> HardwareItem list res" where
  "inventoryMemory d =
     res_bind (res_wrap (Wrapf ''read memory info: %w'' []) (dd_MemoryDevice d)) (\<lambda>devices.
     Inr (List.map_filter memory_item devices))"

definition buildInventory :: "dmiDecoder \<Rightarrow> Inventory res" where
  "buildInventory d =
     res_bind (inventoryServiceTag d) (\<lambda>tag.
     res_bind (inventoryFirmware d) (\<lambda>firmware.
     res_bind (inventoryBaseBoards d) (\<lambda>boards.
     res_bind (inventoryMemory d) (\<lambda>modules.
     Inr \<lparr>iv_ServiceTag = tag, iv_Firmware = firmware, iv_Hardware = boards @ modules\<rparr>))))"

definition collectInventory :: "dmiDecoder res \<Rightarrow> Inventory res" where
  "collectInventory openDMIDecoder = res_bind openDMIDecoder buildInventory"

section \<open>Memory sizes\<close>

text \<open>The number of bytes a rendered size says, and the one the SMBIOS standard gives the fields.\<close>

definition size_value :: "string \<Rightarrow> nat option" where
  "size_value s =
     (case Cut s (CHR '' '') of
        (digits, u, _) \<Rightarrow>
          (case ParseUint digits 10 64 of
             Inl _ \<Rightarrow> None
           | Inr n \<Rightarrow> if u = ''GiB'' then Some (n * 2 ^ 30) else if u = ''MiB'' then Some (n * 2 ^ 20) else None))"

definition smbios_bytes :: "dmi_memory \<Rightarrow> nat" where
  "smbios_bytes m =
     (if me_Size m = 0x7FFF then unat (me_ExtendedSize m) * 2 ^ 20
      else if 0x8000 \<le> unat (me_Size m) then (unat (me_Size m) - 0x8000) * 2 ^ 10
      else unat (me_Size m) * 2 ^ 20)"

lemma digits_no_space: "CHR '' '' \<notin> set (nat_string 10 n)"
  using nat_string_plain [of 10 n] by (auto simp: list_all_iff plain_char_def ascii_space_def)

lemma size_value_rendered:
  assumes "n < 2 ^ 64"
  shows "size_value (nat_string 10 n @ '' GiB'') = Some (n * 2 ^ 30)" "size_value (nat_string 10 n @ '' MiB'') = Some (n * 2 ^ 20)"
  using Cut_append [OF digits_no_space] ParseUint_nat_string [OF assms] by (simp_all add: size_value_def)

text \<open>Half of the words: bit 15 is set exactly from \<open>0x8000\<close> on.\<close>

lemma bit15: "(x::16 word) AND 0x8000 \<noteq> 0 \<longleftrightarrow> 0x8000 \<le> unat x"
proof -
  have "unat x < 2 ^ 16" using unsigned_less [of x] by simp
  then have "unat x div 2 ^ 15 = (if 2 ^ 15 \<le> unat x then 1 else 0)" by (auto intro!: div_nat_eqI)
  then have "odd (unat x div 2 ^ 15) \<longleftrightarrow> 2 ^ 15 \<le> unat x" by simp
  moreover have "bit x 15 \<longleftrightarrow> bit (unat x) 15" by (simp add: bit_unsigned_iff)
  ultimately have "bit x 15 \<longleftrightarrow> 2 ^ 15 \<le> unat x" by (simp add: bit_iff_odd [of "unat x"])
  then show ?thesis using and_exp_eq_0_iff_not_bit [of x 15] by simp
qed

lemma low15: "unat ((x::16 word) AND 0x7FFF) = unat x mod 2 ^ 15"
proof -
  have eq: "x AND 0x7FFF = take_bit 15 x" by (simp add: take_bit_eq_mask mask_eq_exp_minus_1)
  show ?thesis unfolding eq by (simp only: unsigned_take_bit_eq take_bit_eq_mod [of 15 "unat x"])
qed

lemma scaled: "n * k < 2 ^ 64 \<Longrightarrow> unat (word_of_nat n * word_of_nat k :: 64 word) = n * k"
  by (simp add: unat_of_nat take_bit_eq_mod flip: of_nat_mult)

lemma memorySizeBytes_smbios:
  assumes "me_Size m \<noteq> 0" "me_Size m \<noteq> 0xFFFF"
  shows "snd (memorySizeBytes m) \<and> unat (fst (memorySizeBytes m)) = smbios_bytes m"
proof -
  let ?x = "me_Size m"
  have x: "unat ?x < 2 ^ 16" and e: "unat (me_ExtendedSize m) < 2 ^ 32"
    using unsigned_less [of ?x] unsigned_less [of "me_ExtendedSize m"] by simp_all
  have ext: "?x = 0x7FFF \<longleftrightarrow> unat ?x = 0x7FFF" by (simp add: word_unat_eq_iff)
  have 1: "unat (ucast (me_ExtendedSize m) * (1024 * 1024) :: 64 word) = unat (me_ExtendedSize m) * 2 ^ 20"
    using scaled [of "unat (me_ExtendedSize m)" "2 ^ 20"] e by simp
  have 2: "unat (ucast (?x AND 0x7FFF) * 1024 :: 64 word) = (unat ?x mod 2 ^ 15) * 2 ^ 10"
  proof -
    have lt: "unat (?x AND 0x7FFF) * 2 ^ 10 < 2 ^ 64" using low15 [of ?x] by simp
    have "unat (ucast (?x AND 0x7FFF) * 1024 :: 64 word) = unat (?x AND 0x7FFF) * 2 ^ 10" using scaled [OF lt] by simp
    then show ?thesis by (simp only: low15)
  qed
  have 3: "unat (ucast ?x * (1024 * 1024) :: 64 word) = unat ?x * 2 ^ 20"
    using scaled [of "unat ?x" "2 ^ 20"] x by simp
  have "unat ?x mod 2 ^ 15 = unat ?x - 2 ^ 15" if "2 ^ 15 \<le> unat ?x"
    using that x by (simp add: mod_if)
  with assms 1 2 3 show ?thesis
    by (auto simp: memorySizeBytes_def smbios_bytes_def Let_def bit15)
qed

lemma humanMemorySize_value:
  assumes "b \<noteq> 0"
  shows "size_value (humanMemorySize b) = Some (unat b div 2 ^ 20 * 2 ^ 20)"
proof -
  have b: "unat b < 2 ^ 64" using unsigned_less [of b] by simp
  have gib: "unat (b div (1024 * 1024 * 1024)) = unat b div 2 ^ 30" and mib: "unat (b div (1024 * 1024)) = unat b div 2 ^ 20"
    and rest: "b mod (1024 * 1024 * 1024) = 0 \<longleftrightarrow> unat b mod 2 ^ 30 = 0"
    by (simp_all add: unat_div word_unat_eq_iff unat_mod)
  show ?thesis
  proof (cases "unat b mod 2 ^ 30 = 0")
    case True
    have "unat b div 2 ^ 30 < 2 ^ 64" using b by (rule le_less_trans [OF div_le_dividend])
    moreover have dvd: "2 ^ 30 dvd unat b" using True by (simp only: mod_eq_0_iff_dvd)
    have "2 ^ 20 dvd unat b" by (rule dvd_trans [OF le_imp_power_dvd dvd]) simp
    with dvd have "unat b div 2 ^ 30 * 2 ^ 30 = unat b" "unat b div 2 ^ 20 * 2 ^ 20 = unat b"
      by (simp_all only: dvd_div_mult_self)
    ultimately show ?thesis using True assms rest gib by (simp add: humanMemorySize_def size_value_rendered)
  next
    case False
    have "unat b div 2 ^ 20 < 2 ^ 64" using b by (rule le_less_trans [OF div_le_dividend])
    with False assms rest mib show ?thesis by (simp add: humanMemorySize_def size_value_rendered)
  qed
qed

section \<open>Properties\<close>

text \<open>C35: a memory slot is listed exactly when its size field is not zero, and an installed module of a
  known size is listed with the size the SMBIOS standard gives its fields, in whole MiB: no product
  wraps around and only a remainder below one MiB is lost.\<close>

theorem memory_item_size:
  "(memory_item m = None \<longleftrightarrow> me_Size m = 0) \<and>
   (case memory_item m of
      None \<Rightarrow> True
    | Some item \<Rightarrow>
        (if me_Size m = 0xFFFF \<or> smbios_bytes m = 0 then hi_Size item = ''unknown''
         else size_value (hi_Size item) = Some (smbios_bytes m div 2 ^ 20 * 2 ^ 20)))"
proof (cases "me_Size m = 0 \<or> me_Size m = 0xFFFF")
  case True
  have unknown: "humanMemorySize 0 = ''unknown''" by (simp only: humanMemorySize_def if_True simp_thms)
  show ?thesis
  proof (cases "me_Size m = 0")
    case empty: True
    then have "memorySizeBytes m = (0, False)" by (simp only: memorySizeBytes_def Let_def if_True simp_thms)
    with empty show ?thesis by (simp add: memory_item_def)
  next
    case filled: False
    with True have "memorySizeBytes m = (0, True)" by (simp only: memorySizeBytes_def Let_def if_True if_False simp_thms)
    with filled True unknown show ?thesis by (simp add: memory_item_def)
  qed
next
  case False
  then have s: "snd (memorySizeBytes m)" "unat (fst (memorySizeBytes m)) = smbios_bytes m"
    using memorySizeBytes_smbios [of m] by blast+
  obtain sz where sz: "memorySizeBytes m = (sz, True)" using s(1) by (cases "memorySizeBytes m") simp
  have val: "unat sz = smbios_bytes m" using s(2) sz by simp
  show ?thesis
  proof (cases "sz = 0")
    case True
    with val sz False show ?thesis by (simp add: memory_item_def humanMemorySize_def)
  next
    case nz: False
    then have "smbios_bytes m \<noteq> 0" using val by (simp add: unat_eq_zero flip: val)
    with humanMemorySize_value [OF nz] val sz False show ?thesis by (simp add: memory_item_def)
  qed
qed

end
