(* ===== verification/NetworkStatus.thy ===== *)
theory NetworkStatus
  imports Netip PodmanSpec
begin

text \<open>
  \<open>networkstatus.go\<close>: the live network configuration.  The links, addresses and routes that netlink
  lists, and the files of \<open>/sys\<close> and \<open>/etc\<close>, are parameters.
\<close>

unbundle bit_operations_syntax

section \<open>What netlink lists\<close>

record linkStatistics =
  lk_RxPackets :: "64 word"
  lk_RxBytes :: "64 word"
  lk_RxErrors :: "64 word"
  lk_RxDropped :: "64 word"
  lk_RxFifoErrors :: "64 word"
  lk_RxFrameErrors :: "64 word"
  lk_TxPackets :: "64 word"
  lk_TxBytes :: "64 word"
  lk_TxErrors :: "64 word"
  lk_TxDropped :: "64 word"
  lk_TxFifoErrors :: "64 word"
  lk_TxCarrierErrors :: "64 word"
  lk_Collisions :: "64 word"

record netLink =
  ln_Name :: string
  ln_Index :: int
  ln_Type :: string
  ln_OperState :: string
  ln_HardwareAddr :: "nat list"
  ln_MTU :: int
  ln_TxQLen :: int
  ln_Flags :: "32 word"
  ln_Statistics :: "linkStatistics option"

record netAddr =
  na_IPNet :: "IPNet option"
  na_Flags :: "32 word"

record netRoute =
  nr_LinkIndex :: int
  nr_Family :: int
  nr_Dst :: "IPNet option"
  nr_Gw :: "nat list"

record net_view =
  nv_LinkList :: "netLink list res"
  nv_AddrList :: "netLink \<Rightarrow> netAddr list res"
  nv_RouteList :: "netRoute list res"
  nv_ReadFile :: "string \<Rightarrow> string res"

section \<open>The report\<close>

record networkAddress =
  ad_IP :: string
  ad_PrefixLength :: nat
  ad_Family :: string
  ad_Dynamic :: bool

record interfaceStats =
  is_RXPackets :: "64 word"
  is_RXBytes :: "64 word"
  is_RXErrors :: "64 word"
  is_RXDropped :: "64 word"
  is_RXOverruns :: "64 word"
  is_RXFrame :: "64 word"
  is_TXPackets :: "64 word"
  is_TXBytes :: "64 word"
  is_TXErrors :: "64 word"
  is_TXDropped :: "64 word"
  is_TXOverruns :: "64 word"
  is_TXCarrier :: "64 word"
  is_Collisions :: "64 word"

record networkInterface =
  ni_Name :: string
  ni_Index :: int
  ni_Type :: string
  ni_State :: string
  ni_MAC :: string
  ni_MTU :: int
  ni_SpeedMbps :: int
  ni_TxQueueLen :: int
  ni_Addressing :: string
  ni_Flags :: "string list"
  ni_Addresses :: "networkAddress list"
  ni_Statistics :: "interfaceStats option"

record networkRoute =
  no_Destination :: string
  no_Gateway :: string
  no_Interface :: string
  no_Family :: string

record networkStatus =
  ns_Source :: string
  ns_Interfaces :: "networkInterface list"
  ns_Routes :: "networkRoute list"
  ns_DNS :: "string list"
  ns_Error :: string

section \<open>Package net\<close>

text \<open>\<open>net.ParseIP\<close> gives sixteen bytes; \<open>IP.IsGlobalUnicast\<close>; \<open>IPNet.String\<close> for the canonical masks
  netlink gives; the texts of hardware addresses and flags.\<close>

definition ParseIP :: "string \<Rightarrow> nat list option" where
  "ParseIP s =
     (case ParseAddr s of
        Some (Addr4 bs) \<Rightarrow> Some (replicate 10 0 @ [255, 255] @ bs)
      | Some (Addr6 bs z) \<Rightarrow> if z = [] then Some bs else None
      | None \<Rightarrow> None)"

definition IsGlobalUnicast :: "nat list \<Rightarrow> bool" where
  "IsGlobalUnicast ip =
     (case To4 ip of
        Some bs \<Rightarrow>
          bs \<noteq> [255, 255, 255, 255] \<and> bs \<noteq> [0, 0, 0, 0] \<and> bs ! 0 \<noteq> 127 \<and>
          \<not> (224 \<le> bs ! 0 \<and> bs ! 0 < 240) \<and> \<not> (bs ! 0 = 169 \<and> bs ! 1 = 254)
      | None \<Rightarrow>
          length ip = 16 \<and> ip \<noteq> replicate 16 0 \<and> ip \<noteq> replicate 15 0 @ [1] \<and> ip ! 0 \<noteq> 255 \<and>
          \<not> (ip ! 0 = 254 \<and> 128 \<le> ip ! 1 \<and> ip ! 1 < 192))"

definition IPNetString :: "IPNet \<Rightarrow> string" where
  "IPNetString nw =
     (let nn = (case To4 (net_ip nw) of Some x \<Rightarrow> x | None \<Rightarrow> net_ip nw);
          ones = (if net_mask_len nw = 16 \<and> length nn = 4 then net_ones nw - 96 else net_ones nw)
      in if length nn \<noteq> 4 \<and> length nn \<noteq> 16 then ''<nil>''
         else IPString nn @ ''/'' @ nat_string 10 ones)"

definition HardwareAddrString :: "nat list \<Rightarrow> string" where
  "HardwareAddrString bs = Join (map (\<lambda>b. [digit_char (b div 16), digit_char (b mod 16)]) bs) '':''"

definition FlagsString :: "32 word \<Rightarrow> string" where
  "FlagsString flags =
     (let names = [name. (i, name) \<leftarrow> enumerate 0 [''up'', ''broadcast'', ''loopback'', ''pointtopoint'', ''multicast'', ''running''], bit flags i]
      in if names = [] then ''0'' else Join names ''|'')"

section \<open>Operations\<close>

definition ipFamily :: "nat list \<Rightarrow> string" where
  "ipFamily ip = (if To4 ip \<noteq> None then ''ipv4'' else ''ipv6'')"

definition routeFamily :: "netRoute \<Rightarrow> string" where
  "routeFamily route =
     (if nr_Family route = 2 then ''ipv4''
      else if nr_Family route = 10 then ''ipv6''
      else case nr_Dst route of
        Some dst \<Rightarrow> ipFamily (net_ip dst)
      | None \<Rightarrow> if length (nr_Gw route) > 0 then ipFamily (nr_Gw route) else ''ipv4'')"

definition convertRoute :: "netRoute \<Rightarrow> (int \<Rightarrow> string option) \<Rightarrow> networkRoute" where
  "convertRoute route nameByIndex =
     (let family = routeFamily route in
      \<lparr>no_Destination = (case nr_Dst route of
           Some dst \<Rightarrow> IPNetString dst
         | None \<Rightarrow> if family = ''ipv6'' then ''::/0'' else ''0.0.0.0/0''),
       no_Gateway = (if length (nr_Gw route) > 0 then IPString (nr_Gw route) else []),
       no_Interface = (case nameByIndex (nr_LinkIndex route) of None \<Rightarrow> [] | Some n \<Rightarrow> n),
       no_Family = family\<rparr>)"

definition interfaceFlags :: "32 word \<Rightarrow> string list" where
  "interfaceFlags flags = (if flags = 0 then [] else Split (FlagsString flags) (CHR ''|''))"

definition interfaceStatistics :: "linkStatistics option \<Rightarrow> interfaceStats option" where
  "interfaceStatistics stats =
     (case stats of
        None \<Rightarrow> None
      | Some st \<Rightarrow> Some
          \<lparr>is_RXPackets = lk_RxPackets st, is_RXBytes = lk_RxBytes st, is_RXErrors = lk_RxErrors st,
           is_RXDropped = lk_RxDropped st, is_RXOverruns = lk_RxFifoErrors st, is_RXFrame = lk_RxFrameErrors st,
           is_TXPackets = lk_TxPackets st, is_TXBytes = lk_TxBytes st, is_TXErrors = lk_TxErrors st,
           is_TXDropped = lk_TxDropped st, is_TXOverruns = lk_TxFifoErrors st, is_TXCarrier = lk_TxCarrierErrors st,
           is_Collisions = lk_Collisions st\<rparr>)"

definition interfaceSpeed :: "net_view \<Rightarrow> string \<Rightarrow> int" where
  "interfaceSpeed nv name =
     (case nv_ReadFile nv (Clean (''/sys/class/net/'' @ name @ ''/speed'')) of
        Inl _ \<Rightarrow> 0
      | Inr data \<Rightarrow>
          (case Atoi (TrimSpace data) of
             Inl _ \<Rightarrow> 0
           | Inr speed \<Rightarrow> if speed < 0 then 0 else speed))"

fun addressing_from :: "string \<Rightarrow> networkAddress list \<Rightarrow> string" where
  "addressing_from meth [] = meth"
| "addressing_from meth (addr # addresses) =
     (case ParseIP (ad_IP addr) of
        None \<Rightarrow> addressing_from meth addresses
      | Some ip \<Rightarrow>
          if \<not> IsGlobalUnicast ip then addressing_from meth addresses
          else if ad_Dynamic addr then ''dhcp''
          else addressing_from ''static'' addresses)"

definition addressingMethod :: "networkAddress list \<Rightarrow> string" where
  "addressingMethod addresses = addressing_from [] addresses"

definition address_of :: "netAddr \<Rightarrow> networkAddress option" where
  "address_of addr =
     (case na_IPNet addr of
        None \<Rightarrow> None
      | Some nw \<Rightarrow> Some
          \<lparr>ad_IP = IPString (net_ip nw), ad_PrefixLength = net_ones nw, ad_Family = ipFamily (net_ip nw),
           ad_Dynamic = (na_Flags addr AND 0x80 = 0)\<rparr>)"

definition interfaceAddresses :: "net_view \<Rightarrow> netLink \<Rightarrow> networkAddress list res" where
  "interfaceAddresses nv link = res_bind (nv_AddrList nv link) (\<lambda>addrs. Inr (List.map_filter address_of addrs))"

definition resolv_line :: "string \<Rightarrow> string option" where
  "resolv_line raw =
     (let line = TrimSpace raw in
      if line = [] \<or> HasPrefix line ''#'' \<or> HasPrefix line '';'' then None
      else let words = Fields line in
        if length words \<ge> 2 \<and> words ! 0 = ''nameserver'' then Some (words ! 1) else None)"

definition resolvConfNameservers :: "net_view \<Rightarrow> string \<Rightarrow> string list" where
  "resolvConfNameservers nv path =
     (case nv_ReadFile nv path of
        Inl _ \<Rightarrow> []
      | Inr data \<Rightarrow> List.map_filter resolv_line (Split data (CHR 0x0A)))"

text \<open>One link: what is reported of it, and the error of its addresses.\<close>

definition interface_of :: "net_view \<Rightarrow> netLink \<Rightarrow> networkInterface \<times> err option" where
  "interface_of nv link =
     (let r = interfaceAddresses nv link; addrs = (case r of Inl _ \<Rightarrow> [] | Inr a \<Rightarrow> a) in
      (\<lparr>ni_Name = ln_Name link, ni_Index = ln_Index link, ni_Type = ln_Type link, ni_State = ln_OperState link,
        ni_MAC = (if length (ln_HardwareAddr link) > 0 then HardwareAddrString (ln_HardwareAddr link) else []),
        ni_MTU = ln_MTU link, ni_SpeedMbps = interfaceSpeed nv (ln_Name link), ni_TxQueueLen = ln_TxQLen link,
        ni_Addressing = addressingMethod addrs, ni_Flags = interfaceFlags (ln_Flags link), ni_Addresses = addrs,
        ni_Statistics = interfaceStatistics (ln_Statistics link)\<rparr>,
       case r of Inl e \<Rightarrow> Some e | Inr _ \<Rightarrow> None))"

definition link_step :: "(err \<Rightarrow> string) \<Rightarrow> net_view \<Rightarrow> netLink \<Rightarrow> networkStatus \<times> (int \<Rightarrow> string option) \<Rightarrow>
    networkStatus \<times> (int \<Rightarrow> string option)" where
  "link_step err_text nv link st =
     (case (st, interface_of nv link) of
        ((status, nameByIndex), (iface, addrErr)) \<Rightarrow>
          (status\<lparr>ns_Interfaces := ns_Interfaces status @ [iface],
             ns_Error := (case addrErr of
                None \<Rightarrow> ns_Error status
              | Some e \<Rightarrow> appendStatusError (ns_Error status) (''addresses for '' @ ln_Name link @ '': '' @ err_text e))\<rparr>,
           nameByIndex(ln_Index link \<mapsto> ln_Name link)))"

definition collectNetworkStatus :: "(err \<Rightarrow> string) \<Rightarrow> net_view \<Rightarrow> networkStatus" where
  "collectNetworkStatus err_text nv =
     (let none = \<lparr>ns_Source = [], ns_Interfaces = [], ns_Routes = [], ns_DNS = [], ns_Error = []\<rparr> in
      case nv_LinkList nv of
        Inl e \<Rightarrow> none\<lparr>ns_Error := ''list links: '' @ err_text e\<rparr>
      | Inr links \<Rightarrow>
          (case fold (link_step err_text nv) links (none\<lparr>ns_Source := ''netlink''\<rparr>, \<lambda>_. None) of
             (status, nameByIndex) \<Rightarrow>
               (case nv_RouteList nv of
                  Inl e \<Rightarrow> status\<lparr>ns_Error := appendStatusError (ns_Error status) (''list routes: '' @ err_text e)\<rparr>
                | Inr routes \<Rightarrow> status\<lparr>ns_Routes := map (\<lambda>route. convertRoute route nameByIndex) routes\<rparr>)
               \<lparr>ns_DNS := resolvConfNameservers nv ''/etc/resolv.conf''\<rparr>))"

section \<open>The addressing of an interface\<close>

definition global_addr :: "networkAddress \<Rightarrow> bool" where
  "global_addr a \<longleftrightarrow> (case ParseIP (ad_IP a) of None \<Rightarrow> False | Some ip \<Rightarrow> IsGlobalUnicast ip)"

lemma addressing_from_spec:
  "addressing_from m as =
     (if list_ex (\<lambda>a. global_addr a \<and> ad_Dynamic a) as then ''dhcp''
      else if list_ex global_addr as then ''static'' else m)"
proof (induction as arbitrary: m)
  case (Cons a as)
  have "addressing_from m (a # as) = (if \<not> global_addr a then addressing_from m as
      else if ad_Dynamic a then ''dhcp'' else addressing_from ''static'' as)"
    by (simp add: global_addr_def split: option.splits)
  then show ?case by (simp only: Cons) auto
qed simp

section \<open>The links\<close>

lemma interface_of_name [simp]: "ni_Name (fst (interface_of nv l)) = ln_Name l"
  by (simp add: interface_of_def Let_def)

lemma interface_of_error [simp]: "snd (interface_of nv l) = None \<longleftrightarrow> is_ok (nv_AddrList nv l)"
  by (auto simp: interface_of_def interfaceAddresses_def Let_def is_ok_iff res_bind_Inr_iff split: sum.splits)

lemma appendStatusError_empty [simp]: "appendStatusError a b = [] \<longleftrightarrow> a = [] \<and> b = []"
  by (simp add: appendStatusError_def)

lemma link_step_fields:
  "link_step err_text nv l (st, names) = (st', names') \<Longrightarrow>
     ns_Interfaces st' = ns_Interfaces st @ [fst (interface_of nv l)] \<and>
     (ns_Error st' = [] \<longleftrightarrow> ns_Error st = [] \<and> is_ok (nv_AddrList nv l)) \<and> names' = names(ln_Index l \<mapsto> ln_Name l)"
  using interface_of_error [of nv l]
  by (cases "interface_of nv l") (auto simp: link_step_def split: option.splits)

lemma link_steps:
  "ns_Interfaces (fst (fold (link_step err_text nv) links (st, names))) =
     ns_Interfaces st @ map (\<lambda>l. fst (interface_of nv l)) links \<and>
   (ns_Error (fst (fold (link_step err_text nv) links (st, names))) = [] \<longleftrightarrow>
      ns_Error st = [] \<and> list_all (\<lambda>l. is_ok (nv_AddrList nv l)) links) \<and>
   snd (fold (link_step err_text nv) links (st, names)) =
     (\<lambda>i. case map_of (rev (map (\<lambda>l. (ln_Index l, ln_Name l)) links)) i of None \<Rightarrow> names i | Some n \<Rightarrow> Some n)"
proof (induction links arbitrary: st names)
  case (Cons l links)
  obtain st' names' where l: "link_step err_text nv l (st, names) = (st', names')" by (cases "link_step err_text nv l (st, names)")
  note step = link_step_fields [OF l]
  have look: "(\<lambda>i. case map_of (rev xs) i of None \<Rightarrow> (names(k \<mapsto> v)) i | Some n \<Rightarrow> Some n) =
      (\<lambda>i. case map_of (rev ((k, v) # xs)) i of None \<Rightarrow> names i | Some n \<Rightarrow> Some n)" for xs :: "(int \<times> string) list" and k v
    by (auto simp: fun_eq_iff map_of_append map_add_def split: option.splits)
  have eq: "fold (link_step err_text nv) (l # links) (st, names) = fold (link_step err_text nv) links (st', names')"
    by (simp add: l)
  note ih = Cons.IH [of st' names']
  show ?case
    unfolding eq
  proof (intro conjI)
    show "snd (fold (link_step err_text nv) links (st', names')) =
        (\<lambda>i. case map_of (rev (map (\<lambda>l. (ln_Index l, ln_Name l)) (l # links))) i of None \<Rightarrow> names i | Some n \<Rightarrow> Some n)"
      using ih step look [where xs = "map (\<lambda>l. (ln_Index l, ln_Name l)) links" and k = "ln_Index l" and v = "ln_Name l"]
      by (simp only: list.map)
  qed (use ih step [THEN conjunct1] step [THEN conjunct2, THEN conjunct1] in simp_all)
qed simp

section \<open>Properties\<close>

text \<open>The addressing of an interface is dhcp exactly when one of its global addresses is dynamic,
  static exactly when it has global addresses and all are permanent, and empty when it has none.\<close>

lemma addressingMethod_spec:
  "addressingMethod as =
     (if list_ex (\<lambda>a. global_addr a \<and> ad_Dynamic a) as then ''dhcp''
      else if list_ex global_addr as then ''static'' else [])"
  by (simp add: addressingMethod_def addressing_from_spec)

text \<open>C36: the status reports every link, in order, and every route with the name of the link that has
  its index, whatever else fails; and it has an error exactly when the links, the addresses of one of
  them or the routes could not be listed.\<close>

theorem collectNetworkStatus_complete:
  "(ns_Error (collectNetworkStatus err_text nv) = [] \<longleftrightarrow>
      (case nv_LinkList nv of
         Inl _ \<Rightarrow> False
       | Inr links \<Rightarrow> list_all (\<lambda>l. is_ok (nv_AddrList nv l)) links \<and> is_ok (nv_RouteList nv))) \<and>
   map ni_Name (ns_Interfaces (collectNetworkStatus err_text nv)) =
     (case nv_LinkList nv of Inl _ \<Rightarrow> [] | Inr links \<Rightarrow> map ln_Name links) \<and>
   map no_Interface (ns_Routes (collectNetworkStatus err_text nv)) =
     (case (nv_LinkList nv, nv_RouteList nv) of
        (Inr links, Inr routes) \<Rightarrow>
          map (\<lambda>r. case map_of (rev (map (\<lambda>l. (ln_Index l, ln_Name l)) links)) (nr_LinkIndex r) of None \<Rightarrow> [] | Some n \<Rightarrow> n) routes
      | _ \<Rightarrow> [])"
proof (cases "nv_LinkList nv")
  case (Inl e)
  then show ?thesis by (simp add: collectNetworkStatus_def Let_def)
next
  case (Inr links)
  let ?none = "\<lparr>ns_Source = ''netlink'', ns_Interfaces = [], ns_Routes = [], ns_DNS = [], ns_Error = []\<rparr>"
  obtain st names where st: "fold (link_step err_text nv) links (?none, \<lambda>_. None) = (st, names)"
    by (cases "fold (link_step err_text nv) links (?none, \<lambda>_. None)")
  have run: "ns_Interfaces st = map (\<lambda>l. fst (interface_of nv l)) links"
    "ns_Error st = [] \<longleftrightarrow> list_all (\<lambda>l. is_ok (nv_AddrList nv l)) links"
    "names = map_of (rev (map (\<lambda>l. (ln_Index l, ln_Name l)) links))"
    using link_steps [of err_text nv links ?none "\<lambda>_. None"] unfolding st by (auto simp: fun_eq_iff split: option.splits)
  have routes: "ns_Routes st = []"
  proof -
    have "ns_Routes (fst (fold (link_step err_text nv) ls p)) = ns_Routes (fst p)" for ls p
      by (induction ls arbitrary: p) (auto simp: link_step_def split: prod.splits)
    from this [of links "(?none, \<lambda>_. None)"] show ?thesis unfolding st by simp
  qed
  show ?thesis
  proof (cases "nv_RouteList nv")
    case (Inl e)
    with Inr st run routes show ?thesis by (simp add: collectNetworkStatus_def Let_def comp_def)
  next
    case rs: (Inr routes)
    with Inr st run show ?thesis by (simp add: collectNetworkStatus_def Let_def convertRoute_def comp_def)
  qed
qed

end
