(* ===== verification/Status.thy ===== *)
theory Status
  imports Podman Fileio Orchestration LogRing Ostree Hoststats Hardware NetworkStatus
begin

text \<open>
  \<open>status.go\<close>: the status document, put together from what the collectors of the other components
  give.  What they read of the host, the clock and the log is the environment.
\<close>

section \<open>The document\<close>

record edgecommanderStatus =
  es_Status :: string
  es_GeneratedAt :: string
  es_Hostname :: string
  es_Uptime :: uptimeStatus
  es_Ostree :: ostreeStatus
  es_FreeDiskSpace :: "diskStatus list"
  es_Memory :: memoryStatus
  es_CPU :: cpuStatus
  es_Inventory :: "Inventory option"
  es_Network :: networkStatus
  es_Containers :: "runningContainerStatus list"
  es_EdgecommanderLog :: "string list"
  es_Errors :: "string list"

text \<open>\<open>se_log\<close> is the snapshot of the log ring; the processor is read before and after the pause.\<close>

record 'x status_env =
  se_now :: string
  se_Hostname :: "string res"
  se_json :: "string \<Rightarrow> Config res"
  se_decode_rpm :: "string \<Rightarrow> rpmOstreeDeployment list res"
  se_decode :: "string \<Rightarrow> json res"
  se_exec :: "'x fs_scheme runner"
  se_before :: host_view
  se_after :: host_view
  se_cores :: int
  se_parseFloat :: "string \<Rightarrow> rat res"
  se_dmi :: "dmiDecoder res"
  se_net :: net_view
  se_podman :: "'x fs_scheme podman"
  se_log :: "'x fs_scheme \<Rightarrow> string list"
  se_err :: "err \<Rightarrow> string"

definition empty_status :: edgecommanderStatus where
  "empty_status = \<lparr>es_Status = ''ok'', es_GeneratedAt = [], es_Hostname = [],
     es_Uptime = \<lparr>ut_Seconds = 0, ut_Human = [], ut_Error = []\<rparr>, es_Ostree = no_ostreeStatus, es_FreeDiskSpace = [],
     es_Memory = no_memory [], es_CPU = \<lparr>cs_Cores = 0, cs_UsedPercent = 0, cs_Error = []\<rparr>, es_Inventory = None,
     es_Network = \<lparr>ns_Source = [], ns_Interfaces = [], ns_Routes = [], ns_DNS = [], ns_Error = []\<rparr>,
     es_Containers = [], es_EdgecommanderLog = [], es_Errors = []\<rparr>"

section \<open>Operations\<close>

definition add_error :: "string \<Rightarrow> edgecommanderStatus \<Rightarrow> edgecommanderStatus" where
  "add_error msg st = st\<lparr>es_Errors := es_Errors st @ [msg]\<rparr>"

definition recordError :: "string \<Rightarrow> string \<Rightarrow> edgecommanderStatus \<Rightarrow> edgecommanderStatus" where
  "recordError prefix msg st = (if msg \<noteq> [] then add_error (prefix @ '': '' @ msg) st else st)"

definition collectHostnameInto :: "(err \<Rightarrow> string) \<Rightarrow> string res \<Rightarrow> edgecommanderStatus \<Rightarrow> edgecommanderStatus" where
  "collectHostnameInto err_text hostname st =
     (case hostname of
        Inr h \<Rightarrow> st\<lparr>es_Hostname := h\<rparr>
      | Inl e \<Rightarrow> add_error (''hostname: '' @ err_text e) st)"

definition collectInventoryInto :: "(err \<Rightarrow> string) \<Rightarrow> dmiDecoder res \<Rightarrow> edgecommanderStatus \<Rightarrow> edgecommanderStatus" where
  "collectInventoryInto err_text dmi st =
     (case collectInventory dmi of
        Inl e \<Rightarrow> add_error (''inventory: '' @ err_text e) st
      | Inr inventory \<Rightarrow> st\<lparr>es_Inventory := Some inventory\<rparr>)"

definition containerStatusErrors :: "runningContainerStatus list \<Rightarrow> string list" where
  "containerStatusErrors containers =
     map (\<lambda>c. ''container '' @ rs_Name c @ '': '' @ rs_Error c) (filter (\<lambda>c. rs_Error c \<noteq> []) containers)"

text \<open>The parts read of the kernel, in the order of the code.\<close>

definition collect_host :: "'x status_env \<Rightarrow> edgecommanderStatus \<Rightarrow> edgecommanderStatus" where
  "collect_host env st =
     (case collectDiskStatuses (se_before env) of
        (disks, diskErrors) \<Rightarrow>
          let st1 = fold (\<lambda>e. add_error (''disk: '' @ se_err env e)) diskErrors (st\<lparr>es_FreeDiskSpace := disks\<rparr>);
              memory = collectMemoryStatus (se_err env) (se_before env);
              st2 = recordError ''memory'' (ms_Error memory) (st1\<lparr>es_Memory := memory\<rparr>);
              cpu = collectCPUStatus (se_err env) (se_cores env) (se_before env) (se_after env);
              st3 = recordError ''cpu'' (cs_Error cpu) (st2\<lparr>es_CPU := cpu\<rparr>);
              uptime = collectUptimeStatus (se_err env) (se_parseFloat env) (se_after env);
              st4 = recordError ''uptime'' (ut_Error uptime) (st3\<lparr>es_Uptime := uptime\<rparr>);
              st5 = collectInventoryInto (se_err env) (se_dmi env) st4;
              network = collectNetworkStatus (se_err env) (se_net env)
          in recordError ''network'' (ns_Error network) (st5\<lparr>es_Network := network\<rparr>))"

definition finish_status :: "string list \<Rightarrow> edgecommanderStatus \<Rightarrow> edgecommanderStatus" where
  "finish_status log_lines st =
     (let st1 = st\<lparr>es_EdgecommanderLog := log_lines\<rparr> in
      if length (es_Errors st1) > 0 then st1\<lparr>es_Status := ''degraded''\<rparr> else st1)"

definition collectEdgecommanderStatus :: "'x status_env \<Rightarrow> string \<Rightarrow> ('x fs_scheme, edgecommanderStatus) io" where
  "collectEdgecommanderStatus env configPath =
     (let st0 = empty_status\<lparr>es_GeneratedAt := se_now env\<rparr>;
          st1 = collectHostnameInto (se_err env) (se_Hostname env) st0
      in io_bind (io_try (loadConfig (se_json env) configPath)) (\<lambda>c.
      let st2 = (case c of Inl e \<Rightarrow> add_error (''load config: '' @ se_err env e) st1 | Inr _ \<Rightarrow> st1) in
      io_bind (io_try (collectOstreeStatus (se_decode_rpm env) (se_decode env) (se_exec env))) (\<lambda>r.
      let st3 = (case r of
            Inl e \<Rightarrow> (add_error (''ostree: '' @ se_err env e) st2)\<lparr>es_Ostree := no_ostreeStatus\<lparr>st_Error := se_err env e\<rparr>\<rparr>
          | Inr ostree \<Rightarrow> st2\<lparr>es_Ostree := ostree\<rparr>);
          st4 = collect_host env st3
      in io_bind (io_try (collectRunningContainerStatuses (se_podman env) edgecommanderLogTail)) (\<lambda>r.
      let st5 = (case r of Inl e \<Rightarrow> add_error (''containers: '' @ se_err env e) st4 | Inr _ \<Rightarrow> st4);
          containers = (case r of Inl _ \<Rightarrow> [] | Inr cs \<Rightarrow> cs);
          st6 = st5\<lparr>es_Containers := containers, es_Errors := es_Errors st5 @ containerStatusErrors containers\<rparr>
      in (\<lambda>s. (Inr (finish_status (se_log env s) st6), s))))))"

section \<open>Errors are never lost\<close>

lemma add_error_fields [simp]:
  "es_Errors (add_error m st) = es_Errors st @ [m]" "es_Status (add_error m st) = es_Status st"
  "es_Hostname (add_error m st) = es_Hostname st" "es_Ostree (add_error m st) = es_Ostree st"
  "es_Inventory (add_error m st) = es_Inventory st" "es_Memory (add_error m st) = es_Memory st"
  "es_CPU (add_error m st) = es_CPU st" "es_Uptime (add_error m st) = es_Uptime st" "es_Network (add_error m st) = es_Network st"
  "es_FreeDiskSpace (add_error m st) = es_FreeDiskSpace st" "es_Containers (add_error m st) = es_Containers st"
  by (simp_all add: add_error_def)

lemma recordError_fields [simp]:
  "es_Errors (recordError p m st) = [] \<longleftrightarrow> es_Errors st = [] \<and> m = []" "es_Status (recordError p m st) = es_Status st"
  "es_Hostname (recordError p m st) = es_Hostname st" "es_Ostree (recordError p m st) = es_Ostree st"
  "es_Inventory (recordError p m st) = es_Inventory st" "es_Memory (recordError p m st) = es_Memory st"
  "es_CPU (recordError p m st) = es_CPU st" "es_Uptime (recordError p m st) = es_Uptime st"
  "es_Network (recordError p m st) = es_Network st" "es_FreeDiskSpace (recordError p m st) = es_FreeDiskSpace st"
  by (simp_all add: recordError_def)

lemma fold_add_error [simp]:
  "es_Errors (fold (\<lambda>e. add_error (f e)) es st) = es_Errors st @ map f es"
  "es_Status (fold (\<lambda>e. add_error (f e)) es st) = es_Status st" "es_Hostname (fold (\<lambda>e. add_error (f e)) es st) = es_Hostname st"
  "es_Ostree (fold (\<lambda>e. add_error (f e)) es st) = es_Ostree st"
  "es_FreeDiskSpace (fold (\<lambda>e. add_error (f e)) es st) = es_FreeDiskSpace st"
  by (induction es arbitrary: st) simp_all

lemma inventory_fields [simp]:
  "es_Errors (collectInventoryInto f d st) = [] \<longleftrightarrow> es_Errors st = [] \<and> is_ok (collectInventory d)"
  "es_Status (collectInventoryInto f d st) = es_Status st" "es_Hostname (collectInventoryInto f d st) = es_Hostname st"
  "es_Ostree (collectInventoryInto f d st) = es_Ostree st" "es_Memory (collectInventoryInto f d st) = es_Memory st"
  "es_CPU (collectInventoryInto f d st) = es_CPU st" "es_Uptime (collectInventoryInto f d st) = es_Uptime st"
  "es_FreeDiskSpace (collectInventoryInto f d st) = es_FreeDiskSpace st"
  by (simp_all add: collectInventoryInto_def is_ok_iff split: sum.splits)

lemma collect_host_errors:
  "es_Errors (collect_host env st) = [] \<longleftrightarrow>
     es_Errors st = [] \<and> snd (collectDiskStatuses (se_before env)) = [] \<and>
     ms_Error (collectMemoryStatus (se_err env) (se_before env)) = [] \<and>
     cs_Error (collectCPUStatus (se_err env) (se_cores env) (se_before env) (se_after env)) = [] \<and>
     ut_Error (collectUptimeStatus (se_err env) (se_parseFloat env) (se_after env)) = [] \<and>
     is_ok (collectInventory (se_dmi env)) \<and> ns_Error (collectNetworkStatus (se_err env) (se_net env)) = []"
  by (auto simp: collect_host_def Let_def split: prod.splits)

lemma collect_host_kept [simp]: "es_Status (collect_host env st) = es_Status st"
  by (simp add: collect_host_def Let_def split: prod.splits)

lemma finish_status_fields:
  "es_Status (finish_status l st) = (if es_Errors st = [] then es_Status st else ''degraded'')"
  "es_Errors (finish_status l st) = es_Errors st"
  by (simp_all add: finish_status_def Let_def)

lemma containerStatusErrors_empty [simp]: "containerStatusErrors cs = [] \<longleftrightarrow> list_all (\<lambda>c. rs_Error c = []) cs"
  by (simp add: containerStatusErrors_def filter_empty_conv list_all_iff)

lemma collectHostnameInto_fields [simp]:
  "es_Errors (collectHostnameInto f h st) = [] \<longleftrightarrow> es_Errors st = [] \<and> is_ok h"
  "es_Status (collectHostnameInto f h st) = es_Status st"
  by (simp_all add: collectHostnameInto_def is_ok_iff split: sum.splits)

section \<open>Properties\<close>

text \<open>C38: the status is always produced, and it says ok exactly when every collector succeeded: host name,
  configuration file, ostree, every disk, memory, processor, uptime, inventory, network, the list of the
  containers and every container in it; otherwise it says degraded and names the errors.\<close>

theorem collectEdgecommanderStatus_ok:
  assumes "loadConfig (se_json env) path s = (c, u)"
    and "collectOstreeStatus (se_decode_rpm env) (se_decode env) (se_exec env) u = (o1, v)"
    and "collectRunningContainerStatuses (se_podman env) edgecommanderLogTail v = (r, t)"
  shows "\<exists>st. collectEdgecommanderStatus env path s = (Inr st, t) \<and>
    (es_Status st = ''ok'' \<longleftrightarrow> es_Errors st = []) \<and> (es_Status st = ''degraded'' \<longleftrightarrow> es_Errors st \<noteq> []) \<and>
    (es_Errors st = [] \<longleftrightarrow>
       is_ok (se_Hostname env) \<and> is_ok c \<and> is_ok o1 \<and>
       snd (collectDiskStatuses (se_before env)) = [] \<and>
       ms_Error (collectMemoryStatus (se_err env) (se_before env)) = [] \<and>
       cs_Error (collectCPUStatus (se_err env) (se_cores env) (se_before env) (se_after env)) = [] \<and>
       ut_Error (collectUptimeStatus (se_err env) (se_parseFloat env) (se_after env)) = [] \<and>
       is_ok (collectInventory (se_dmi env)) \<and> ns_Error (collectNetworkStatus (se_err env) (se_net env)) = [] \<and>
       (case r of Inl _ \<Rightarrow> False | Inr cs \<Rightarrow> list_all (\<lambda>c. rs_Error c = []) cs))"
  using assms
  by (cases c; cases o1; cases r)
     (simp_all add: collectEdgecommanderStatus_def Let_def run_bind run_try finish_status_fields collect_host_errors empty_status_def)

text \<open>An environment in which nothing can be read and no tool runs.\<close>

definition bare_env :: "unit status_env" where
  "bare_env = \<lparr>se_now = [], se_Hostname = Inr ''edge'', se_json = (\<lambda>_. Inl (Outside ''json'')),
     se_decode_rpm = (\<lambda>_. Inr []), se_decode = (\<lambda>_. Inr JNull),
     se_exec = (\<lambda>_ _ s. (\<lparr>oc_output = [], oc_err = Some (Outside ''none''), oc_ctx = None\<rparr>, s)),
     se_before = \<lparr>hv_ReadFile = (\<lambda>_. Inl (Outside ''none'')), hv_Stat = (\<lambda>_. Inr 0), hv_Statfs = (\<lambda>_. Inl (Outside ''none''))\<rparr>,
     se_after = \<lparr>hv_ReadFile = (\<lambda>_. Inl (Outside ''none'')), hv_Stat = (\<lambda>_. Inr 0), hv_Statfs = (\<lambda>_. Inl (Outside ''none''))\<rparr>,
     se_cores = 4, se_parseFloat = (\<lambda>_. Inr 0), se_dmi = Inl (Outside ''none''),
     se_net = \<lparr>nv_LinkList = Inr [], nv_AddrList = (\<lambda>_. Inr []), nv_RouteList = Inr [], nv_ReadFile = (\<lambda>_. Inl (Outside ''none''))\<rparr>,
     se_podman = \<lparr>pd_GetClient = io_ok (), pd_DoRequest = (\<lambda>_. io_fail (Outside ''refused'')), pd_CloseBody = io_ok (),
       pd_NewConnection = (\<lambda>_. io_fail (Outside ''refused'')), pd_json = (\<lambda>_. []), pd_sha256 = (\<lambda>x. x), pd_text = (\<lambda>_. [])\<rparr>,
     se_log = (\<lambda>_. []), se_err = (\<lambda>_. ''error'')\<rparr>"

lemma collectEdgecommanderStatus_ok_witness:
  "\<exists>st t. collectEdgecommanderStatus bare_env ''/etc/ec.json'' (sample_fs []) = (Inr st, t) \<and> es_Status st = ''degraded''"
proof -
  obtain c u where 1: "loadConfig (se_json bare_env) ''/etc/ec.json'' (sample_fs []) = (c, u)" by fastforce
  obtain o1 v where 2: "collectOstreeStatus (se_decode_rpm bare_env) (se_decode bare_env) (se_exec bare_env) u = (o1, v)" by fastforce
  obtain r t where 3: "collectRunningContainerStatuses (se_podman bare_env) edgecommanderLogTail v = (r, t)" by fastforce
  have "\<not> is_ok (collectInventory (se_dmi bare_env))" by code_simp
  with collectEdgecommanderStatus_ok [OF 1 2 3] show ?thesis by auto
qed

end
