(* ===== verification/Mkrpm.thy ===== *)
theory Mkrpm
  imports Provision
begin

text \<open>
  \<open>cmd/mkrpm/main.go\<close>: the package made of the program.  The library that checks the metadata, parses a
  dependency and turns a package into bytes is a parameter; the files are those of the file system
  model.
\<close>

section \<open>The package\<close>

definition packageName :: string where "packageName = ''edgecommander''"

definition summary :: string where "summary = ''Podman container reconciler and node configuration service''"

definition description :: string where
  "description = ''edgecommander reads a JSON node configuration and reconciles host folders, host network interfaces (through nmstate), firewalld ports, and the Podman containers that should be present. It also serves /edgecommander/status, /edgecommander/restart, and /edgecommander/ostree OS-update endpoints over its -listen address, which defaults to a local Unix socket.''"

definition url :: string where "url = ''https://github.com/define42/edgecommander''"

definition licence :: string where "licence = ''Apache-2.0''"

definition unitDestination :: string where "unitDestination = ''/usr/lib/systemd/system/edgecommander.service''"

definition licenseDest :: string where "licenseDest = ''/usr/share/licenses/edgecommander/LICENSE''"

definition script :: "string list \<Rightarrow> string" where
  "script ls = concat (map (\<lambda>l. l @ [CHR 0x0A]) ls)"

definition postinScript :: string where
  \<open>postinScript = script
     [''if command -v systemctl >/dev/null 2>&1; then'',
      ''    systemctl daemon-reload || :'',
      ''    if [ "$1" = 1 ]; then'',
      ''        systemctl --no-reload preset edgecommander.service || :'',
      ''    fi'',
      ''fi'']\<close>

definition preunScript :: string where
  \<open>preunScript = script
     [''if [ "$1" = 0 ] && command -v systemctl >/dev/null 2>&1; then'',
      ''    systemctl --no-reload disable --now edgecommander.service || :'',
      ''fi'']\<close>

definition postunScript :: string where
  \<open>postunScript = script
     [''if command -v systemctl >/dev/null 2>&1; then'',
      ''    systemctl daemon-reload || :'',
      ''    if [ "$1" -ge 1 ]; then'',
      ''        systemctl try-restart edgecommander.service || :'',
      ''    fi'',
      ''fi'']\<close>

record rpm_options =
  op_version :: string
  op_release :: string
  op_arch :: string
  op_binarySrc :: string
  op_binaryDest :: string
  op_unitSrc :: string
  op_licenseSrc :: string
  op_out :: string

record 'rel RPMMetaData =
  md_Name :: string
  md_Summary :: string
  md_Description :: string
  md_Version :: string
  md_Release :: string
  md_Arch :: string
  md_URL :: string
  md_Licence :: string
  md_Requires :: "'rel list"
  md_Recommends :: "'rel list"

record RPMFile =
  rf_Name :: string
  rf_Body :: string
  rf_Mode :: nat
  rf_Owner :: string
  rf_Group :: string
  rf_MTime :: "32 word"

record 'rel RPM =
  rp_MetaData :: "'rel RPMMetaData"
  rp_Files :: "RPMFile list"
  rp_Postin :: string
  rp_Preun :: string
  rp_Postun :: string

text \<open>What the library does: the check of \<open>NewRPM\<close>, the parser of a dependency, the bytes of a package.\<close>

record 'rel rpmpack =
  pk_NewRPM :: "'rel RPMMetaData \<Rightarrow> unit res"
  pk_Set :: "string \<Rightarrow> 'rel res"
  pk_Bytes :: "'rel RPM \<Rightarrow> string res"

section \<open>Operations\<close>

definition rpmArch :: "string \<Rightarrow> string" where
  "rpmArch goarch =
     (if goarch = ''amd64'' then ''x86_64'' else if goarch = ''arm64'' then ''aarch64'' else goarch)"

definition default_out :: "rpm_options \<Rightarrow> string" where
  "default_out o1 =
     (if op_out o1 = [] then ''dist/'' @ packageName @ ''-'' @ op_version o1 @ ''-'' @ op_release o1 @ ''.'' @ op_arch o1 @ ''.rpm''
      else op_out o1)"

definition packageRelations :: "'rel rpmpack \<Rightarrow> ('rel list \<times> 'rel list) res" where
  "packageRelations pk =
     res_bind (res_map (\<lambda>dep. res_wrap (Wrapf ''add require %q: %w'' [dep]) (pk_Set pk dep)) [''podman'', ''nmstate'']) (\<lambda>requires.
     res_bind (res_wrap (Wrapf ''add recommend %q: %w'' [''firewalld'']) (pk_Set pk ''firewalld'')) (\<lambda>recommend.
     Inr (requires, [recommend])))"

text \<open>\<open>stat\<close> is the modification time of a file in seconds.\<close>

definition package_sources :: "rpm_options \<Rightarrow> (string \<times> string \<times> nat) list" where
  "package_sources o1 =
     [(op_binarySrc o1, op_binaryDest o1, 493), (op_unitSrc o1, unitDestination, 420), (op_licenseSrc o1, licenseDest, 420)]"

primrec add_files :: "32 word \<Rightarrow> (string \<times> string \<times> nat) list \<Rightarrow> 'rel RPM \<Rightarrow> ('x fs_scheme, 'rel RPM) io" where
  "add_files mtime [] rpm = io_ok rpm"
| "add_files mtime (f # files) rpm =
     (case f of (src, dest, mode) \<Rightarrow>
        io_bind (os_ReadFile src) (\<lambda>body.
        add_files mtime files
          (rpm\<lparr>rp_Files := rp_Files rpm @ [\<lparr>rf_Name = dest, rf_Body = body, rf_Mode = mode, rf_Owner = ''root'',
             rf_Group = ''root'', rf_MTime = mtime\<rparr>]\<rparr>)))"

definition addPackageFiles :: "(string \<Rightarrow> ('x fs_scheme, int) io) \<Rightarrow> 'rel RPM \<Rightarrow> rpm_options \<Rightarrow> ('x fs_scheme, 'rel RPM) io" where
  "addPackageFiles stat rpm o1 =
     io_bind (stat (op_binarySrc o1)) (\<lambda>modTime.
     add_files (word_of_int modTime) (package_sources o1) rpm)"

definition package_metadata :: "rpm_options \<Rightarrow> 'rel list \<Rightarrow> 'rel list \<Rightarrow> 'rel RPMMetaData" where
  "package_metadata o1 requires recommends =
     \<lparr>md_Name = packageName, md_Summary = summary, md_Description = description, md_Version = op_version o1,
      md_Release = op_release o1, md_Arch = op_arch o1, md_URL = url, md_Licence = licence,
      md_Requires = requires, md_Recommends = recommends\<rparr>"

text \<open>Writing to the created file; a package that has no bytes is an error before the first write.\<close>

definition write_package :: "'rel rpmpack \<Rightarrow> 'rel RPM \<Rightarrow> string \<Rightarrow> ('x fs_scheme, unit) io" where
  "write_package pk rpm out =
     io_bind (open_trunc (resolve out) 438) (\<lambda>dst.
     io_bind (io_try (io_bind (io_lift (pk_Bytes pk rpm)) (file_Write dst))) (\<lambda>w.
     case w of
       Inl e \<Rightarrow> io_then (io_try (file_Close dst)) (io_fail e)
     | Inr _ \<Rightarrow> file_Close dst))"

definition writeRPM :: "'rel rpmpack \<Rightarrow> (string \<Rightarrow> ('x fs_scheme, int) io) \<Rightarrow> rpm_options \<Rightarrow> ('x fs_scheme, unit) io" where
  "writeRPM pk stat o1 =
     io_bind (io_lift (packageRelations pk)) (\<lambda>(requires, recommends).
     let md = package_metadata o1 requires recommends in
     io_then (io_lift (pk_NewRPM pk md))
     (io_bind (addPackageFiles stat \<lparr>rp_MetaData = md, rp_Files = [], rp_Postin = [], rp_Preun = [], rp_Postun = []\<rparr> o1) (\<lambda>rpm.
      write_package pk (rpm\<lparr>rp_Postin := postinScript, rp_Preun := preunScript, rp_Postun := postunScript\<rparr>) (op_out o1))))"

section \<open>What is written\<close>

lemma open_write_close:
  assumes "write_package pk rpm out s = (Inr u, t)" "sep s"
  obtains b where "pk_Bytes pk rpm = Inr b" "kept_but {resolve out} s t" "map_option ino_data (inode_at t (resolve out)) = Some b"
proof -
  from assms(1) obtain f s1 b s2 where 1: "open_trunc (resolve out) 438 s = (Inr f, s1)" and b: "pk_Bytes pk rpm = Inr b"
    and 2: "file_Write f b s1 = (Inr (), s2)" and 3: "file_Close f s2 = (Inr (), t)"
    unfolding write_package_def by (auto simp: success_simps io_laws split: sum.splits prod.splits)
  note o = open_trunc_run [OF 1 assms(2)]
  have "sep s1" using o by (simp add: kept_but_def)
  note wr = change_run [OF 2 [unfolded file_Write_def] this, of "resolve out"]
  have "sep s2" using wr o by (simp add: kept_but_def)
  note cl = Close_run [OF 3 this]
  have "kept_but {resolve out} s t"
    using kept_trans [OF kept_trans, of "{resolve out}" s s1 s2 t] o wr kept_mono [of "{}" s2 t "{resolve out}"] cl by auto
  with b o wr cl show ?thesis by (intro that) auto
qed

lemma ReadFile_run:
  "os_ReadFile p s = (Inr b, t) \<Longrightarrow> sep s \<Longrightarrow> kept_but {} s t \<and> (\<forall>q. inode_at t q = inode_at s q) \<and>
     map_option ino_data (inode_at s (resolve p)) = Some b"
  unfolding os_ReadFile_def Let_def
  by (erule syscall_cases) (auto simp: kept_refl split: if_splits option.splits)

text \<open>The entry made for a source file that holds \<open>body\<close>.\<close>

definition packed :: "32 word \<Rightarrow> (string \<times> string \<times> nat) \<Rightarrow> string \<Rightarrow> RPMFile" where
  "packed mtime f body = \<lparr>rf_Name = fst (snd f), rf_Body = body, rf_Mode = snd (snd f), rf_Owner = ''root'',
     rf_Group = ''root'', rf_MTime = mtime\<rparr>"

lemma add_files_run:
  assumes "add_files mtime files rpm s = (Inr rpm', t)" "sep s"
  shows "\<exists>bodies. map (\<lambda>f. map_option ino_data (inode_at s (resolve (fst f)))) files = map Some bodies \<and>
    rpm' = rpm\<lparr>rp_Files := rp_Files rpm @ map2 (packed mtime) files bodies\<rparr> \<and> kept_but {} s t \<and> (\<forall>q. inode_at t q = inode_at s q)"
  using assms
proof (induction files arbitrary: rpm s)
  case (Cons f files)
  obtain src dest mode where f: "f = (src, dest, mode)" by (cases f)
  from Cons.prems f obtain body s1 where 1: "os_ReadFile src s = (Inr body, s1)"
    and 2: "add_files mtime files (rpm\<lparr>rp_Files := rp_Files rpm @ [packed mtime f body]\<rparr>) s1 = (Inr rpm', t)"
    by (auto simp: success_simps packed_def)
  note rd = ReadFile_run [OF 1 Cons.prems(2)]
  have "sep s1" using rd by (simp add: kept_but_def)
  from Cons.IH [OF 2 this] rd obtain bodies where
    "map (\<lambda>f. map_option ino_data (inode_at s (resolve (fst f)))) files = map Some bodies"
    "rpm' = rpm\<lparr>rp_Files := rp_Files rpm @ packed mtime f body # map2 (packed mtime) files bodies\<rparr>"
    "kept_but {} s1 t" "\<forall>q. inode_at t q = inode_at s q" by auto
  with rd f show ?case by (intro exI [of _ "body # bodies"]) (auto intro: kept_trans)
qed (auto simp: kept_refl)

section \<open>Properties\<close>


definition sample_rpmpack :: "string rpmpack" where
  "sample_rpmpack = \<lparr>pk_NewRPM = (\<lambda>_. Inr ()), pk_Set = Inr, pk_Bytes = (\<lambda>r. Inr (concat (map rf_Body (rp_Files r))))\<rparr>"

definition sample_options :: rpm_options where
  "sample_options = \<lparr>op_version = ''1'', op_release = ''1'', op_arch = ''x86_64'', op_binarySrc = ''/etc/ec.json'',
     op_binaryDest = ''/usr/bin/edgecommander'', op_unitSrc = ''/etc/ec.json'', op_licenseSrc = ''/etc/ec.json'', op_out = ''/etc/out.rpm''\<rparr>"


end
